(* ===== verification/Tack_Prelude.thy ===== *)
theory Tack_Prelude
  imports Main
    "HOL-Library.Word"
    "HOL-Library.Finite_Map"
    "HOL-Library.Char_ord"
    "HOL-Library.List_Lexorder"
    "HOL-Library.Product_Lexorder"
begin

text \<open>
  Shared vocabulary of the development: the types the Go code uses everywhere (UUIDs,
  digests, times, JSON messages), errors as values of a sum type with the combinators that
  sequence them, and the ordered key-value maps that stand for the key families of
  FoundationDB. Every other theory imports this one.
\<close>

section \<open>Collections of simplification rules\<close>

named_theorems err_simps "inversion rules for computations that may fail"
named_theorems kv_simps "reads of an ordered key-value map after a write"

section \<open>Base types\<close>

text \<open>
  \<open>uuid.UUID\<close> is a 16-byte array and a digest a 32-byte array: words of that width, with
  \<open>uuid.Nil\<close> as the zero word. The order on the words is the byte order of the arrays, which
  is also the order of the canonical texts. A time is the number of nanoseconds since the zero
  \<open>time.Time\<close>, so that \<open>IsZero\<close> is equality with \<open>0\<close>. An \<open>int64\<close> counter is an \<open>int\<close>
  and its overflow checks are written out.
\<close>

type_synonym uuid = "128 word"
type_synonym digest = "256 word"
type_synonym bytes = "8 word list"
type_synonym timestamp = int

abbreviation uuid_nil :: uuid where
  "uuid_nil \<equiv> 0"

definition max_int64 :: int where
  "max_int64 = 2 ^ 63 - 1"

definition unix_epoch :: timestamp where
  "unix_epoch = 62135596800 * 1000000000"

definition unix_nano :: "timestamp \<Rightarrow> int" where
  "unix_nano t = t - unix_epoch"

definition uuid_bytes :: "uuid \<Rightarrow> bytes" where
  "uuid_bytes u = map (\<lambda>i. ucast (drop_bit (8 * (15 - i)) u)) [0..<16]"

lemma unix_nano_eq_iff [simp]: "unix_nano s = unix_nano t \<longleftrightarrow> s = t"
  by (simp add: unix_nano_def)

lemma unix_nano_less_iff [simp]: "unix_nano s < unix_nano t \<longleftrightarrow> s < t"
  by (simp add: unix_nano_def)

lemma length_uuid_bytes [simp]: "length (uuid_bytes u) = 16"
  by (simp add: uuid_bytes_def)

section \<open>Computations that may fail\<close>

text \<open>
  A Go function that returns \<open>(T, error)\<close> is a value of \<open>'e + 'a\<close>: \<open>Inl\<close> carries the error
  and ends the computation, as \<open>if err != nil \<open>{\<close> return ... \<open>}\<close>\<close> does.
\<close>

definition bindE :: "'e + 'a \<Rightarrow> ('a \<Rightarrow> 'e + 'b) \<Rightarrow> 'e + 'b" where
  "bindE m f = (case m of Inl e \<Rightarrow> Inl e | Inr x \<Rightarrow> f x)"

definition guardE :: "bool \<Rightarrow> 'e \<Rightarrow> 'e + unit" where
  "guardE b e = (if b then Inr () else Inl e)"

fun foldE :: "('x \<Rightarrow> 's \<Rightarrow> 'e + 's) \<Rightarrow> 'x list \<Rightarrow> 's \<Rightarrow> 'e + 's" where
  "foldE f [] s = Inr s"
| "foldE f (x # xs) s = bindE (f x s) (foldE f xs)"

fun mapE :: "('x \<Rightarrow> 'e + 'y) \<Rightarrow> 'x list \<Rightarrow> 'e + 'y list" where
  "mapE f [] = Inr []"
| "mapE f (x # xs) = bindE (f x) (\<lambda>y. bindE (mapE f xs) (\<lambda>ys. Inr (y # ys)))"

lemma bindE_Inl [simp]: "bindE (Inl e) f = Inl e"
  by (simp add: bindE_def)

lemma bindE_Inr [simp]: "bindE (Inr x) f = f x"
  by (simp add: bindE_def)

lemma bindE_eq_Inr [err_simps]: "bindE m f = Inr y \<longleftrightarrow> (\<exists>x. m = Inr x \<and> f x = Inr y)"
  by (cases m) auto

lemma bindE_eq_Inl: "bindE m f = Inl e \<longleftrightarrow> m = Inl e \<or> (\<exists>x. m = Inr x \<and> f x = Inl e)"
  by (cases m) auto

lemma bindE_cong [fundef_cong]:
  "m = m' \<Longrightarrow> (\<And>x. m' = Inr x \<Longrightarrow> f x = g x) \<Longrightarrow> bindE m f = bindE m' g"
  by (cases m') auto

lemma bindE_InrE: "bindE m f = Inr y \<Longrightarrow> (\<And>x. m = Inr x \<Longrightarrow> f x = Inr y \<Longrightarrow> thesis) \<Longrightarrow> thesis"
  by (cases m) auto

lemma bindE_InrE2: "bindE m f = Inr y \<Longrightarrow> (\<And>a b. m = Inr (a, b) \<Longrightarrow> f (a, b) = Inr y \<Longrightarrow> thesis) \<Longrightarrow> thesis"
  by (cases m) auto

lemma bindE_InrE3: "bindE m f = Inr y \<Longrightarrow> (\<And>a b c. m = Inr (a, b, c) \<Longrightarrow> f (a, b, c) = Inr y \<Longrightarrow> thesis) \<Longrightarrow> thesis"
  by (cases m) auto

lemma guardE_simps [simp]: "guardE True e = Inr ()" "guardE False e = Inl e"
  by (simp_all add: guardE_def)

lemma guardE_eq_Inr [err_simps]: "guardE b e = Inr u \<longleftrightarrow> b"
  by (cases b) auto

lemma guardE_eq_Inl: "guardE b e = Inl e' \<longleftrightarrow> \<not> b \<and> e' = e"
  by (cases b) auto

text \<open>A loop that updates a state keeps whatever every iteration keeps.\<close>

lemma foldE_invariant:
  assumes "foldE f xs s = Inr t" and "P s"
    and "\<And>x s t. x \<in> set xs \<Longrightarrow> P s \<Longrightarrow> f x s = Inr t \<Longrightarrow> P t"
  shows "P t"
  using assms
proof (induction xs arbitrary: s)
  case (Cons x xs)
  from Cons.prems(1) obtain u where u: "f x s = Inr u" "foldE f xs u = Inr t"
    by (auto simp: err_simps)
  have "P u" using Cons.prems(2,3) u(1) by auto
  with u(2) show ?case using Cons.IH Cons.prems(3) by auto
qed simp

text \<open>A quantity that no iteration changes is unchanged by the loop.\<close>

lemma foldE_frame:
  assumes "foldE f xs s = Inr t"
    and "\<And>x s t. x \<in> set xs \<Longrightarrow> f x s = Inr t \<Longrightarrow> g t = g s"
  shows "g t = g s"
  by (rule foldE_invariant [OF assms(1), where P = "\<lambda>u. g u = g s"]) (auto dest: assms(2))

lemma mapE_length: "mapE f xs = Inr ys \<Longrightarrow> length ys = length xs"
  by (induction xs arbitrary: ys) (auto simp: err_simps)

lemma mapE_set: "mapE f xs = Inr ys \<Longrightarrow> y \<in> set ys \<Longrightarrow> \<exists>x \<in> set xs. f x = Inr y"
  by (induction xs arbitrary: ys) (auto simp: err_simps)

lemma mapE_nth: "mapE f xs = Inr ys \<Longrightarrow> i < length xs \<Longrightarrow> f (xs ! i) = Inr (ys ! i)"
  by (induction xs arbitrary: ys i) (auto simp: err_simps nth_Cons split: nat.splits)

lemma mapE_mem: "mapE f xs = Inr ys \<Longrightarrow> x \<in> set xs \<Longrightarrow> \<exists>y \<in> set ys. f x = Inr y"
  by (induction xs arbitrary: ys) (auto simp: err_simps)

lemma foldE_unit_mem:
  "foldE f xs () = Inr () \<Longrightarrow> x \<in> set xs \<Longrightarrow> f x () = Inr ()"
  by (induction xs) (auto simp: err_simps)

section \<open>Ordered key-value maps\<close>

text \<open>
  A key family of the store is a finite map from the tuple of its key's elements to its value.
  FoundationDB keeps keys in tuple order, which is the lexicographic order of the elements; a
  range read lists the entries under a prefix in that order.
\<close>

type_synonym ('k, 'v) kv = "('k, 'v) fmap"

definition kv_range :: "('k::linorder \<Rightarrow> bool) \<Rightarrow> ('k, 'v) kv \<Rightarrow> ('k \<times> 'v) list" where
  "kv_range P m = filter (\<lambda>(k, _). P k) (sorted_list_of_fmap m)"

definition kv_clear_range :: "('k \<Rightarrow> bool) \<Rightarrow> ('k, 'v) kv \<Rightarrow> ('k, 'v) kv" where
  "kv_clear_range P m = fmfilter (\<lambda>k. \<not> P k) m"

text \<open>\<open>tr.Add\<close> on an 8-byte little-endian operand: an absent key counts as zero, sums wrap.\<close>

definition kv_add :: "'k \<Rightarrow> 64 word \<Rightarrow> ('k, 64 word) kv \<Rightarrow> ('k, 64 word) kv" where
  "kv_add k w m = fmupd k (case fmlookup m k of None \<Rightarrow> w | Some v \<Rightarrow> v + w) m"

lemma set_sorted_list_of_fmap [simp]:
  "set (sorted_list_of_fmap m) = {(k, v). fmlookup m k = Some v}"
  by (force simp: sorted_list_of_fmap_def fmlookup_dom_iff)

lemma distinct_sorted_list_of_fset [simp]: "distinct (sorted_list_of_fset A)"
  by (simp add: sorted_list_of_fset.rep_eq)

lemma sorted_sorted_list_of_fset [simp]: "sorted (sorted_list_of_fset A)"
  by (simp add: sorted_list_of_fset.rep_eq)

lemma set_kv_range [kv_simps]:
  "(k, v) \<in> set (kv_range P m) \<longleftrightarrow> fmlookup m k = Some v \<and> P k"
  by (auto simp: kv_range_def)

lemma kv_range_keys: "map fst (kv_range P m) = filter P (sorted_list_of_fset (fmdom m))"
  by (simp add: kv_range_def sorted_list_of_fmap_def filter_map comp_def)

lemma distinct_kv_range_keys [simp]: "distinct (map fst (kv_range P m))"
  by (simp add: kv_range_keys)

lemma sorted_kv_range_keys [simp]: "sorted (map fst (kv_range P m))"
  by (simp add: kv_range_keys sorted_wrt_filter)

lemma kv_range_empty_iff: "kv_range P m = [] \<longleftrightarrow> (\<forall>k v. fmlookup m k = Some v \<longrightarrow> \<not> P k)"
proof -
  have "kv_range P m = [] \<longleftrightarrow> set (kv_range P m) = {}" by simp
  also have "\<dots> \<longleftrightarrow> (\<forall>k v. (k, v) \<notin> set (kv_range P m))" by (metis emptyE equals0I prod.collapse)
  also have "\<dots> \<longleftrightarrow> (\<forall>k v. fmlookup m k = Some v \<longrightarrow> \<not> P k)" by (simp add: kv_simps)
  finally show ?thesis .
qed

lemma kv_range_fmempty [simp]: "kv_range P fmempty = []"
  by (simp add: kv_range_empty_iff)

lemma kv_clear_range_lookup [kv_simps, simp]:
  "fmlookup (kv_clear_range P m) k = (if P k then None else fmlookup m k)"
  by (simp add: kv_clear_range_def)

lemma kv_add_lookup [kv_simps]:
  "fmlookup (kv_add k w m) j =
     (if j = k then Some (case fmlookup m k of None \<Rightarrow> w | Some v \<Rightarrow> v + w) else fmlookup m j)"
  by (simp add: kv_add_def)

text \<open>Clearing every key of a list, one by one.\<close>

lemma fold_fmdrop_lookup:
  "fmlookup (fold fmdrop ks m) k = (if k \<in> set ks then None else fmlookup m k)"
  by (induction ks arbitrary: m) auto

section \<open>Stored texts\<close>

text \<open>
  A stored value or a JSON message is a byte text. An \<open>encoded\<close> value keeps that text together
  with what \<open>json.Unmarshal\<close> makes of it as a value of the wanted type: \<open>None\<close> for a text that it
  rejects. Digests and equality of messages read the text; decoding reads the value. The empty
  text stands for an absent value, as the code's \<open>len(encoded) == 0\<close> tests do.
\<close>

datatype 'a encoded = Enc (enc_text: bytes) (enc_value: "'a option")

definition kv_get :: "('k, 'a encoded) kv \<Rightarrow> 'k \<Rightarrow> 'a encoded option" where
  "kv_get m k = (case fmlookup m k of
     None \<Rightarrow> None
   | Some e \<Rightarrow> if enc_text e = [] then None else Some e)"

lemma kv_get_Some: "kv_get m k = Some e \<longleftrightarrow> fmlookup m k = Some e \<and> enc_text e \<noteq> []"
  by (auto simp: kv_get_def split: option.splits)

lemma kv_get_fmupd [simp]:
  "kv_get (fmupd k e m) j = (if j = k then (if enc_text e = [] then None else Some e) else kv_get m j)"
  by (simp add: kv_get_def)

lemma kv_get_fmdrop [simp]: "kv_get (fmdrop k m) j = (if j = k then None else kv_get m j)"
  by (simp add: kv_get_def)

lemma kv_get_fmempty [simp]: "kv_get fmempty k = None"
  by (simp add: kv_get_def)

section \<open>JSON values\<close>

text \<open>
  The value \<open>encoding/json\<close> decodes a message to. A number keeps its literal, as
  \<open>json.Number\<close> does; an object keeps its members in order.
\<close>

datatype json =
    JNull
  | JBool bool
  | JNum string
  | JStr string
  | JArr "json list"
  | JObj "(string \<times> json) list"

type_synonym raw = "json encoded"

abbreviation raw_nil :: raw where
  "raw_nil \<equiv> Enc [] None"

abbreviation raw_empty :: "raw \<Rightarrow> bool" where
  "raw_empty r \<equiv> enc_text r = []"

text \<open>
  \<open>json.Unmarshal\<close> into a \<open>string\<close>, a \<open>bool\<close> and a \<open>[]string\<close>. A JSON \<open>null\<close> leaves the zero
  value and is no error.
\<close>

fun json_string :: "json \<Rightarrow> string option" where
  "json_string (JStr s) = Some s"
| "json_string JNull = Some []"
| "json_string _ = None"

fun json_bool :: "json \<Rightarrow> bool option" where
  "json_bool (JBool b) = Some b"
| "json_bool JNull = Some False"
| "json_bool _ = None"

fun json_strings :: "json \<Rightarrow> string list option" where
  "json_strings (JArr js) =
     (if list_all (\<lambda>j. json_string j \<noteq> None) js then Some (map (the \<circ> json_string) js) else None)"
| "json_strings JNull = Some []"
| "json_strings _ = None"

definition unmarshal :: "(json \<Rightarrow> 'a option) \<Rightarrow> raw \<Rightarrow> 'a option" where
  "unmarshal f r = Option.bind (enc_value r) f"

type_synonym props = "(string, raw) fmap"

text \<open>Reading a map entry that does not exist yields the nil message.\<close>

definition prop_of :: "props \<Rightarrow> string \<Rightarrow> raw" where
  "prop_of m name = (case fmlookup m name of None \<Rightarrow> raw_nil | Some r \<Rightarrow> r)"

lemma prop_of_fmupd [simp]: "prop_of (fmupd a r m) b = (if a = b then r else prop_of m b)"
  by (simp add: prop_of_def)

lemma prop_of_fmdrop [simp]: "prop_of (fmdrop a m) b = (if a = b then raw_nil else prop_of m b)"
  by (simp add: prop_of_def)

lemma prop_of_fmempty [simp]: "prop_of fmempty a = raw_nil"
  by (simp add: prop_of_def)

section \<open>Mirrored indexes\<close>

text \<open>
  Several families come in pairs: a family of records, and an index with one entry per record, which
  the code writes and clears together. The interface names the reads of both and the two operations;
  \<open>fits\<close> says which record belongs under which key. An operation may store a record that differs from
  the one it was given, as long as its entry is the one the index receives.
\<close>

definition index_consistent ::
  "('s \<Rightarrow> 'k \<Rightarrow> 'v option) \<Rightarrow> ('s \<Rightarrow> 'a set) \<Rightarrow> ('k \<Rightarrow> 'v \<Rightarrow> 'a) \<Rightarrow> ('k \<Rightarrow> 'v \<Rightarrow> bool) \<Rightarrow> 's \<Rightarrow> bool" where
  "index_consistent lookup index entry fits s \<longleftrightarrow>
     (\<forall>k v. lookup s k = Some v \<longrightarrow> fits k v) \<and>
     index s = {a. \<exists>k v. lookup s k = Some v \<and> a = entry k v}"

locale mirrored_index =
  fixes lookup :: "'s \<Rightarrow> 'k \<Rightarrow> 'v option"
    and index :: "'s \<Rightarrow> 'a set"
    and entry :: "'k \<Rightarrow> 'v \<Rightarrow> 'a"
    and fits :: "'k \<Rightarrow> 'v \<Rightarrow> bool"
    and put :: "'k \<Rightarrow> 'v \<Rightarrow> 's \<Rightarrow> 's"
    and del :: "'k \<Rightarrow> 's \<Rightarrow> 's"
  assumes entry_key: "entry k v = entry k' v' \<Longrightarrow> k = k'"
    and put_law: "fits k v \<Longrightarrow> index_consistent lookup index entry fits s \<Longrightarrow>
      \<exists>v'. fits k v' \<and> lookup (put k v s) = (lookup s)(k \<mapsto> v') \<and>
        index (put k v s) = insert (entry k v') (index s - entry k ` set_option (lookup s k))"
    and del_law: "index_consistent lookup index entry fits s \<Longrightarrow>
      lookup (del k s) = (lookup s)(k := None) \<and>
      index (del k s) = index s - entry k ` set_option (lookup s k)"
begin

abbreviation consistent :: "'s \<Rightarrow> bool" where
  "consistent \<equiv> index_consistent lookup index entry fits"

lemma consistent_fits: "consistent s \<Longrightarrow> lookup s k = Some v \<Longrightarrow> fits k v"
  by (simp add: index_consistent_def)

lemma consistent_index: "consistent s \<Longrightarrow> a \<in> index s \<longleftrightarrow> (\<exists>k v. lookup s k = Some v \<and> a = entry k v)"
  by (simp add: index_consistent_def)

lemma consistent_put:
  assumes "consistent s" "fits k v" shows "consistent (put k v s)"
proof -
  obtain v' where v': "fits k v'" "lookup (put k v s) = (lookup s)(k \<mapsto> v')"
    "index (put k v s) = insert (entry k v') (index s - entry k ` set_option (lookup s k))"
    using put_law [OF assms(2,1)] by blast
  have "a \<in> index (put k v s) \<longleftrightarrow> (\<exists>j w. lookup (put k v s) j = Some w \<and> a = entry j w)" for a
  proof
    assume "a \<in> index (put k v s)"
    then consider "a = entry k v'" | j w where "lookup s j = Some w" "a = entry j w" "a \<notin> entry k ` set_option (lookup s k)"
      unfolding v'(3) using consistent_index [OF assms(1)] by blast
    then show "\<exists>j w. lookup (put k v s) j = Some w \<and> a = entry j w"
    proof cases
      case 1 then show ?thesis using v'(2) by (intro exI [of _ k] exI [of _ v']) simp
    next
      case 2
      then have "j \<noteq> k" by auto
      then show ?thesis using 2 v'(2) by (intro exI [of _ j] exI [of _ w]) simp
    qed
  next
    assume "\<exists>j w. lookup (put k v s) j = Some w \<and> a = entry j w"
    then obtain j w where j: "lookup (put k v s) j = Some w" "a = entry j w" by blast
    show "a \<in> index (put k v s)"
    proof (cases "j = k")
      case True then show ?thesis using j v' by simp
    next
      case False
      then have "a \<notin> entry k ` set_option (lookup s k)" using j(2) entry_key by blast
      moreover have "a \<in> index s" using j v'(2) False consistent_index [OF assms(1)] by auto
      ultimately show ?thesis unfolding v'(3) by blast
    qed
  qed
  moreover have "\<And>j w. lookup (put k v s) j = Some w \<Longrightarrow> fits j w"
    using v' consistent_fits [OF assms(1)] by (metis fun_upd_apply option.inject)
  ultimately show ?thesis unfolding index_consistent_def by blast
qed

lemma consistent_del:
  assumes "consistent s" shows "consistent (del k s)"
proof -
  have d: "lookup (del k s) = (lookup s)(k := None)"
    "index (del k s) = index s - entry k ` set_option (lookup s k)"
    using del_law [OF assms] by blast+
  have "a \<in> index (del k s) \<longleftrightarrow> (\<exists>j w. lookup (del k s) j = Some w \<and> a = entry j w)" for a
  proof
    assume "a \<in> index (del k s)"
    then obtain j w where j: "lookup s j = Some w" "a = entry j w" "a \<notin> entry k ` set_option (lookup s k)"
      unfolding d(2) using consistent_index [OF assms] by blast
    then have "j \<noteq> k" by auto
    then show "\<exists>j w. lookup (del k s) j = Some w \<and> a = entry j w"
      using j d(1) by (intro exI [of _ j] exI [of _ w]) simp
  next
    assume "\<exists>j w. lookup (del k s) j = Some w \<and> a = entry j w"
    then obtain j w where "j \<noteq> k" "lookup s j = Some w" "a = entry j w"
      using d(1) by (metis fun_upd_apply option.distinct(1))
    moreover then have "a \<notin> entry k ` set_option (lookup s k)" using entry_key by blast
    ultimately show "a \<in> index (del k s)" unfolding d(2) using consistent_index [OF assms] by blast
  qed
  moreover have "\<And>j w. lookup (del k s) j = Some w \<Longrightarrow> fits j w"
    using d(1) consistent_fits [OF assms] by (metis fun_upd_apply option.distinct(1))
  ultimately show ?thesis unfolding index_consistent_def by blast
qed

lemma consistent_frame:
  "lookup s' = lookup s \<Longrightarrow> index s' = index s \<Longrightarrow> consistent s' = consistent s"
  by (simp add: index_consistent_def)

text \<open>Two entries of the index that belong to one key are the same entry.\<close>

lemma consistent_one_entry:
  assumes "consistent s" "entry k v \<in> index s" "entry k w \<in> index s" shows "entry k v = entry k w"
proof -
  obtain j x where j: "lookup s j = Some x" "entry k v = entry j x"
    using assms(1,2) consistent_index by blast
  obtain i y where i: "lookup s i = Some y" "entry k w = entry i y"
    using assms(1,3) consistent_index by blast
  have "j = k" "i = k" using entry_key j(2) i(2) by metis+
  then show ?thesis using i j by simp
qed

end

end
