(* ===== verification/Reference_Template.thy ===== *)
theory Reference_Template
  imports Tack_Prelude
begin

text \<open>
  Reference templates (\<open>internal/domain/node/reference_template.go\<close> and
  \<open>reference_template_parse.go\<close>): the declaration of a human-readable reference, how it renders
  for one node, the counter key of its generated property, and how a typed reference is split
  back into its parts. Texts are byte strings, as in Go. The messages of the errors are reduced to
  one constructor per message.
\<close>

section \<open>Templates\<close>

datatype reference_part_kind =
    PartScopeRef
  | PartProperty
  | PartNodeType
  | PartLiteral
  | PartUnknown string

record reference_part =
  part_kind :: reference_part_kind
  part_value :: string

record reference_template =
  template_name :: string
  template_parts :: "reference_part list"
  is_primary :: bool
  generated :: string

record reference_render_input =
  in_node_type_key :: string
  in_props :: props
  in_scope_refs :: "(string, string) fmap"

datatype reference_error =
    NodeTypeKeyEmpty
  | NoScopeReference string
  | PropertyNoValue
  | PropertyEmptyString
  | PropertyNotText
  | UnknownPartKind string
  | SeparatorNotFound string
  | NoTextBeforeSeparator string
  | NoTextLeft

section \<open>Rendering\<close>

text \<open>
  \<open>referencePropertyString\<close> first decodes the value as a string and then as a number. A \<open>null\<close>
  value decodes as the empty string in the first step.
\<close>

definition referencePropertyString :: "raw \<Rightarrow> reference_error + string" where
  "referencePropertyString raw =
     (if raw_empty raw then Inl PropertyNoValue
      else case unmarshal json_string raw of
        Some text \<Rightarrow> if text = [] then Inl PropertyEmptyString else Inr text
      | None \<Rightarrow>
         (case enc_value raw of
            Some (JNum number) \<Rightarrow> Inr number
          | _ \<Rightarrow> Inl PropertyNotText))"

definition scope_ref :: "reference_render_input \<Rightarrow> string \<Rightarrow> string" where
  "scope_ref inp feature =
     (case fmlookup (in_scope_refs inp) feature of None \<Rightarrow> [] | Some r \<Rightarrow> r)"

definition renderReferencePart ::
    "reference_part \<Rightarrow> reference_render_input \<Rightarrow> reference_error + string" where
  "renderReferencePart part inp =
     (case part_kind part of
        PartLiteral \<Rightarrow> Inr (part_value part)
      | PartNodeType \<Rightarrow>
          if in_node_type_key inp = [] then Inl NodeTypeKeyEmpty else Inr (in_node_type_key inp)
      | PartScopeRef \<Rightarrow>
          if scope_ref inp (part_value part) = [] then Inl (NoScopeReference (part_value part))
          else Inr (scope_ref inp (part_value part))
      | PartProperty \<Rightarrow> referencePropertyString (prop_of (in_props inp) (part_value part))
      | PartUnknown k \<Rightarrow> Inl (UnknownPartKind k))"

fun render_parts ::
    "reference_part list \<Rightarrow> reference_render_input \<Rightarrow> reference_error + string" where
  "render_parts [] inp = Inr []"
| "render_parts (part # parts) inp =
     bindE (renderReferencePart part inp) (\<lambda>segment.
     bindE (render_parts parts inp) (\<lambda>rest. Inr (segment @ rest)))"

definition render :: "reference_template \<Rightarrow> reference_render_input \<Rightarrow> reference_error + string" where
  "render t inp = render_parts (template_parts t) inp"

definition is_generated_part :: "reference_template \<Rightarrow> reference_part \<Rightarrow> bool" where
  "is_generated_part t part \<longleftrightarrow> part_kind part = PartProperty \<and> part_value part = generated t"

definition counter_key ::
    "reference_template \<Rightarrow> reference_render_input \<Rightarrow> reference_error + string" where
  "counter_key t inp =
     render_parts (filter (\<lambda>part. \<not> is_generated_part t part) (template_parts t)) inp"

section \<open>Parsing\<close>

record reference_parse_result =
  res_scope_refs :: "(string, string) fmap"
  res_props :: "(string, string) fmap"
  res_node_type_key :: string

definition has_prefix :: "string \<Rightarrow> string \<Rightarrow> bool" where
  "has_prefix text needle \<longleftrightarrow> take (length needle) text = needle"

text \<open>\<open>strings.LastIndex\<close>: the largest index at which the needle occurs.\<close>

definition last_index :: "string \<Rightarrow> string \<Rightarrow> nat option" where
  "last_index text needle =
     find (\<lambda>i. has_prefix (drop i text) needle) (rev [0..<Suc (length text)])"

fun nth_index_loop :: "string \<Rightarrow> string \<Rightarrow> nat \<Rightarrow> nat \<Rightarrow> nat option \<Rightarrow> nat option" where
  "nth_index_loop text needle 0 stop position = position"
| "nth_index_loop text needle (Suc n) stop position =
     (case last_index (take stop text) needle of
        None \<Rightarrow> None
      | Some p \<Rightarrow> nth_index_loop text needle n p (Some p))"

definition nthIndexFromEnd :: "string \<Rightarrow> string \<Rightarrow> nat \<Rightarrow> nat option" where
  "nthIndexFromEnd text needle n = nth_index_loop text needle n (length text) None"

definition is_literal :: "reference_part \<Rightarrow> bool" where
  "is_literal part \<longleftrightarrow> part_kind part = PartLiteral"

definition nextReferenceLiteral :: "reference_part list \<Rightarrow> nat \<Rightarrow> string" where
  "nextReferenceLiteral parts index =
     (case find is_literal (drop (Suc index) parts) of
        Some part \<Rightarrow> part_value part
      | None \<Rightarrow> [])"

definition laterLiteralCount :: "reference_part list \<Rightarrow> nat \<Rightarrow> string \<Rightarrow> nat" where
  "laterLiteralCount parts index delimiter =
     length (filter (\<lambda>part. part_value part = delimiter)
       (drop 1 (filter is_literal (drop (Suc index) parts))))"

definition consumeReferenceSegment ::
    "reference_part list \<Rightarrow> nat \<Rightarrow> string \<Rightarrow> reference_error + string \<times> string" where
  "consumeReferenceSegment parts index remaining =
     (let delimiter = nextReferenceLiteral parts index in
      if delimiter = [] then
        (if remaining = [] then Inl NoTextLeft else Inr (remaining, []))
      else
        let reserved = laterLiteralCount parts index delimiter in
        case nthIndexFromEnd remaining delimiter (reserved + 1) of
          None \<Rightarrow> Inl (SeparatorNotFound delimiter)
        | Some pos \<Rightarrow>
            if pos = 0 then Inl (NoTextBeforeSeparator delimiter)
            else Inr (take pos remaining, drop (pos + length delimiter) remaining))"

definition store_segment ::
    "reference_part \<Rightarrow> string \<Rightarrow> reference_parse_result \<Rightarrow> reference_parse_result" where
  "store_segment part segment result =
     (case part_kind part of
        PartScopeRef \<Rightarrow>
          result\<lparr>res_scope_refs := fmupd (part_value part) segment (res_scope_refs result)\<rparr>
      | PartProperty \<Rightarrow>
          result\<lparr>res_props := fmupd (part_value part) segment (res_props result)\<rparr>
      | PartNodeType \<Rightarrow> result\<lparr>res_node_type_key := segment\<rparr>
      | PartLiteral \<Rightarrow> result
      | PartUnknown _ \<Rightarrow> result)"

definition parse_step ::
    "reference_part list \<Rightarrow> nat \<times> reference_part \<Rightarrow> string \<times> reference_parse_result \<Rightarrow>
       reference_error + string \<times> reference_parse_result" where
  "parse_step parts ip st =
     (let (index, part) = ip; (remaining, result) = st in
      if is_literal part then
        (if index = 0 \<or> is_literal (parts ! (index - 1)) then
           (if has_prefix remaining (part_value part)
            then Inr (drop (length (part_value part)) remaining, result)
            else Inl (SeparatorNotFound (part_value part)))
         else Inr (remaining, result))
      else
        bindE (consumeReferenceSegment parts index remaining) (\<lambda>(segment, rest).
        Inr (rest, store_segment part segment result)))"

definition empty_parse_result :: reference_parse_result where
  "empty_parse_result =
     \<lparr>res_scope_refs = fmempty, res_props = fmempty, res_node_type_key = []\<rparr>"

definition parse_reference ::
    "reference_template \<Rightarrow> string \<Rightarrow> reference_error + reference_parse_result" where
  "parse_reference t input =
     (let parts = template_parts t in
      bindE (foldE (parse_step parts) (zip [0..<length parts] parts) (input, empty_parse_result))
        (\<lambda>(_, result). Inr result))"

section \<open>Facts about rendering\<close>

text \<open>Rendering fails exactly when some part has no value; a text is never partial.\<close>

lemma render_parts_Inr_iff:
  "render_parts parts inp = Inr s \<longleftrightarrow>
     (\<exists>segs. mapE (\<lambda>part. renderReferencePart part inp) parts = Inr segs \<and> s = concat segs)"
proof (induction parts arbitrary: s)
  case (Cons part parts)
  then show ?case by (auto simp: err_simps)
qed auto

lemma mapE_total: "(\<forall>x \<in> set xs. \<exists>y. f x = Inr y) \<Longrightarrow> \<exists>ys. mapE f xs = Inr ys"
  by (induction xs) (auto simp: err_simps)

lemma render_parts_total:
  "(\<exists>s. render_parts parts inp = Inr s) \<longleftrightarrow>
     (\<forall>part \<in> set parts. \<exists>seg. renderReferencePart part inp = Inr seg)"
  by (induction parts) (auto simp: err_simps)

lemma render_parts_cong:
  "(\<And>part. part \<in> set parts \<Longrightarrow> renderReferencePart part inp = renderReferencePart part inp') \<Longrightarrow>
     render_parts parts inp = render_parts parts inp'"
  by (induction parts) auto

lemma renderReferencePart_other_prop:
  "\<not> (part_kind part = PartProperty \<and> part_value part = name) \<Longrightarrow>
     renderReferencePart part (inp\<lparr>in_props := fmupd name value (in_props inp)\<rparr>) =
     renderReferencePart part inp"
  by (auto simp: renderReferencePart_def scope_ref_def split: reference_part_kind.splits)

section \<open>Facts about parsing\<close>

lemma find_rev_upt:
  "i < n \<Longrightarrow> P i \<Longrightarrow> (\<And>j. i < j \<Longrightarrow> j < n \<Longrightarrow> \<not> P j) \<Longrightarrow> find P (rev [0..<n]) = Some i"
proof (induction n)
  case (Suc n)
  then show ?case by (cases "i = n") (auto simp: less_Suc_eq)
qed simp

lemma has_prefix_single: "has_prefix text [c] \<longleftrightarrow> (\<exists>rest. text = c # rest)"
  by (cases "text") (auto simp: has_prefix_def)

lemma last_index_single:
  assumes "c \<notin> set w"
  shows "last_index (v @ c # w) [c] = Some (length v)"
  unfolding last_index_def
proof (rule find_rev_upt)
  fix j assume j: "length v < j" "j < Suc (length (v @ c # w))"
  then have "drop j (v @ c # w) = drop (j - Suc (length v)) w"
    by (simp add: drop_Cons')
  moreover have "c \<notin> set (drop (j - Suc (length v)) w)"
    using assms in_set_dropD by fast
  ultimately show "\<not> has_prefix (drop j (v @ c # w)) [c]"
    by (metis has_prefix_single list.set_intros(1))
qed (auto simp: has_prefix_single)

text \<open>The text of the parts behind a variable part, and those parts themselves.\<close>

definition sep_text :: "char \<Rightarrow> string list \<Rightarrow> string" where
  "sep_text c segs = concat (map (\<lambda>w. c # w) segs)"

definition sep_parts :: "char \<Rightarrow> reference_part list \<Rightarrow> reference_part list" where
  "sep_parts c vs = concat (map (\<lambda>v. [\<lparr>part_kind = PartLiteral, part_value = [c]\<rparr>, v]) vs)"

lemma sep_simps [simp]:
  "sep_text c [] = []" "sep_text c (w # ws) = c # w @ sep_text c ws"
  "sep_text c (ws @ ws') = sep_text c ws @ sep_text c ws'"
  "sep_parts c [] = []"
  "sep_parts c (v # vs) = \<lparr>part_kind = PartLiteral, part_value = [c]\<rparr> # v # sep_parts c vs"
  by (simp_all add: sep_text_def sep_parts_def)

lemma filter_literal_sep_parts:
  "\<forall>v \<in> set vs. \<not> is_literal v \<Longrightarrow>
     filter is_literal (sep_parts c vs) =
     replicate (length vs) \<lparr>part_kind = PartLiteral, part_value = [c]\<rparr>"
  by (induction vs) (auto simp: is_literal_def)

lemma nth_index_loop_sep:
  assumes "\<forall>w \<in> set ws. c \<notin> set w" "take stop text = v @ sep_text c ws" "ws \<noteq> []"
  shows "nth_index_loop text [c] (length ws) stop position = Some (length v)"
  using assms
proof (induction ws arbitrary: stop position rule: rev_induct)
  case (snoc w ws)
  let ?p = "length (v @ sep_text c ws)"
  have eq: "take stop text = (v @ sep_text c ws) @ c # w" using snoc.prems(2) by simp
  have "last_index (take stop text) [c] = Some ?p"
    unfolding eq by (rule last_index_single) (use snoc.prems(1) in simp)
  then have step: "nth_index_loop text [c] (length (ws @ [w])) stop position =
      nth_index_loop text [c] (length ws) ?p (Some ?p)" by simp
  have "take ?p text = take ?p (take stop text)"
    using eq by (metis length_append length_take le_add1 min.absorb1 min.cobounded2 order_trans take_take)
  then have "take ?p text = v @ sep_text c ws" unfolding eq by simp
  then show ?case
    using snoc.IH [of ?p "Some ?p"] snoc.prems(1) unfolding step by (cases "ws = []") auto
qed simp

lemma consume_last: "drop (Suc index) parts = [] \<Longrightarrow> seg \<noteq> [] \<Longrightarrow>
    consumeReferenceSegment parts index seg = Inr (seg, [])"
  by (simp add: consumeReferenceSegment_def nextReferenceLiteral_def)

lemma consume_sep:
  assumes "drop (Suc index) parts = sep_parts c (v # vs)" "\<forall>u \<in> set (v # vs). \<not> is_literal u"
    and "length ws = length vs" "\<forall>u \<in> set (w # ws). c \<notin> set u" "seg \<noteq> []"
  shows "consumeReferenceSegment parts index (seg @ sep_text c (w # ws)) =
    Inr (seg, w @ sep_text c ws)"
proof -
  have delim: "nextReferenceLiteral parts index = [c]"
    using assms(1) by (simp add: nextReferenceLiteral_def is_literal_def)
  have "laterLiteralCount parts index [c] = length vs"
    using assms(1,2) by (simp add: laterLiteralCount_def filter_literal_sep_parts is_literal_def)
  moreover have "nthIndexFromEnd (seg @ sep_text c (w # ws)) [c] (length (w # ws)) = Some (length seg)"
    unfolding nthIndexFromEnd_def by (rule nth_index_loop_sep) (use assms(4) in auto)
  ultimately show ?thesis
    using assms(3,5) by (simp add: consumeReferenceSegment_def delim)
qed

text \<open>
  From a variable part on, the loop of \<open>Parse\<close> stores each segment under its part.
\<close>

lemma parse_variable:
  assumes "\<not> is_literal v" "consumeReferenceSegment parts k remaining = Inr (seg, rest)"
  shows "parse_step parts (k, v) (remaining, res) = Inr (rest, store_segment v seg res)"
  using assms by (simp add: parse_step_def)

lemma parse_separator:
  assumes "\<not> is_literal (parts ! k)" "is_literal l"
  shows "parse_step parts (Suc k, l) (remaining, res) = Inr (remaining, res)"
  using assms by (simp add: parse_step_def)

lemma drop_eq_ConsD:
  assumes "drop k xs = y # ys"
  shows "k < length xs" "xs ! k = y" "drop (Suc k) xs = ys"
proof -
  show k: "k < length xs" using assms by (cases "k < length xs") auto
  from Cons_nth_drop_Suc [OF this] assms show "xs ! k = y" "drop (Suc k) xs = ys" by auto
qed

lemma foldE_parse_sep:
  assumes "drop k parts = v # sep_parts c vs" "\<forall>u \<in> set (v # vs). \<not> is_literal u"
    and "length ws = length vs" "\<forall>w \<in> set ws. c \<notin> set w \<and> w \<noteq> []" "seg \<noteq> []"
  shows "foldE (parse_step parts) (zip [k..<length parts] (drop k parts)) (seg @ sep_text c ws, res) =
    Inr ([], fold (\<lambda>(p, w). store_segment p w) (zip (v # vs) (seg # ws)) res)"
  using assms
proof (induction vs arbitrary: k v ws seg res)
  case Nil
  then have d: "drop k parts = [v]" by simp
  have k: "k < length parts" "drop (Suc k) parts = []" using drop_eq_ConsD [OF d] by auto
  then have "[k..<length parts] = [k]" by (simp add: upt_conv_Cons)
  with Nil d k show ?case by (simp add: parse_variable consume_last)
next
  case (Cons u vs)
  let ?lit = "\<lparr>part_kind = PartLiteral, part_value = [c]\<rparr>"
  obtain w ws' where ws: "ws = w # ws'" using Cons.prems(3) by (cases ws) auto
  note v = drop_eq_ConsD [OF Cons.prems(1)]
  have d1: "drop (Suc k) parts = sep_parts c (u # vs)" by (rule v(3))
  note l = drop_eq_ConsD [OF d1 [unfolded sep_simps]]
  note d2 = l(3)
  have up: "[k..<length parts] = k # Suc k # [Suc (Suc k)..<length parts]"
    using v(1) l(1) by (simp add: upt_conv_Cons)
  have "consumeReferenceSegment parts k (seg @ sep_text c ws) = Inr (seg, w @ sep_text c ws')"
    unfolding ws by (rule consume_sep [OF d1]) (use Cons.prems ws in auto)
  then have one: "parse_step parts (k, v) (seg @ sep_text c ws, res) =
      Inr (w @ sep_text c ws', store_segment v seg res)"
    by (rule parse_variable [rotated]) (use Cons.prems(2) in simp)
  have two: "parse_step parts (Suc k, ?lit) (w @ sep_text c ws', r) = Inr (w @ sep_text c ws', r)" for r
    by (rule parse_separator) (use v(2) Cons.prems(2) in \<open>auto simp: is_literal_def\<close>)
  have "foldE (parse_step parts) (zip [Suc (Suc k)..<length parts] (drop (Suc (Suc k)) parts))
      (w @ sep_text c ws', store_segment v seg res) =
    Inr ([], fold (\<lambda>(p, w). store_segment p w) (zip (u # vs) (w # ws')) (store_segment v seg res))"
    by (rule Cons.IH [OF d2]) (use Cons.prems ws in auto)
  then show ?case
    unfolding Cons.prems(1) up using ws by (simp add: one [unfolded ws sep_simps] two d2)
qed

text \<open>The value a parse result holds for a variable part.\<close>

definition segment_of :: "reference_part \<Rightarrow> reference_parse_result \<Rightarrow> string option" where
  "segment_of part result =
     (case part_kind part of
        PartScopeRef \<Rightarrow> fmlookup (res_scope_refs result) (part_value part)
      | PartProperty \<Rightarrow> fmlookup (res_props result) (part_value part)
      | PartNodeType \<Rightarrow> Some (res_node_type_key result)
      | _ \<Rightarrow> None)"

definition is_variable :: "reference_part \<Rightarrow> bool" where
  "is_variable part \<longleftrightarrow> part_kind part \<in> {PartScopeRef, PartProperty, PartNodeType}"

lemma segment_of_store_same: "is_variable p \<Longrightarrow> segment_of p (store_segment p w res) = Some w"
  by (auto simp: segment_of_def store_segment_def is_variable_def)

lemma segment_of_store_other:
  assumes "segment_of p res = Some u" "renderReferencePart p inp = Inr u"
    and "renderReferencePart q inp = Inr w"
  shows "segment_of p (store_segment q w res) = Some u"
  using assms
  by (auto simp: segment_of_def store_segment_def renderReferencePart_def
      split: reference_part_kind.splits if_splits)

lemma segment_of_fold_store:
  assumes "mapE (\<lambda>p. renderReferencePart p inp) ps = Inr ws" "\<forall>p \<in> set ps. is_variable p"
    and "\<forall>p \<in> S. \<exists>u. renderReferencePart p inp = Inr u \<and> segment_of p res = Some u"
  shows "\<forall>p \<in> S \<union> set ps. \<exists>u. renderReferencePart p inp = Inr u \<and>
    segment_of p (fold (\<lambda>(p, w). store_segment p w) (zip ps ws) res) = Some u"
  using assms
proof (induction ps arbitrary: ws res S)
  case (Cons p ps)
  from Cons.prems(1) obtain w ws' where w: "renderReferencePart p inp = Inr w"
    "mapE (\<lambda>p. renderReferencePart p inp) ps = Inr ws'" "ws = w # ws'"
    by (auto simp: err_simps)
  have "segment_of q (store_segment p w res) = Some u"
    if "segment_of q res = Some u" "renderReferencePart q inp = Inr u" for q u
    using that w(1) by (rule segment_of_store_other)
  then have "\<forall>q \<in> insert p S. \<exists>u. renderReferencePart q inp = Inr u \<and>
      segment_of q (store_segment p w res) = Some u"
    using Cons.prems(2,3) w(1) by (metis insert_iff list.set_intros(1) segment_of_store_same)
  from Cons.IH [OF w(2) _ this] Cons.prems(2) w(3) show ?case by simp
qed simp

lemma is_variable_not_literal: "is_variable p \<Longrightarrow> \<not> is_literal p"
  by (auto simp: is_variable_def is_literal_def)

lemma render_sep_parts:
  assumes "mapE (\<lambda>p. renderReferencePart p inp) vs = Inr ws"
  shows "render_parts (sep_parts c vs) inp = Inr (sep_text c ws)"
  using assms
  by (induction vs arbitrary: ws) (auto simp: err_simps renderReferencePart_def [of "\<lparr>part_kind = PartLiteral, part_value = _\<rparr>"])

section \<open>Properties\<close>

text \<open>
  C31: a rendered reference parses back. For a template whose variable parts are separated by one
  separator byte, when every variable part has a non-empty value and no value behind the first one
  contains the separator, \<open>Parse\<close> of the rendered text succeeds and stores under every variable
  part exactly the text it rendered to. The first part may itself contain the separator, which is
  how a reference nested in another one (a scope reference) stays whole.
\<close>

theorem parse_render_roundtrip:
  assumes "template_parts t = v # sep_parts c vs" "\<forall>p \<in> set (v # vs). is_variable p"
    and "renderReferencePart v inp = Inr seg" "mapE (\<lambda>p. renderReferencePart p inp) vs = Inr ws"
    and "seg \<noteq> []" "\<forall>w \<in> set ws. c \<notin> set w \<and> w \<noteq> []"
  shows "\<exists>rendered res. render t inp = Inr rendered \<and> rendered = seg @ sep_text c ws \<and>
    parse_reference t rendered = Inr res \<and>
    (\<forall>p \<in> set (v # vs). \<exists>u. renderReferencePart p inp = Inr u \<and> segment_of p res = Some u)"
proof -
  let ?res = "fold (\<lambda>(p, w). store_segment p w) (zip (v # vs) (seg # ws)) empty_parse_result"
  have "foldE (parse_step (template_parts t))
      (zip [0..<length (template_parts t)] (drop 0 (template_parts t)))
      (seg @ sep_text c ws, empty_parse_result) = Inr ([], ?res)"
    by (rule foldE_parse_sep) (use assms mapE_length [OF assms(4)] is_variable_not_literal in auto)
  then have "parse_reference t (seg @ sep_text c ws) = Inr ?res"
    by (simp add: parse_reference_def)
  moreover have "render t inp = Inr (seg @ sep_text c ws)"
    unfolding render_def assms(1) using assms(3) render_sep_parts [OF assms(4)] by simp
  moreover have "\<forall>p \<in> {} \<union> set (v # vs). \<exists>u. renderReferencePart p inp = Inr u \<and>
      segment_of p ?res = Some u"
    by (rule segment_of_fold_store) (use assms in auto)
  ultimately show ?thesis by simp
qed

text \<open>The reference \<open>FAN-QA-13\<close> of a template of scope reference, separator and sequence number.\<close>

theorem parse_render_roundtrip_witness:
  "\<exists>rendered res.
    render \<lparr>template_name = ''task'', template_parts =
        \<lparr>part_kind = PartScopeRef, part_value = ''team''\<rparr> #
        sep_parts CHR ''-'' [\<lparr>part_kind = PartProperty, part_value = ''seq''\<rparr>],
        is_primary = True, generated = ''seq''\<rparr>
      \<lparr>in_node_type_key = ''task'', in_props = fmupd ''seq'' (Enc [0x31, 0x33] (Some (JNum ''13''))) fmempty,
       in_scope_refs = fmupd ''team'' ''FAN-QA'' fmempty\<rparr> = Inr rendered \<and>
    rendered = ''FAN-QA-13'' \<and>
    parse_reference \<lparr>template_name = ''task'', template_parts =
        \<lparr>part_kind = PartScopeRef, part_value = ''team''\<rparr> #
        sep_parts CHR ''-'' [\<lparr>part_kind = PartProperty, part_value = ''seq''\<rparr>],
        is_primary = True, generated = ''seq''\<rparr> rendered = Inr res \<and>
    segment_of \<lparr>part_kind = PartScopeRef, part_value = ''team''\<rparr> res = Some ''FAN-QA''"
  using parse_render_roundtrip [of "\<lparr>template_name = ''task'', template_parts =
        \<lparr>part_kind = PartScopeRef, part_value = ''team''\<rparr> #
        sep_parts CHR ''-'' [\<lparr>part_kind = PartProperty, part_value = ''seq''\<rparr>],
        is_primary = True, generated = ''seq''\<rparr>"
      "\<lparr>part_kind = PartScopeRef, part_value = ''team''\<rparr>" "CHR ''-''"
      "[\<lparr>part_kind = PartProperty, part_value = ''seq''\<rparr>]"
      "\<lparr>in_node_type_key = ''task'', in_props = fmupd ''seq'' (Enc [0x31, 0x33] (Some (JNum ''13''))) fmempty,
       in_scope_refs = fmupd ''team'' ''FAN-QA'' fmempty\<rparr>" "''FAN-QA''" "[''13'']"]
  by (auto simp: is_variable_def renderReferencePart_def scope_ref_def prop_of_def
      referencePropertyString_def unmarshal_def)

text \<open>
  The counter of a generated property is keyed by everything in the reference but that
  property: whatever value the property has, and whether it has one, the key is the same, so all
  nodes that differ only in their generated number draw from one counter; and the key exists
  whenever each of the other parts has a value.
\<close>

theorem counter_key_ignores_generated:
  "counter_key t (inp\<lparr>in_props := fmupd (generated t) value (in_props inp)\<rparr>) = counter_key t inp \<and>
   ((\<exists>key. counter_key t inp = Inr key) \<longleftrightarrow>
    list_all (\<lambda>part. is_generated_part t part \<or>
       (\<exists>seg. renderReferencePart part inp = Inr seg)) (template_parts t))"
proof
  show "counter_key t (inp\<lparr>in_props := fmupd (generated t) value (in_props inp)\<rparr>) = counter_key t inp"
    unfolding counter_key_def
    by (rule render_parts_cong, rule renderReferencePart_other_prop) (simp add: is_generated_part_def)
  show "(\<exists>key. counter_key t inp = Inr key) \<longleftrightarrow>
    list_all (\<lambda>part. is_generated_part t part \<or>
       (\<exists>seg. renderReferencePart part inp = Inr seg)) (template_parts t)"
    unfolding counter_key_def render_parts_total list_all_iff by auto
qed

end
