(* ===== verification/Node_Types.thy ===== *)
theory Node_Types
  imports Reference_Template
begin

text \<open>
  The records of \<open>internal/domain/node\<close>: nodes, node types, property definitions,
  relationships, mutation plans and repair checkpoints, with the pure functions on them
  (feature sets, the hierarchy rule, repair phases, write fence buckets). The theory also fixes the
  library functions that the code calls and the errors that the operations return.
\<close>

unbundle bit_operations_syntax

section \<open>Library functions and errors\<close>

text \<open>
  Functions that the code calls and that are not defined here: \<open>uuid.Parse\<close>, \<open>UUID.String\<close> and
  \<open>uuid.NewSHA1\<close> of the UUID package, \<open>sha256.Sum256\<close>, \<open>time.Parse\<close> (whether a value matches a
  layout), \<open>url.Parse\<close> (scheme and host of an accepted value), the range check of a JSON number
  read as \<open>float64\<close>, and for a byte text the JSON value it encodes and its members as messages
  (\<open>json.Unmarshal\<close> into a \<open>map[string]json.RawMessage\<close>). Every definition that uses them takes this record as an argument.
\<close>

record lib =
  lib_uuid_parse :: "string \<Rightarrow> uuid option"
  lib_uuid_string :: "uuid \<Rightarrow> string"
  lib_uuid_sha1 :: "uuid \<Rightarrow> string \<Rightarrow> uuid"
  lib_sha256 :: "bytes \<Rightarrow> digest"
  lib_time_ok :: "string \<Rightarrow> string \<Rightarrow> bool"
  lib_url_parse :: "string \<Rightarrow> (string \<times> string) option"
  lib_float_ok :: "string \<Rightarrow> bool"
  lib_json_value :: "bytes \<Rightarrow> json option"
  lib_json_members :: "bytes \<Rightarrow> (string, bytes) fmap option"

text \<open>
  The errors that callers test for with \<open>errors.Is\<close>; the messages around them are not kept.
  \<open>ErrReservedParentRelation\<close> wraps \<open>ErrInvalidArgument\<close>. \<open>ErrDecode\<close> is a stored record that does
  not decode, \<open>ErrOverflow\<close> a counter at its limit, and \<open>ErrInternal\<close> any error without a sentinel.
\<close>

datatype tack_error =
    ErrNotFound
  | ErrAlreadyExists
  | ErrConflict
  | ErrPermissionDenied
  | ErrInvalidArgument
  | ErrFailedPrecondition
  | ErrUnauthenticated
  | ErrStorageTimeout
  | ErrSchemaRead
  | ErrNoHierarchyParent
  | ErrReservedParentRelation
  | ErrStrictEvidenceChanged
  | ErrDecode
  | ErrOverflow
  | ErrInternal

type_synonym 'a result = "tack_error + 'a"

section \<open>Text\<close>

text \<open>
  \<open>strings.TrimSpace\<close>: the UTF-8 encodings of the code points that \<open>unicode.IsSpace\<close> accepts are
  removed from both ends.
\<close>

definition utf8_spaces :: "string list" where
  "utf8_spaces =
     map (map char_of) ([[9], [10], [11], [12], [13], [32], [0xC2, 0x85], [0xC2, 0xA0], [0xE1, 0x9A, 0x80]]
       @ map (\<lambda>b. [0xE2, 0x80, b]) [0x80..<0x8B]
       @ [[0xE2, 0x80, 0xA8], [0xE2, 0x80, 0xA9], [0xE2, 0x80, 0xAF], [0xE2, 0x81, 0x9F],
          [0xE3, 0x80, 0x80 :: nat]])"

function trim_left :: "string list \<Rightarrow> string \<Rightarrow> string" where
  "trim_left spaces s =
     (case find (\<lambda>w. w \<noteq> [] \<and> has_prefix s w) spaces of
        None \<Rightarrow> s
      | Some w \<Rightarrow> trim_left spaces (drop (length w) s))"
  by auto
termination
proof (relation "measure (length \<circ> snd)")
  fix spaces s w
  assume "find (\<lambda>w. w \<noteq> [] \<and> has_prefix s w) spaces = Some w"
  then have "w \<noteq> []" "has_prefix s w" by (auto simp: find_Some_iff)
  then show "((spaces, drop (length w) s), (spaces, s)) \<in> measure (length \<circ> snd)"
    by (cases s) (auto simp: has_prefix_def)
qed simp

declare trim_left.simps [simp del]

definition trim_space :: "string \<Rightarrow> string" where
  "trim_space s = rev (trim_left (map rev utf8_spaces) (rev (trim_left utf8_spaces s)))"

section \<open>Node types\<close>

datatype op = OpCreate | OpRead | OpList | OpUpdate | OpDelete | OpOther string

definition AllOps :: "op list" where
  "AllOps = [OpCreate, OpRead, OpList, OpUpdate, OpDelete]"

type_synonym features = "string list"

fun has_feature :: "features \<Rightarrow> string \<Rightarrow> bool" where
  "has_feature [] feat \<longleftrightarrow> False"
| "has_feature (s # f) feat \<longleftrightarrow> s = feat \<or> has_feature f feat"

fun has_any_feature :: "features \<Rightarrow> string list \<Rightarrow> bool" where
  "has_any_feature f [] \<longleftrightarrow> False"
| "has_any_feature f (want # feats) \<longleftrightarrow> has_feature f want \<or> has_any_feature f feats"

definition feature_names :: "string list" where
  "feature_names =
     [''has_address'', ''has_workflow_states'', ''has_assignees'', ''has_sequence_id'',
      ''is_container'', ''has_due_dates'', ''has_comments'', ''has_activity'', ''is_entry_point'',
      ''is_scope'', ''exclude_from_generic_tools'']"

text \<open>\<open>json.Unmarshal\<close> into a \<open>uint32\<close>: a literal of digits only, in range.\<close>

definition digit_value :: "char \<Rightarrow> nat option" where
  "digit_value c = (let n = of_char c in if 48 \<le> n \<and> n \<le> (57 :: nat) then Some (n - 48) else None)"

fun decimal_value :: "nat \<Rightarrow> string \<Rightarrow> nat option" where
  "decimal_value acc [] = Some acc"
| "decimal_value acc (c # cs) =
     (case digit_value c of None \<Rightarrow> None | Some d \<Rightarrow> decimal_value (10 * acc + d) cs)"

fun json_uint32 :: "json \<Rightarrow> 32 word option" where
  "json_uint32 (JNum s) =
     (if s = [] then None else case decimal_value 0 s of
        None \<Rightarrow> None
      | Some n \<Rightarrow> if n < 2 ^ 32 then Some (of_nat n) else None)"
| "json_uint32 JNull = Some 0"
| "json_uint32 _ = None"

definition features_of_bits :: "32 word \<Rightarrow> features" where
  "features_of_bits bits =
     map snd (filter (\<lambda>(i, _). bits AND push_bit i 1 \<noteq> 0)
       (zip [0..<length feature_names] feature_names))"

definition features_unmarshal :: "raw \<Rightarrow> features option" where
  "features_unmarshal b =
     (case unmarshal json_strings b of
        Some ss \<Rightarrow> Some ss
      | None \<Rightarrow>
          (case unmarshal json_uint32 b of
             None \<Rightarrow> None
           | Some bits \<Rightarrow> Some (features_of_bits bits)))"

datatype reference_strategy =
    ReferenceUUIDOnly
  | ReferenceScopedSequence
  | ReferenceScopedProperty
  | ReferenceDirectProperty
  | ReferenceOther string

record reference_config =
  strategy :: reference_strategy
  property :: string

definition is_direct_address :: "reference_config \<Rightarrow> bool" where
  "is_direct_address r \<longleftrightarrow> strategy r = ReferenceDirectProperty"

definition direct_address_property :: "reference_config \<Rightarrow> string" where
  "direct_address_property r = (if \<not> is_direct_address r then [] else trim_space (property r))"

record default_child =
  child_type_key :: string
  child_name :: string
  child_props :: props

record node_type =
  type_id :: uuid
  type_org :: uuid
  type_name :: string
  slug :: string
  color :: string
  icon :: string
  allowed_ops :: "op list"
  property_def_ids :: "uuid list"
  plural_slug :: string
  is_builtin :: bool
  type_key :: string
  type_features :: features
  can_contain :: "string list"
  can_live_under :: "string list"
  type_reference :: reference_config
  reference_templates :: "reference_template list"
  default_children :: "default_child list"

definition build_type_index :: "node_type list \<Rightarrow> (string, node_type) fmap" where
  "build_type_index types =
     fold (\<lambda>nt m. if type_key nt \<noteq> [] then fmupd (type_key nt) nt m else m) types fmempty"

definition primary_reference_template :: "node_type \<Rightarrow> reference_template option" where
  "primary_reference_template n = find is_primary (reference_templates n)"

section \<open>Property definitions\<close>

datatype property_type =
    PropertyTypeText
  | PropertyTypeNumber
  | PropertyTypeDate
  | PropertyTypeSelect
  | PropertyTypeMultiSelect
  | PropertyTypeURL
  | PropertyTypeCheckbox
  | PropertyTypeTimestamp
  | PropertyTypeUUID
  | PropertyTypeOther string

record enum_option =
  opt_key :: string
  opt_label :: string
  opt_color :: string
  sort_rank :: "32 word"

text \<open>
  A \<open>TextRule\<close>: its mode, the fields of an object rule in order, the optional nested rule of an
  items rule, and the labels.
\<close>

datatype text_rule_mode =
    TextRuleScalar
  | TextRuleObject
  | TextRuleItems
  | TextRuleLabels
  | TextRuleOther string

datatype text_rule =
  TextRule (rule_mode: text_rule_mode) (rule_fields: "(string \<times> text_rule) list")
    (rule_items: "text_rule option") (rule_labels: "(string, string) fmap")

record search_projection =
  proj_include :: bool
  proj_order :: int
  proj_rule :: text_rule

record property_default_reference =
  default_scope :: string
  default_ref :: string

record property_def =
  def_id :: uuid
  def_org :: uuid
  def_name :: string
  def_type :: property_type
  applies_to_features :: "string list"
  indexed :: bool
  options :: "enum_option list"
  required :: bool
  default_value :: raw
  default_reference :: "property_default_reference option"
  reference_target_type_key :: string
  search :: "search_projection option"

definition PropertyAppliesTo :: "property_def \<Rightarrow> node_type \<Rightarrow> bool" where
  "PropertyAppliesTo definition nodeType \<longleftrightarrow>
     applies_to_features definition = [] \<or>
     has_any_feature (type_features nodeType) (applies_to_features definition)"

definition IsManagedProperty :: "string \<Rightarrow> bool" where
  "IsManagedProperty name \<longleftrightarrow> name \<in> {''parent_id'', ''scope_id'', ''sequence''}"

section \<open>Nodes and relationships\<close>

record node =
  node_id :: uuid
  node_org :: uuid
  node_kind :: string
  node_name :: string
  node_props :: props
  created_by :: uuid
  updated_by :: uuid
  created_at :: timestamp
  updated_at :: timestamp

text \<open>A \<open>NodeView\<close> has the fields of the node.\<close>

type_synonym node_view = node

record node_resolve =
  resolve_org :: uuid
  resolve_kind :: string

record relationship =
  rel_org :: uuid
  rel_source :: uuid
  rel_type :: string
  rel_target :: uuid
  rel_created_by :: uuid
  rel_created_at :: timestamp
  rel_props :: props

abbreviation RelChildOf :: string where
  "RelChildOf \<equiv> ''child_of''"

abbreviation parentIDName :: string where
  "parentIDName \<equiv> ''parent_id''"

section \<open>The hierarchy rule\<close>

fun hierarchy_parent_loop :: "uuid \<Rightarrow> uuid list \<Rightarrow> uuid result" where
  "hierarchy_parent_loop parentID [] = Inr parentID"
| "hierarchy_parent_loop parentID (targetID # targets) =
     (if parentID \<noteq> uuid_nil \<and> targetID \<noteq> parentID then Inl ErrNoHierarchyParent
      else hierarchy_parent_loop targetID targets)"

definition HierarchyParent :: "node_type option \<Rightarrow> uuid list \<Rightarrow> uuid result" where
  "HierarchyParent kind childOfTargets =
     bindE (hierarchy_parent_loop uuid_nil childOfTargets) (\<lambda>parentID.
     case kind of
       Some k \<Rightarrow> if parentID = uuid_nil \<and> can_live_under k \<noteq> [] then Inl ErrNoHierarchyParent
                 else Inr parentID
     | None \<Rightarrow> Inr parentID)"

definition LivesUnder :: "node_type option \<Rightarrow> node_type option \<Rightarrow> bool" where
  "LivesUnder child parent \<longleftrightarrow>
     (case (child, parent) of
        (Some c, Some p) \<Rightarrow>
          type_key p \<in> set (can_live_under c) \<or> type_key c \<in> set (can_contain p)
      | _ \<Rightarrow> False)"

section \<open>Mutation plans\<close>

definition MutationEdgeLimit :: nat where
  "MutationEdgeLimit = 100"

definition PrimaryDigest :: "lib \<Rightarrow> bytes \<Rightarrow> digest" where
  "PrimaryDigest lib encoding = lib_sha256 lib encoding"

definition RelationshipDigest :: "lib \<Rightarrow> bytes \<Rightarrow> digest" where
  "RelationshipDigest lib metadata = lib_sha256 lib metadata"

record relationship_snapshot =
  snap_relationship :: relationship
  snap_digest :: digest

record mutation_snapshot =
  snap_exists :: bool
  snap_node :: node
  snap_encoding :: bytes
  snap_primary_digest :: digest
  snap_parent :: uuid
  snap_outgoing :: "relationship_snapshot list"
  snap_incoming :: "relationship_snapshot list"
  snap_incoming_overflow :: bool

record schema =
  schema_org :: uuid
  schema_types :: "(string, node_type) fmap"
  schema_definitions :: "property_def option list"

record schema_snapshot =
  snap_schema :: schema
  snap_metadata_epoch :: int

record source_expectation =
  src_absent :: bool
  src_digest :: digest

record graph_record =
  graph_node :: uuid
  graph_digest :: digest

record relationship_expectation =
  exp_type :: string
  exp_target :: uuid
  exp_digest :: digest

record incoming_expectation =
  inc_source :: uuid
  inc_type :: string
  inc_digest :: digest

record graph_expectation =
  graph_records :: "graph_record list"
  graph_relationships :: "relationship_expectation list"
  graph_incoming :: "incoming_expectation list"

record relationship_changes =
  rels_add :: "relationship list"
  rels_remove :: "relationship list"

record reference_key =
  ref_template :: string
  ref_encoded :: string

record idempotency_record =
  idem_key :: string
  idem_node :: uuid
  idem_fingerprint :: string
  idem_created_at :: timestamp
  idem_source :: string

section \<open>Repair checkpoints\<close>

datatype repair_phase =
    RepairPhaseNone
  | RepairPhaseCommentCreated
  | RepairPhaseCommentVerified
  | RepairPhaseExported
  | RepairPhaseCompleted
  | RepairPhaseOther string

fun repairPhaseRank :: "repair_phase \<Rightarrow> nat option" where
  "repairPhaseRank RepairPhaseExported = Some 1"
| "repairPhaseRank RepairPhaseCommentCreated = Some 2"
| "repairPhaseRank RepairPhaseCommentVerified = Some 3"
| "repairPhaseRank RepairPhaseCompleted = Some 4"
| "repairPhaseRank _ = None"

definition phase_valid :: "repair_phase \<Rightarrow> bool" where
  "phase_valid phase \<longleftrightarrow> repairPhaseRank phase \<noteq> None"

definition phase_follows :: "repair_phase \<Rightarrow> repair_phase \<Rightarrow> bool" where
  "phase_follows phase previous \<longleftrightarrow>
     phase_valid phase \<and>
     (previous = RepairPhaseNone \<or>
      phase_valid previous \<and> the (repairPhaseRank phase) > the (repairPhaseRank previous))"

record repair_checkpoint =
  cp_repair_id :: string
  cp_manifest_digest :: string
  cp_node :: uuid
  cp_source_digest :: string
  cp_phase :: repair_phase
  cp_comment :: uuid
  cp_content_digest :: string
  cp_export_path :: string
  cp_export_digest :: string
  cp_result_digest :: string
  cp_actor :: uuid
  cp_updated_at :: timestamp

record checkpoint_write =
  cw_previous :: repair_phase
  cw_next :: repair_checkpoint

record mutation_plan =
  mp_org :: uuid
  mp_node :: uuid
  mp_kind :: string
  mp_actor :: uuid
  mp_source :: source_expectation
  mp_metadata_epoch :: int
  mp_graph :: graph_expectation
  mp_name :: "string option"
  mp_props :: props
  mp_parent :: "uuid option"
  mp_reference_keys :: "reference_key list option"
  mp_relationships :: relationship_changes
  mp_idempotency :: "idempotency_record option"
  mp_checkpoint :: "checkpoint_write option"

record deletion_plan =
  dp_org :: uuid
  dp_node :: uuid
  dp_actor :: uuid
  dp_source :: source_expectation
  dp_graph :: graph_expectation
  dp_checkpoint :: "checkpoint_write option"

record mutation_receipt =
  mr_org :: uuid
  mr_node :: uuid
  mr_source_digest :: digest
  mr_result_digest :: digest

section \<open>Write fence buckets\<close>

definition WriteFenceBuckets :: nat where
  "WriteFenceBuckets = 64"

text \<open>The 32-bit FNV-1a hash of \<open>hash/fnv\<close>.\<close>

definition fnv32a :: "bytes \<Rightarrow> 32 word" where
  "fnv32a bs = fold (\<lambda>b h. (h XOR ucast b) * 16777619) bs 2166136261"

definition WriteFenceBucket :: "uuid \<Rightarrow> uuid \<Rightarrow> nat" where
  "WriteFenceBucket orgID nodeID =
     unat (fnv32a (uuid_bytes orgID @ uuid_bytes nodeID) mod of_nat WriteFenceBuckets)"

section \<open>Facts\<close>

lemma has_feature_iff [simp]: "has_feature f feat \<longleftrightarrow> feat \<in> set f"
  by (induction f) auto

lemma has_any_feature_iff [simp]: "has_any_feature f feats \<longleftrightarrow> set f \<inter> set feats \<noteq> {}"
  by (induction feats) auto

lemma length_feature_names [simp]: "length feature_names = 11"
  by (simp add: feature_names_def)

lemma distinct_feature_names: "distinct feature_names"
  by (simp add: feature_names_def)

lemma and_bit_iff: "(w :: 32 word) AND push_bit i 1 \<noteq> 0 \<longleftrightarrow> bit w i"
proof
  assume "w AND push_bit i 1 \<noteq> 0"
  then obtain j where "bit (w AND push_bit i 1) j" by (auto simp: bit_eq_iff)
  then show "bit w i" by (auto simp: bit_simps)
next
  assume b: "bit w i"
  then have "i < 32" using bit_imp_le_length [of w i] by simp
  then have "bit (w AND push_bit i 1) i" using b by (simp add: bit_simps)
  then show "w AND push_bit i 1 \<noteq> 0" by auto
qed

lemma set_features_of_bits:
  "set (features_of_bits bits) = {feature_names ! i |i. i < length feature_names \<and> bit bits i}"
  unfolding features_of_bits_def and_bit_iff by (force simp: set_zip)

lemma distinct_map_snd_filter_zip: "distinct ys \<Longrightarrow> distinct (map snd (filter P (zip xs ys)))"
  by (induction xs ys rule: list_induct2') (auto dest: set_zip_rightD)

lemma distinct_features_of_bits: "distinct (features_of_bits bits)"
  by (simp add: features_of_bits_def distinct_map_snd_filter_zip distinct_feature_names)

lemma hierarchy_parent_loop_nonnil:
  "q \<noteq> uuid_nil \<Longrightarrow> hierarchy_parent_loop q ts = Inr p \<longleftrightarrow> set ts \<subseteq> {q} \<and> p = q"
  by (induction ts) auto

lemma hierarchy_parent_loop_Inr:
  "uuid_nil \<notin> set ts \<Longrightarrow> hierarchy_parent_loop uuid_nil ts = Inr p \<longleftrightarrow>
    (if ts = [] then p = uuid_nil else set ts = {p})"
  by (cases ts) (auto simp: hierarchy_parent_loop_nonnil)

lemma phase_follows_rank:
  "phase_follows p q \<Longrightarrow> q \<noteq> RepairPhaseNone \<Longrightarrow>
    the (repairPhaseRank q) < the (repairPhaseRank p) \<and> phase_valid q"
  by (simp add: phase_follows_def)

lemma phase_follows_valid: "phase_follows p q \<Longrightarrow> phase_valid p"
  by (simp add: phase_follows_def)

lemma WriteFenceBucket_less: "WriteFenceBucket orgID nodeID < WriteFenceBuckets"
proof -
  have "unat (x mod (64 :: 32 word)) < 64" for x
    by (simp add: unat_mod_distrib)
  then show ?thesis by (simp add: WriteFenceBucket_def WriteFenceBuckets_def)
qed

section \<open>Sample values\<close>

text \<open>
  A library whose functions compute, and a node type: the concrete inputs on which the later
  theorems are evaluated. A UUID is printed as its 16 bytes.
\<close>

definition sample_lib :: lib where
  "sample_lib =
     \<lparr>lib_uuid_parse = (\<lambda>s. if length s = 16
        then Some (fold (\<lambda>c a. a * 256 + of_char c) s 0) else None),
      lib_uuid_string = (\<lambda>u. map (\<lambda>b. char_of (unat b)) (uuid_bytes u)),
      lib_uuid_sha1 = (\<lambda>u s. fold (\<lambda>c a. a * 257 + of_char c + 1) s u),
      lib_sha256 = (\<lambda>bs. fold (\<lambda>b a. a * 257 + ucast b + 1) bs 0),
      lib_time_ok = (\<lambda>layout value. length layout = length value),
      lib_url_parse = (\<lambda>s. if s = [] then None else Some (s, s)),
      lib_float_ok = (\<lambda>_. True),
      lib_json_value = (\<lambda>bs. if bs = [] then None else Some JNull),
      lib_json_members = (\<lambda>_. Some fmempty)\<rparr>"

definition sample_type :: "string \<Rightarrow> node_type" where
  "sample_type key =
     \<lparr>type_id = 2, type_org = 1, type_name = key, slug = key, color = [], icon = [],
      allowed_ops = AllOps, property_def_ids = [], plural_slug = [], is_builtin = True,
      type_key = key, type_features = [], can_contain = [], can_live_under = [],
      type_reference = \<lparr>strategy = ReferenceUUIDOnly, property = []\<rparr>,
      reference_templates = [], default_children = []\<rparr>"

definition sample_definition :: "uuid \<Rightarrow> string \<Rightarrow> property_type \<Rightarrow> property_def" where
  "sample_definition defID name kind =
     \<lparr>def_id = defID, def_org = 1, def_name = name, def_type = kind, applies_to_features = [],
      indexed = True, options = [], required = False, default_value = raw_nil,
      default_reference = None, reference_target_type_key = [], search = None\<rparr>"

definition sample_schema :: schema where
  "sample_schema =
     \<lparr>schema_org = 1, schema_types = fmupd ''task'' (sample_type ''task'') fmempty,
      schema_definitions = [Some (sample_definition 7 ''title'' PropertyTypeText),
        Some (sample_definition 8 ''parent_id'' PropertyTypeUUID)]\<rparr>"

section \<open>Properties\<close>

text \<open>
  C40: \<open>Features.UnmarshalJSON\<close> on a legacy bitmask. A number below \<open>2^32\<close> decodes to the feature
  set that has a built-in feature exactly when its bit is set, without repetitions, and to nothing
  else; higher bits are ignored.
\<close>

theorem features_bitmask:
  assumes "enc_value b = Some (JNum digits)" "digits \<noteq> []"
    and "decimal_value 0 digits = Some n" "n < 2 ^ 32"
  shows "\<exists>f. features_unmarshal b = Some f \<and> distinct f \<and> set f \<subseteq> set feature_names \<and>
    (\<forall>i < length feature_names. has_feature f (feature_names ! i) \<longleftrightarrow> bit n i)"
proof -
  let ?w = "of_nat n :: 32 word"
  have b: "bit ?w i \<longleftrightarrow> bit n i" if "i < 11" for i
    using that by (simp add: bit_simps)
  have "features_unmarshal b = Some (features_of_bits ?w)"
    using assms by (simp add: features_unmarshal_def unmarshal_def)
  moreover have "feature_names ! i \<in> set (features_of_bits ?w) \<longleftrightarrow> bit n i" if "i < 11" for i
    using that distinct_feature_names b
    by (auto simp: set_features_of_bits nth_eq_iff_index_eq)
  moreover have "set (features_of_bits ?w) \<subseteq> set feature_names"
    by (auto simp: set_features_of_bits)
  ultimately show ?thesis using distinct_features_of_bits by auto
qed

theorem features_bitmask_witness:
  "\<exists>f. features_unmarshal (Enc [0x35] (Some (JNum ''5''))) = Some f \<and> distinct f \<and>
    set f \<subseteq> set feature_names \<and>
    (\<forall>i < length feature_names. has_feature f (feature_names ! i) \<longleftrightarrow> bit (5 :: nat) i)"
  by (rule features_bitmask [of _ "''5''"]) (simp_all add: digit_value_def)

text \<open>
  C39: \<open>HierarchyParent\<close> accepts exactly one parent. For stored edges, whose targets are never the
  nil UUID, it returns a node exactly when all \<open>child_of\<close> edges lead to that node, and the nil UUID
  exactly when there is no edge and the type does not require a parent; every other case is
  \<open>ErrNoHierarchyParent\<close>.
\<close>

theorem HierarchyParent_iff:
  assumes "uuid_nil \<notin> set targets"
  shows "(HierarchyParent kind targets = Inr p \<longleftrightarrow>
      targets \<noteq> [] \<and> set targets = {p} \<or>
      targets = [] \<and> p = uuid_nil \<and> (\<forall>k. kind = Some k \<longrightarrow> can_live_under k = [])) \<and>
    (HierarchyParent kind targets = Inl e \<longrightarrow> e = ErrNoHierarchyParent)"
proof
  show "HierarchyParent kind targets = Inr p \<longleftrightarrow>
      targets \<noteq> [] \<and> set targets = {p} \<or>
      targets = [] \<and> p = uuid_nil \<and> (\<forall>k. kind = Some k \<longrightarrow> can_live_under k = [])"
    unfolding HierarchyParent_def bindE_eq_Inr hierarchy_parent_loop_Inr [OF assms]
    using assms by (cases "targets = []") (auto split: option.splits if_splits)
  have "hierarchy_parent_loop q ts = Inl e \<longrightarrow> e = ErrNoHierarchyParent" for q ts e
    by (induction ts arbitrary: q) auto
  then show "HierarchyParent kind targets = Inl e \<longrightarrow> e = ErrNoHierarchyParent"
    by (auto simp: HierarchyParent_def bindE_eq_Inl split: option.splits if_splits)
qed

theorem HierarchyParent_iff_witness:
  "uuid_nil \<notin> set [7, 7 :: uuid] \<and> HierarchyParent None [7, 7] = Inr 7"
  using HierarchyParent_iff [of "[7, 7]" None 7] by simp

end
