(* ===== verification/Property_Schema.thy ===== *)
theory Property_Schema
  imports Node_Types
begin

text \<open>
  The interpretation of a node's properties against the schema of its organization
  (\<open>internal/domain/node/property_schema.go\<close>, \<open>property_value.go\<close>, \<open>property_validate.go\<close> and
  \<open>property_result.go\<close>): \<open>Interpret\<close>, which sorts properties into accepted and rejected ones, and
  \<open>ValidateResult\<close>, which also checks required properties, references and the parent. A message is
  the constructor of its format string with the values it quotes.
\<close>

section \<open>Results\<close>

datatype property_issue_code =
    PropertyIssueUndeclared
  | PropertyIssueNotApplicable
  | PropertyIssueValue
  | PropertyIssueOption
  | PropertyIssueRequired
  | PropertyIssueReference
  | PropertyIssueParent

datatype reason =
    NoDefinition
  | DoesNotApply string
  | NotValidJSON
  | ValueIsNull
  | MustBeString
  | MustBeNumber
  | MustBeBoolean
  | MustBeStringArray
  | LayoutMismatch string string
  | NotAbsoluteURL string
  | NotCanonicalUUID string
  | LabelOfOption string string
  | NotAnOptionKey string
  | OptionRepeated string
  | PropertyIsRequired
  | TargetMissing uuid
  | TargetHasType uuid string string
  | ChildOfWithoutParentID "uuid list"
  | ParentTypeRequired string "string list"
  | ValueNotNodeID
  | ParentDiffers uuid "uuid list"
  | ParentMissing uuid
  | CannotLiveUnder string uuid string

datatype read_failure =
    NodeTypeMissing string
  | DefinitionRepeated string
  | ParentTypeMissing string uuid

record property_issue =
  issue_property :: string
  issue_code :: property_issue_code
  issue_reason :: reason

record property_result =
  pr_node_type :: string
  pr_valid :: props
  pr_invalid :: "property_issue list"
  pr_failures :: "read_failure list"

definition property_result_err :: "property_result \<Rightarrow> unit result" where
  "property_result_err r =
     (if pr_failures r = [] \<and> pr_invalid r = [] then Inr ()
      else if pr_failures r \<noteq> [] then Inl ErrSchemaRead
      else Inl ErrInvalidArgument)"

section \<open>Values\<close>

definition valueIssue :: "property_def \<Rightarrow> property_issue_code \<Rightarrow> reason \<Rightarrow> property_issue option" where
  "valueIssue definition code reason =
     Some \<lparr>issue_property = def_name definition, issue_code = code, issue_reason = reason\<rparr>"

definition stringValueIssue ::
    "property_def \<Rightarrow> raw \<Rightarrow> (string \<Rightarrow> reason option) \<Rightarrow> property_issue option" where
  "stringValueIssue definition raw check =
     (case unmarshal json_string raw of
        None \<Rightarrow> valueIssue definition PropertyIssueValue MustBeString
      | Some value \<Rightarrow>
          (case check value of
             None \<Rightarrow> None
           | Some reason \<Rightarrow>
               valueIssue definition
                 (if def_type definition = PropertyTypeSelect then PropertyIssueOption
                  else PropertyIssueValue) reason))"

definition timeFormatReason :: "lib \<Rightarrow> string \<Rightarrow> string \<Rightarrow> reason option" where
  "timeFormatReason lib layout value =
     (if lib_time_ok lib layout value then None else Some (LayoutMismatch value layout))"

definition urlReason :: "lib \<Rightarrow> string \<Rightarrow> reason option" where
  "urlReason lib value =
     (case lib_url_parse lib value of
        None \<Rightarrow> Some (NotAbsoluteURL value)
      | Some (scheme, host) \<Rightarrow>
          if scheme = [] \<or> host = [] then Some (NotAbsoluteURL value) else None)"

definition uuidReason :: "lib \<Rightarrow> string \<Rightarrow> reason option" where
  "uuidReason lib value =
     (case lib_uuid_parse lib value of
        None \<Rightarrow> Some (NotCanonicalUUID value)
      | Some parsed \<Rightarrow>
          if lib_uuid_string lib parsed \<noteq> value then Some (NotCanonicalUUID value) else None)"

definition optionReason :: "property_def \<Rightarrow> string \<Rightarrow> reason option" where
  "optionReason definition value =
     (case find (\<lambda>opt. opt_key opt = value) (options definition) of
        Some _ \<Rightarrow> None
      | None \<Rightarrow>
          (case find (\<lambda>opt. opt_label opt = value) (options definition) of
             Some opt \<Rightarrow> Some (LabelOfOption value (opt_key opt))
           | None \<Rightarrow> Some (NotAnOptionKey value)))"

fun multi_select_loop ::
    "property_def \<Rightarrow> string set \<Rightarrow> string list \<Rightarrow> property_issue option" where
  "multi_select_loop definition seen [] = None"
| "multi_select_loop definition seen (value # values) =
     (if value \<in> seen then valueIssue definition PropertyIssueOption (OptionRepeated value)
      else case optionReason definition value of
        Some reason \<Rightarrow> valueIssue definition PropertyIssueOption reason
      | None \<Rightarrow> multi_select_loop definition (insert value seen) values)"

definition multiSelectIssue :: "property_def \<Rightarrow> raw \<Rightarrow> property_issue option" where
  "multiSelectIssue definition raw =
     (case unmarshal json_strings raw of
        None \<Rightarrow> valueIssue definition PropertyIssueValue MustBeStringArray
      | Some values \<Rightarrow> multi_select_loop definition {} values)"

text \<open>\<open>json.Unmarshal\<close> into a \<open>float64\<close>.\<close>

fun json_float :: "lib \<Rightarrow> json \<Rightarrow> unit option" where
  "json_float lib (JNum s) = (if lib_float_ok lib s then Some () else None)"
| "json_float lib JNull = Some ()"
| "json_float lib _ = None"

definition date_only_layout :: string where
  "date_only_layout = ''2006-01-02''"

definition rfc3339_layout :: string where
  "rfc3339_layout = ''2006-01-02T15:04:05Z07:00''"

definition propertyValueIssue :: "lib \<Rightarrow> property_def \<Rightarrow> raw \<Rightarrow> property_issue option" where
  "propertyValueIssue lib definition raw =
     (if enc_value raw = None then valueIssue definition PropertyIssueValue NotValidJSON
      else if enc_value raw = Some JNull then valueIssue definition PropertyIssueValue ValueIsNull
      else case def_type definition of
        PropertyTypeText \<Rightarrow> stringValueIssue definition raw (\<lambda>_. None)
      | PropertyTypeNumber \<Rightarrow>
          if unmarshal (json_float lib) raw = None
          then valueIssue definition PropertyIssueValue MustBeNumber else None
      | PropertyTypeCheckbox \<Rightarrow>
          if unmarshal json_bool raw = None
          then valueIssue definition PropertyIssueValue MustBeBoolean else None
      | PropertyTypeDate \<Rightarrow> stringValueIssue definition raw (timeFormatReason lib date_only_layout)
      | PropertyTypeTimestamp \<Rightarrow>
          stringValueIssue definition raw (timeFormatReason lib rfc3339_layout)
      | PropertyTypeURL \<Rightarrow> stringValueIssue definition raw (urlReason lib)
      | PropertyTypeUUID \<Rightarrow> stringValueIssue definition raw (uuidReason lib)
      | PropertyTypeSelect \<Rightarrow> stringValueIssue definition raw (optionReason definition)
      | PropertyTypeMultiSelect \<Rightarrow> multiSelectIssue definition raw
      | PropertyTypeOther _ \<Rightarrow> None)"

section \<open>Interpretation\<close>

definition sortedPropertyNames :: "props \<Rightarrow> string list" where
  "sortedPropertyNames props = sorted_list_of_fset (fmdom props)"

definition definitions_step ::
    "property_def option \<Rightarrow> (string, property_def) fmap \<times> read_failure list \<Rightarrow>
       (string, property_def) fmap \<times> read_failure list" where
  "definitions_step entry st =
     (let (definitions, failures) = st in
      case entry of
        None \<Rightarrow> (definitions, failures)
      | Some d \<Rightarrow>
          if fmlookup definitions (def_name d) \<noteq> None
          then (definitions, failures @ [DefinitionRepeated (def_name d)])
          else (fmupd (def_name d) d definitions, failures))"

definition definitionsByName :: "schema \<Rightarrow> (string, property_def) fmap \<times> read_failure list" where
  "definitionsByName s = fold definitions_step (schema_definitions s) (fmempty, [])"

text \<open>The issue of one property, if any, in the order of the checks.\<close>

definition property_issue_of ::
    "lib \<Rightarrow> (string, property_def) fmap \<Rightarrow> string \<Rightarrow> node_type \<Rightarrow> string \<Rightarrow> raw \<Rightarrow>
       property_issue option" where
  "property_issue_of lib definitions typeKey nodeType name raw =
     (case fmlookup definitions name of
        None \<Rightarrow> Some \<lparr>issue_property = name, issue_code = PropertyIssueUndeclared,
                      issue_reason = NoDefinition\<rparr>
      | Some definition \<Rightarrow>
          if \<not> PropertyAppliesTo definition nodeType
          then Some \<lparr>issue_property = name, issue_code = PropertyIssueNotApplicable,
                     issue_reason = DoesNotApply typeKey\<rparr>
          else propertyValueIssue lib definition raw)"

definition interpret_step ::
    "(string \<Rightarrow> raw \<Rightarrow> property_issue option) \<Rightarrow> props \<Rightarrow> string \<Rightarrow> property_result \<Rightarrow>
       property_result" where
  "interpret_step issue_of props name result =
     (let raw = prop_of props name in
      case issue_of name raw of
        Some issue \<Rightarrow> result\<lparr>pr_invalid := pr_invalid result @ [issue]\<rparr>
      | None \<Rightarrow> result\<lparr>pr_valid := fmupd name raw (pr_valid result)\<rparr>)"

definition Interpret :: "lib \<Rightarrow> schema \<Rightarrow> string \<Rightarrow> props \<Rightarrow> property_result" where
  "Interpret lib s typeKey props =
     (let result = \<lparr>pr_node_type = typeKey, pr_valid = fmempty, pr_invalid = [], pr_failures = []\<rparr> in
      case fmlookup (schema_types s) typeKey of
        None \<Rightarrow> result\<lparr>pr_failures := [NodeTypeMissing typeKey]\<rparr>
      | Some nodeType \<Rightarrow>
          let (definitions, failures) = definitionsByName s in
          fold (interpret_step (property_issue_of lib definitions typeKey nodeType) props)
            (sortedPropertyNames props) (result\<lparr>pr_failures := failures\<rparr>))"

section \<open>Complete results\<close>

record result_target =
  target_found :: bool
  target_org :: uuid
  target_kind :: string

record result_graph =
  rg_org :: uuid
  rg_child_of :: "uuid list"
  rg_targets :: "(uuid, result_target) fmap"

text \<open>Reading a missing map entry gives the zero \<open>ResultTarget\<close>.\<close>

definition target_of :: "result_graph \<Rightarrow> uuid \<Rightarrow> result_target" where
  "target_of graph targetID =
     (case fmlookup (rg_targets graph) targetID of
        None \<Rightarrow> \<lparr>target_found = False, target_org = uuid_nil, target_kind = []\<rparr>
      | Some t \<Rightarrow> t)"

definition resultReferenceID :: "lib \<Rightarrow> raw \<Rightarrow> uuid" where
  "resultReferenceID lib raw =
     (case unmarshal json_string raw of
        None \<Rightarrow> uuid_nil
      | Some text \<Rightarrow> (case lib_uuid_parse lib text of None \<Rightarrow> uuid_nil | Some parsed \<Rightarrow> parsed))"

definition referenceReason :: "lib \<Rightarrow> property_def \<Rightarrow> raw \<Rightarrow> result_graph \<Rightarrow> reason option" where
  "referenceReason lib definition raw graph =
     (let targetID = resultReferenceID lib raw;
          target = target_of graph targetID in
      if \<not> target_found target \<or> target_org target \<noteq> rg_org graph then Some (TargetMissing targetID)
      else if target_kind target \<noteq> reference_target_type_key definition
      then Some (TargetHasType targetID (target_kind target) (reference_target_type_key definition))
      else None)"

definition parentReason ::
    "lib \<Rightarrow> schema \<Rightarrow> node_type \<Rightarrow> raw \<Rightarrow> result_graph \<Rightarrow> read_failure + reason option" where
  "parentReason lib s nodeType raw graph =
     (if raw_empty raw then
        (if rg_child_of graph \<noteq> [] then Inr (Some (ChildOfWithoutParentID (rg_child_of graph)))
         else if can_live_under nodeType \<noteq> []
         then Inr (Some (ParentTypeRequired (type_key nodeType) (can_live_under nodeType)))
         else Inr None)
      else
        let parentID = resultReferenceID lib raw in
        if parentID = uuid_nil then Inr (Some ValueNotNodeID)
        else if length (rg_child_of graph) \<noteq> 1 \<or> rg_child_of graph ! 0 \<noteq> parentID
        then Inr (Some (ParentDiffers parentID (rg_child_of graph)))
        else
          let parent = target_of graph parentID in
          if \<not> target_found parent \<or> target_org parent \<noteq> rg_org graph
          then Inr (Some (ParentMissing parentID))
          else case fmlookup (schema_types s) (target_kind parent) of
            None \<Rightarrow> Inl (ParentTypeMissing (target_kind parent) parentID)
          | Some parentType \<Rightarrow>
              if \<not> LivesUnder (Some nodeType) (Some parentType)
              then Inr (Some (CannotLiveUnder (type_key nodeType) parentID (type_key parentType)))
              else Inr None)"

definition present_definitions :: "property_def option list \<Rightarrow> property_def list" where
  "present_definitions entries = map the (filter (\<lambda>d. d \<noteq> None) entries)"

definition sortedDefinitions :: "schema \<Rightarrow> property_def list" where
  "sortedDefinitions s = sort_key def_name (present_definitions (schema_definitions s))"

definition validate_definition ::
    "lib \<Rightarrow> node_type \<Rightarrow> (string \<Rightarrow> bool) \<Rightarrow> result_graph \<Rightarrow> property_def \<Rightarrow> property_result \<Rightarrow>
       property_result" where
  "validate_definition lib nodeType rejected graph definition result =
     (if \<not> PropertyAppliesTo definition nodeType \<or> rejected (def_name definition) then result
      else case fmlookup (pr_valid result) (def_name definition) of
        None \<Rightarrow>
          if required definition then
            result\<lparr>pr_invalid := pr_invalid result @
              [\<lparr>issue_property = def_name definition, issue_code = PropertyIssueRequired,
                issue_reason = PropertyIsRequired\<rparr>]\<rparr>
          else result
      | Some raw \<Rightarrow>
          if def_type definition \<noteq> PropertyTypeUUID \<or> reference_target_type_key definition = []
          then result
          else case referenceReason lib definition raw graph of
            None \<Rightarrow> result
          | Some reason \<Rightarrow>
              result\<lparr>pr_valid := fmdrop (def_name definition) (pr_valid result),
                pr_invalid := pr_invalid result @
                  [\<lparr>issue_property = def_name definition, issue_code = PropertyIssueReference,
                    issue_reason = reason\<rparr>]\<rparr>)"

definition validate_parent ::
    "lib \<Rightarrow> schema \<Rightarrow> node_type \<Rightarrow> props \<Rightarrow> result_graph \<Rightarrow> property_result \<Rightarrow> property_result" where
  "validate_parent lib s nodeType props graph result =
     (case parentReason lib s nodeType (prop_of props parentIDName) graph of
        Inl failure \<Rightarrow> result\<lparr>pr_failures := pr_failures result @ [failure]\<rparr>
      | Inr None \<Rightarrow> result
      | Inr (Some reason) \<Rightarrow>
          result\<lparr>pr_valid := fmdrop parentIDName (pr_valid result),
            pr_invalid := pr_invalid result @
              [\<lparr>issue_property = parentIDName, issue_code = PropertyIssueParent,
                issue_reason = reason\<rparr>]\<rparr>)"

definition ValidateResult ::
    "lib \<Rightarrow> schema \<Rightarrow> string \<Rightarrow> props \<Rightarrow> result_graph \<Rightarrow> property_result" where
  "ValidateResult lib s typeKey props graph =
     (let result = Interpret lib s typeKey props in
      case fmlookup (schema_types s) typeKey of
        None \<Rightarrow> result
      | Some nodeType \<Rightarrow>
          if pr_failures result \<noteq> [] then result
          else
            let rejected = (\<lambda>name. \<exists>issue \<in> set (pr_invalid result). issue_property issue = name);
                result = fold (validate_definition lib nodeType rejected graph)
                  (sortedDefinitions s) result in
            if rejected parentIDName then result
            else validate_parent lib s nodeType props graph result)"

section \<open>Facts about the interpretation\<close>

lemma present_definitions_simps [simp]:
  "present_definitions [] = []"
  "present_definitions (None # es) = present_definitions es"
  "present_definitions (Some d # es) = d # present_definitions es"
  by (simp_all add: present_definitions_def)

lemma set_sortedDefinitions [simp]:
  "set (sortedDefinitions s) = set (present_definitions (schema_definitions s))"
  by (simp add: sortedDefinitions_def)

text \<open>The index holds the first definition of each name, and a repeated name is a failure.\<close>

lemma definitions_fold_lookup:
  "fmlookup (fst (fold definitions_step es (m, fs))) n =
     (case fmlookup m n of
        Some d \<Rightarrow> Some d
      | None \<Rightarrow> map_of (map (\<lambda>d. (def_name d, d)) (present_definitions es)) n)"
proof (induction es arbitrary: m fs)
  case (Cons e es)
  then show ?case by (cases e) (auto simp: definitions_step_def split: option.splits)
qed (simp split: option.splits)

lemma definitions_fold_failures:
  "snd (fold definitions_step es (m, fs)) = [] \<longleftrightarrow>
     fs = [] \<and> distinct (map def_name (present_definitions es)) \<and>
     (\<forall>d \<in> set (present_definitions es). fmlookup m (def_name d) = None)"
proof (induction es arbitrary: m fs)
  case (Cons e es)
  then show ?case
  proof (cases e)
    case (Some d)
    then show ?thesis using Cons.IH by (auto simp: definitions_step_def split: if_splits)
  qed (simp add: definitions_step_def)
qed simp

lemma definitionsByName_lookup:
  "fmlookup (fst (definitionsByName s)) n =
     map_of (map (\<lambda>d. (def_name d, d)) (present_definitions (schema_definitions s))) n"
  by (simp add: definitionsByName_def definitions_fold_lookup)

lemma definitionsByName_failures:
  "snd (definitionsByName s) = [] \<longleftrightarrow>
     distinct (map def_name (present_definitions (schema_definitions s)))"
  by (simp add: definitionsByName_def definitions_fold_failures)

lemma definitionsByName_name:
  "fmlookup (fst (definitionsByName s)) n = Some d \<Longrightarrow> def_name d = n"
  by (auto simp: definitionsByName_lookup dest: map_of_SomeD)

lemma definitionsByName_Some:
  "snd (definitionsByName s) = [] \<Longrightarrow> fmlookup (fst (definitionsByName s)) n = Some d \<longleftrightarrow>
     d \<in> set (present_definitions (schema_definitions s)) \<and> def_name d = n"
  by (auto simp: definitionsByName_lookup definitionsByName_failures comp_def
      dest: map_of_SomeD intro!: map_of_is_SomeI)

lemma multi_select_loop_property:
  "multi_select_loop d seen vs = Some i \<Longrightarrow> issue_property i = def_name d"
  by (induction vs arbitrary: seen) (auto simp: valueIssue_def split: if_splits option.splits)

lemma propertyValueIssue_property:
  "propertyValueIssue lib d raw = Some i \<Longrightarrow> issue_property i = def_name d"
  by (auto simp: propertyValueIssue_def valueIssue_def stringValueIssue_def multiSelectIssue_def
      dest: multi_select_loop_property split: if_splits option.splits property_type.splits)

lemma property_issue_of_property:
  "property_issue_of lib (fst (definitionsByName s)) k t n raw = Some i \<Longrightarrow> issue_property i = n"
  by (auto simp: property_issue_of_def dest: propertyValueIssue_property definitionsByName_name
      split: option.splits if_splits)

text \<open>The loop over the names: accepted values are copied, issues are listed in name order.\<close>

lemma interpret_fold:
  "fmlookup (pr_valid (fold (interpret_step io props) ns r)) n =
     (if n \<in> set ns \<and> io n (prop_of props n) = None then Some (prop_of props n)
      else fmlookup (pr_valid r) n)"
  "pr_invalid (fold (interpret_step io props) ns r) =
     pr_invalid r @ List.map_filter (\<lambda>n. io n (prop_of props n)) ns"
  "pr_failures (fold (interpret_step io props) ns r) = pr_failures r"
  by (induction ns arbitrary: r)
    (auto simp: interpret_step_def Let_def map_filter_simps split: option.splits)

lemma set_map_filter_option: "y \<in> set (List.map_filter f xs) \<longleftrightarrow> (\<exists>x \<in> set xs. f x = Some y)"
  by (induction xs) (auto simp: map_filter_simps split: option.splits)

lemma set_sortedPropertyNames [simp]: "set (sortedPropertyNames props) = fmdom' props"
  by (simp add: sortedPropertyNames_def sorted_list_of_fset.rep_eq fmdom'_alt_def)

lemma prop_of_lookup: "fmlookup m n = Some r \<Longrightarrow> prop_of m n = r"
  by (simp add: prop_of_def)

abbreviation issue_in :: "lib \<Rightarrow> schema \<Rightarrow> string \<Rightarrow> node_type \<Rightarrow> string \<Rightarrow> raw \<Rightarrow> property_issue option" where
  "issue_in lib s k t \<equiv> property_issue_of lib (fst (definitionsByName s)) k t"

lemma Interpret_known:
  assumes "fmlookup (schema_types s) k = Some t"
  shows "fmlookup (pr_valid (Interpret lib s k props)) n =
      (case fmlookup props n of
         None \<Rightarrow> None
       | Some raw \<Rightarrow> if issue_in lib s k t n raw = None then Some raw else None)"
    and "i \<in> set (pr_invalid (Interpret lib s k props)) \<longleftrightarrow>
      (\<exists>n raw. fmlookup props n = Some raw \<and> issue_in lib s k t n raw = Some i)"
    and "pr_failures (Interpret lib s k props) = snd (definitionsByName s)"
proof -
  have fold: "Interpret lib s k props = fold (interpret_step (issue_in lib s k t) props)
      (sortedPropertyNames props)
      \<lparr>pr_node_type = k, pr_valid = fmempty, pr_invalid = [], pr_failures = snd (definitionsByName s)\<rparr>"
    using assms by (simp add: Interpret_def Let_def case_prod_beta)
  show "fmlookup (pr_valid (Interpret lib s k props)) n =
      (case fmlookup props n of
         None \<Rightarrow> None
       | Some raw \<Rightarrow> if issue_in lib s k t n raw = None then Some raw else None)"
    by (auto simp: fold interpret_fold prop_of_def fmlookup_dom'_iff split: option.splits)
  show "i \<in> set (pr_invalid (Interpret lib s k props)) \<longleftrightarrow>
      (\<exists>n raw. fmlookup props n = Some raw \<and> issue_in lib s k t n raw = Some i)"
  proof -
    have "(\<exists>x \<in> fmdom' props. io x (prop_of props x) = Some i) \<longleftrightarrow>
        (\<exists>n raw. fmlookup props n = Some raw \<and> io n raw = Some i)" for io
      unfolding Bex_def fmlookup_dom'_iff using prop_of_lookup [of props] by metis
    then show ?thesis by (simp add: fold interpret_fold set_map_filter_option)
  qed
  show "pr_failures (Interpret lib s k props) = snd (definitionsByName s)"
    by (simp add: fold interpret_fold)
qed

lemma Interpret_rejected_iff:
  assumes "fmlookup (schema_types s) k = Some t"
  shows "(\<exists>i \<in> set (pr_invalid (Interpret lib s k props)). issue_property i = n) \<longleftrightarrow>
    (\<exists>raw. fmlookup props n = Some raw \<and> issue_in lib s k t n raw \<noteq> None)"
proof
  assume "\<exists>i \<in> set (pr_invalid (Interpret lib s k props)). issue_property i = n"
  then obtain i m raw where i: "fmlookup props m = Some raw" "issue_in lib s k t m raw = Some i"
    "issue_property i = n"
    using Interpret_known(2) [OF assms] by metis
  then show "\<exists>raw. fmlookup props n = Some raw \<and> issue_in lib s k t n raw \<noteq> None"
    using property_issue_of_property [OF i(2)] by auto
next
  assume "\<exists>raw. fmlookup props n = Some raw \<and> issue_in lib s k t n raw \<noteq> None"
  then obtain raw i where i: "fmlookup props n = Some raw" "issue_in lib s k t n raw = Some i" by auto
  then have "i \<in> set (pr_invalid (Interpret lib s k props))"
    using Interpret_known(2) [OF assms] by metis
  with property_issue_of_property [OF i(2)]
  show "\<exists>i \<in> set (pr_invalid (Interpret lib s k props)). issue_property i = n" by blast
qed

lemma issue_in_None:
  assumes "snd (definitionsByName s) = []"
  shows "issue_in lib s k t n raw = None \<longleftrightarrow>
    (\<exists>d \<in> set (present_definitions (schema_definitions s)). def_name d = n \<and>
       PropertyAppliesTo d t \<and> propertyValueIssue lib d raw = None)"
proof (cases "fmlookup (fst (definitionsByName s)) n")
  case None
  then have "\<nexists>d. d \<in> set (present_definitions (schema_definitions s)) \<and> def_name d = n"
    using definitionsByName_Some [OF assms, of n] by auto
  then show ?thesis using None by (auto simp: property_issue_of_def)
next
  case (Some d)
  have "(\<exists>d' \<in> set (present_definitions (schema_definitions s)). def_name d' = n \<and> P d') \<longleftrightarrow> P d" for P
    using definitionsByName_Some [OF assms, of n] Some by (metis option.inject)
  then show ?thesis using Some by (simp add: property_issue_of_def)
qed

section \<open>Facts about the validation\<close>

text \<open>What one definition requires of the accepted properties.\<close>

definition definition_ok ::
    "lib \<Rightarrow> node_type \<Rightarrow> props \<Rightarrow> result_graph \<Rightarrow> property_def \<Rightarrow> bool" where
  "definition_ok lib t valid graph d \<longleftrightarrow>
     (case fmlookup valid (def_name d) of
        None \<Rightarrow> \<not> required d
      | Some raw \<Rightarrow>
          def_type d = PropertyTypeUUID \<and> reference_target_type_key d \<noteq> [] \<longrightarrow>
          (let target = target_of graph (resultReferenceID lib raw) in
           target_found target \<and> target_org target = rg_org graph \<and>
           target_kind target = reference_target_type_key d))"

text \<open>What a result requires of the parent.\<close>

definition parent_ok :: "lib \<Rightarrow> schema \<Rightarrow> node_type \<Rightarrow> raw \<Rightarrow> result_graph \<Rightarrow> bool" where
  "parent_ok lib s t raw graph \<longleftrightarrow>
     (if raw_empty raw then rg_child_of graph = [] \<and> can_live_under t = []
      else
        (let p = resultReferenceID lib raw; parent = target_of graph p in
         p \<noteq> uuid_nil \<and> rg_child_of graph = [p] \<and>
         target_found parent \<and> target_org parent = rg_org graph \<and>
         (\<exists>pt. fmlookup (schema_types s) (target_kind parent) = Some pt \<and>
            (type_key pt \<in> set (can_live_under t) \<or> type_key t \<in> set (can_contain pt)))))"

lemma validate_definition_cases:
  "if PropertyAppliesTo d t \<and> \<not> rejected (def_name d) \<and> \<not> definition_ok lib t (pr_valid r) graph d
   then \<exists>x. pr_invalid (validate_definition lib t rejected graph d r) = pr_invalid r @ [x]
   else validate_definition lib t rejected graph d r = r"
proof (cases "fmlookup (pr_valid r) (def_name d)")
  case None
  then show ?thesis by (simp add: validate_definition_def definition_ok_def)
next
  case (Some raw)
  then show ?thesis
    by (simp add: validate_definition_def definition_ok_def referenceReason_def Let_def)
qed

lemma fold_append_empty:
  assumes "\<And>d r. (f d r = r \<and> ok d r) \<or> (\<exists>x. pr_invalid (f d r) = pr_invalid r @ [x]) \<and> \<not> ok d r"
  shows "(pr_invalid (fold f ds r) = [] \<longleftrightarrow> pr_invalid r = [] \<and> (\<forall>d \<in> set ds. ok d r)) \<and>
    (pr_invalid (fold f ds r) = [] \<longrightarrow> fold f ds r = r)"
proof (induction ds arbitrary: r)
  case (Cons d ds)
  from assms [of d r] show ?case
  proof
    assume "f d r = r \<and> ok d r"
    then show ?thesis using Cons.IH [of r] by simp
  next
    assume "(\<exists>x. pr_invalid (f d r) = pr_invalid r @ [x]) \<and> \<not> ok d r"
    then show ?thesis using Cons.IH [of "f d r"] by auto
  qed
qed simp

lemma singleton_iff_nth: "xs = [x] \<longleftrightarrow> length xs = 1 \<and> xs ! 0 = x"
  by (cases xs) auto

lemma parentReason_None:
  "parentReason lib s t raw graph = Inr None \<longleftrightarrow> parent_ok lib s t raw graph"
proof (cases "raw_empty raw")
  case False
  define p where "p = resultReferenceID lib raw"
  show ?thesis
  proof (cases "fmlookup (schema_types s) (target_kind (target_of graph p))")
    case None
    with False show ?thesis
      by (simp add: parentReason_def parent_ok_def Let_def flip: p_def)
  next
    case (Some pt)
    with False show ?thesis
      by (auto simp add: parentReason_def parent_ok_def Let_def LivesUnder_def singleton_iff_nth
          simp flip: p_def)
  qed
qed (simp add: parentReason_def parent_ok_def)

lemma validate_parent_accepts:
  "pr_invalid (validate_parent lib s t props graph r) = [] \<and>
   pr_failures (validate_parent lib s t props graph r) = [] \<longleftrightarrow>
     pr_invalid r = [] \<and> pr_failures r = [] \<and> parent_ok lib s t (prop_of props parentIDName) graph"
  unfolding parentReason_None [symmetric]
  by (simp add: validate_parent_def split: option.split sum.split)

text \<open>
  The rule that \<open>ValidateResult\<close> enforces, stated on its own: the type exists and definition names
  are unique, every property is declared, applicable and well-formed, every applicable required
  property is present, every reference leads to a node of the declared type in the organization,
  and the parent is consistent with the \<open>child_of\<close> edges and the containment rules.
\<close>

definition result_accepted :: "lib \<Rightarrow> schema \<Rightarrow> string \<Rightarrow> props \<Rightarrow> result_graph \<Rightarrow> bool" where
  "result_accepted lib s k props graph \<longleftrightarrow>
     (\<exists>t. fmlookup (schema_types s) k = Some t \<and>
        (let defs = present_definitions (schema_definitions s) in
         distinct (map def_name defs) \<and>
         (\<forall>n raw. fmlookup props n = Some raw \<longrightarrow>
            (\<exists>d \<in> set defs. def_name d = n \<and> PropertyAppliesTo d t \<and>
               propertyValueIssue lib d raw = None)) \<and>
         (\<forall>d \<in> set defs. PropertyAppliesTo d t \<longrightarrow> definition_ok lib t props graph d) \<and>
         parent_ok lib s t (prop_of props parentIDName) graph))"

lemma validate_definitions_accept:
  assumes "pr_invalid r = []"
  shows "pr_invalid (fold (validate_definition lib t (\<lambda>_. False) graph) ds r) = [] \<longleftrightarrow>
      (\<forall>d \<in> set ds. PropertyAppliesTo d t \<longrightarrow> definition_ok lib t (pr_valid r) graph d)"
    and "pr_invalid (fold (validate_definition lib t (\<lambda>_. False) graph) ds r) = [] \<Longrightarrow>
      fold (validate_definition lib t (\<lambda>_. False) graph) ds r = r"
proof -
  let ?f = "validate_definition lib t (\<lambda>_. False) graph"
  have "(?f d r = r \<and> (PropertyAppliesTo d t \<longrightarrow> definition_ok lib t (pr_valid r) graph d)) \<or>
      (\<exists>x. pr_invalid (?f d r) = pr_invalid r @ [x]) \<and>
      \<not> (PropertyAppliesTo d t \<longrightarrow> definition_ok lib t (pr_valid r) graph d)" for d r
    using validate_definition_cases [of d t "\<lambda>_. False" lib r graph] by (auto split: if_splits)
  from fold_append_empty [of ?f
      "\<lambda>d r. PropertyAppliesTo d t \<longrightarrow> definition_ok lib t (pr_valid r) graph d", OF this, of ds r]
  show "pr_invalid (fold ?f ds r) = [] \<longleftrightarrow>
      (\<forall>d \<in> set ds. PropertyAppliesTo d t \<longrightarrow> definition_ok lib t (pr_valid r) graph d)"
    and "pr_invalid (fold ?f ds r) = [] \<Longrightarrow> fold ?f ds r = r"
    using assms by auto
qed

text \<open>An issue of the interpretation is never removed again.\<close>

lemma validate_definition_grows:
  "pr_invalid (validate_definition lib t rej graph d r) = [] \<Longrightarrow> pr_invalid r = []"
  using validate_definition_cases [of d t rej lib r graph] by (auto split: if_splits)

lemma fold_validate_grows:
  "pr_invalid (fold (validate_definition lib t rej graph) ds r) = [] \<Longrightarrow> pr_invalid r = []"
  by (induction ds arbitrary: r) (auto dest: validate_definition_grows)

lemma fold_validate_failures:
  "pr_failures (fold (validate_definition lib t rej graph) ds r) = pr_failures r"
proof (induction ds arbitrary: r)
  case (Cons d ds)
  have "pr_failures (validate_definition lib t rej graph d r) = pr_failures r"
    by (simp add: validate_definition_def split: option.split)
  with Cons show ?case by simp
qed simp

lemma Interpret_clean:
  assumes "fmlookup (schema_types s) k = Some t" "pr_invalid (Interpret lib s k props) = []"
  shows "pr_valid (Interpret lib s k props) = props"
proof (rule fmap_ext)
  fix n
  have "issue_in lib s k t n raw = None" if "fmlookup props n = Some raw" for raw
    using Interpret_rejected_iff [OF assms(1), of lib props n] assms(2) that by simp
  then show "fmlookup (pr_valid (Interpret lib s k props)) n = fmlookup props n"
    by (simp add: Interpret_known(1) [OF assms(1)] split: option.split)
qed

lemma Interpret_clean_iff:
  assumes "fmlookup (schema_types s) k = Some t" "snd (definitionsByName s) = []"
  shows "pr_invalid (Interpret lib s k props) = [] \<longleftrightarrow>
    (\<forall>n raw. fmlookup props n = Some raw \<longrightarrow>
       (\<exists>d \<in> set (present_definitions (schema_definitions s)). def_name d = n \<and>
          PropertyAppliesTo d t \<and> propertyValueIssue lib d raw = None))"
proof -
  have "pr_invalid (Interpret lib s k props) = [] \<longleftrightarrow>
      (\<forall>i. i \<notin> set (pr_invalid (Interpret lib s k props)))"
    by (cases "pr_invalid (Interpret lib s k props)") auto
  also have "\<dots> \<longleftrightarrow> (\<forall>n raw. fmlookup props n = Some raw \<longrightarrow> issue_in lib s k t n raw = None)"
    unfolding Interpret_known(2) [OF assms(1)] not_Some_eq [symmetric] by metis
  finally show ?thesis unfolding issue_in_None [OF assms(2)] .
qed

lemma map_issue_property:
  "(\<And>n i. io n = Some i \<Longrightarrow> issue_property i = n) \<Longrightarrow>
     map issue_property (List.map_filter io ns) = filter (\<lambda>n. io n \<noteq> None) ns"
  by (induction ns) (auto simp: map_filter_simps split: option.splits)

lemma Interpret_issue_names:
  assumes "fmlookup (schema_types s) k = Some t"
  shows "map issue_property (pr_invalid (Interpret lib s k props)) =
    filter (\<lambda>n. issue_in lib s k t n (prop_of props n) \<noteq> None) (sortedPropertyNames props)"
proof -
  have "pr_invalid (Interpret lib s k props) =
      List.map_filter (\<lambda>n. issue_in lib s k t n (prop_of props n)) (sortedPropertyNames props)"
    using assms by (simp add: Interpret_def Let_def case_prod_beta interpret_fold)
  then show ?thesis
    by (simp add: map_issue_property [OF property_issue_of_property])
qed

lemma result_accepted_known:
  assumes "fmlookup (schema_types s) k = Some t" "snd (definitionsByName s) = []"
  shows "result_accepted lib s k props graph \<longleftrightarrow>
    pr_invalid (Interpret lib s k props) = [] \<and>
    (\<forall>d \<in> set (present_definitions (schema_definitions s)).
       PropertyAppliesTo d t \<longrightarrow> definition_ok lib t props graph d) \<and>
    parent_ok lib s t (prop_of props parentIDName) graph"
  unfolding Interpret_clean_iff [OF assms] using assms definitionsByName_failures [of s]
  unfolding result_accepted_def Let_def by simp

lemma ValidateResult_clean:
  assumes "fmlookup (schema_types s) k = Some t" "snd (definitionsByName s) = []"
    and "pr_invalid (Interpret lib s k props) = []"
  shows "ValidateResult lib s k props graph = validate_parent lib s t props graph
    (fold (validate_definition lib t (\<lambda>_. False) graph) (sortedDefinitions s) (Interpret lib s k props))"
  unfolding ValidateResult_def Let_def using assms Interpret_known(3) [OF assms(1), of lib props]
  by simp

lemma validate_parent_grows:
  "pr_invalid (validate_parent lib s t props graph r) = [] \<Longrightarrow> pr_invalid r = []"
  by (auto simp: validate_parent_def split: sum.splits option.splits)

lemma ValidateResult_grows:
  assumes "pr_invalid (ValidateResult lib s k props graph) = []"
  shows "pr_invalid (Interpret lib s k props) = []"
proof (rule ccontr)
  assume n: "pr_invalid (Interpret lib s k props) \<noteq> []"
  have "pr_invalid (fold (validate_definition lib t rej graph) ds (Interpret lib s k props)) \<noteq> []"
    for t rej ds
    using n fold_validate_grows by blast
  moreover from this have "pr_invalid (validate_parent lib s t props graph
      (fold (validate_definition lib t rej graph) ds (Interpret lib s k props))) \<noteq> []" for t rej ds
    using validate_parent_grows by blast
  ultimately show False
    using assms n unfolding ValidateResult_def Let_def by (auto split: option.splits if_splits)
qed

lemma Interpret_issue_set:
  assumes "fmlookup (schema_types s) k = Some t"
  shows "issue_property ` set (pr_invalid (Interpret lib s k props)) =
    {n \<in> fmdom' props. issue_in lib s k t n (prop_of props n) \<noteq> None}"
  using arg_cong [OF Interpret_issue_names [OF assms, of lib props], of set] by auto

lemma Interpret_valid_lookup:
  assumes "fmlookup (schema_types s) k = Some t"
  shows "fmlookup (pr_valid (Interpret lib s k props)) n = (if n \<in> fmdom' props \<and>
    issue_in lib s k t n (prop_of props n) = None then Some (prop_of props n) else None)"
  unfolding Interpret_known(1) [OF assms]
  by (auto simp: prop_of_def fmlookup_dom'_iff split: option.splits)

lemma Interpret_valid_dom:
  assumes "fmlookup (schema_types s) k = Some t"
  shows "fmdom' (pr_valid (Interpret lib s k props)) =
    {n \<in> fmdom' props. issue_in lib s k t n (prop_of props n) = None}"
  by (auto simp: fmlookup_dom'_iff Interpret_valid_lookup [OF assms] split: if_splits)

lemma Interpret_valid_subset:
  assumes "fmlookup (schema_types s) k = Some t"
  shows "pr_valid (Interpret lib s k props) \<subseteq>\<^sub>f props"
  by (auto simp: fmsubset_alt_def fmpred_iff Interpret_valid_lookup [OF assms] prop_of_def
      fmlookup_dom'_iff split: if_splits)

lemma Interpret_issue_order:
  assumes "fmlookup (schema_types s) k = Some t"
  shows "sorted (map issue_property (pr_invalid (Interpret lib s k props)))"
    and "distinct (map issue_property (pr_invalid (Interpret lib s k props)))"
  unfolding Interpret_issue_names [OF assms]
  by (simp_all add: sorted_wrt_filter sortedPropertyNames_def)

section \<open>Properties\<close>

lemma ValidateResult_accepts:
  "property_result_err (ValidateResult lib s k props graph) = Inr () \<longleftrightarrow>
     result_accepted lib s k props graph \<and> pr_valid (ValidateResult lib s k props graph) = props"
proof (cases "fmlookup (schema_types s) k")
  case None
  then show ?thesis
    by (simp add: ValidateResult_def Interpret_def property_result_err_def result_accepted_def)
next
  case (Some t)
  let ?r = "Interpret lib s k props" and ?ds = "sortedDefinitions s"
  let ?R = "ValidateResult lib s k props graph"
  have err: "property_result_err R = Inr () \<longleftrightarrow> pr_invalid R = [] \<and> pr_failures R = []" for R
    by (simp add: property_result_err_def)
  note fail = Interpret_known(3) [OF Some, of lib props]
  show ?thesis
  proof (cases "snd (definitionsByName s) = []")
    case False
    then show ?thesis
      using Some fail definitionsByName_failures [of s]
      by (simp add: ValidateResult_def err result_accepted_def)
  next
    case nofail: True
    let ?f = "fold (validate_definition lib t (\<lambda>_. False) graph) ?ds ?r"
    note acc = result_accepted_known [OF Some nofail, of lib props graph]
    show ?thesis
    proof (cases "pr_invalid ?r = []")
      case True
      note R = ValidateResult_clean [OF Some nofail True, of graph]
      have v: "pr_valid ?r = props" using Interpret_clean [OF Some True] .
      have iff: "property_result_err ?R = Inr () \<longleftrightarrow> pr_invalid ?f = [] \<and>
          parent_ok lib s t (prop_of props parentIDName) graph"
        unfolding err R validate_parent_accepts fold_validate_failures using fail nofail by simp
      then have "property_result_err ?R = Inr () \<longleftrightarrow> result_accepted lib s k props graph"
        unfolding acc validate_definitions_accept(1) [OF True] v using True by simp
      moreover have "pr_valid ?R = props" if "property_result_err ?R = Inr ()"
      proof -
        have p: "pr_invalid ?f = []" "parent_ok lib s t (prop_of props parentIDName) graph"
          using that iff by auto
        have "?f = ?r" using validate_definitions_accept(2) [OF True p(1)] .
        then show ?thesis
          unfolding R using v p(2) by (simp add: validate_parent_def flip: parentReason_None)
      qed
      ultimately show ?thesis by blast
    next
      case False
      then show ?thesis using ValidateResult_grows [of lib s k props graph] acc err by blast
    qed
  qed
qed


text \<open>
  C38: \<open>Interpret\<close> partitions the properties of a node of a known type: each property is either
  accepted with its value unchanged or rejected with exactly one issue, never both, nothing else is
  reported, and issues are listed in name order.
\<close>

theorem Interpret_partition:
  assumes "fmlookup (schema_types s) k = Some t"
  shows "fmdom' props = fmdom' (pr_valid (Interpret lib s k props)) \<union>
      issue_property ` set (pr_invalid (Interpret lib s k props)) \<and>
    fmdom' (pr_valid (Interpret lib s k props)) \<inter>
      issue_property ` set (pr_invalid (Interpret lib s k props)) = {} \<and>
    pr_valid (Interpret lib s k props) \<subseteq>\<^sub>f props \<and>
    sorted (map issue_property (pr_invalid (Interpret lib s k props))) \<and>
    distinct (map issue_property (pr_invalid (Interpret lib s k props)))"
  unfolding Interpret_issue_set [OF assms] Interpret_valid_dom [OF assms]
  using Interpret_issue_order [OF assms] Interpret_valid_subset [OF assms] by auto

theorem Interpret_partition_witness:
  "sorted (map issue_property (pr_invalid (Interpret sample_lib sample_schema ''task''
     (fmupd ''x'' raw_nil fmempty))))"
  using Interpret_partition [of sample_schema "''task''" "sample_type ''task''"]
  by (simp add: sample_schema_def)

end
