(* ===== verification/Search_Text.thy ===== *)
theory Search_Text
  imports Property_Schema
begin

text \<open>
  The searchable text of a node (\<open>internal/domain/node/search_projection.go\<close>,
  \<open>search_projection_default.go\<close>, \<open>search_projection_emit.go\<close>, \<open>search_diagnostic.go\<close> and
  \<open>content.go\<close>): validation of text rules, the projection of a definition, the leaves that a rule
  extracts from a value, and the rendering of a node with its diagnostics. A nil pointer that the
  code would follow is the error \<open>Panic\<close>.
\<close>

section \<open>Text rules\<close>

definition maxTextRuleDepth :: nat where
  "maxTextRuleDepth = 8"

definition validateScalarRule :: "text_rule \<Rightarrow> bool" where
  "validateScalarRule r \<longleftrightarrow> rule_fields r = [] \<and> rule_items r = None \<and> rule_labels r = fmempty"

definition validateLabelsRule :: "text_rule \<Rightarrow> bool" where
  "validateLabelsRule r \<longleftrightarrow>
     rule_labels r \<noteq> fmempty \<and> rule_fields r = [] \<and> rule_items r = None \<and>
     fBall (fmdom (rule_labels r)) (\<lambda>key. trim_space key \<noteq> []) \<and>
     fBall (fmran (rule_labels r)) (\<lambda>value. trim_space value \<noteq> [])"

fun validate_rule :: "nat \<Rightarrow> text_rule \<Rightarrow> bool"
  and validate_fields :: "nat \<Rightarrow> string set \<Rightarrow> (string \<times> text_rule) list \<Rightarrow> bool" where
  "validate_rule depth (TextRule mode rfields items labels) \<longleftrightarrow>
     depth \<le> maxTextRuleDepth \<and>
     (case mode of
        TextRuleScalar \<Rightarrow> validateScalarRule (TextRule mode rfields items labels)
      | TextRuleObject \<Rightarrow>
          rfields \<noteq> [] \<and> items = None \<and> labels = fmempty \<and> validate_fields depth {} rfields
      | TextRuleItems \<Rightarrow>
          rfields = [] \<and> labels = fmempty \<and>
          (case items of None \<Rightarrow> False | Some item \<Rightarrow> validate_rule (depth + 1) item)
      | TextRuleLabels \<Rightarrow> validateLabelsRule (TextRule mode rfields items labels)
      | TextRuleOther _ \<Rightarrow> False)"
| "validate_fields depth seen [] \<longleftrightarrow> True"
| "validate_fields depth seen ((key, rule) # rfields) \<longleftrightarrow>
     trim_space key \<noteq> [] \<and> key \<notin> seen \<and> validate_rule (depth + 1) rule \<and>
     validate_fields depth (insert key seen) rfields"

definition projection_valid :: "search_projection \<Rightarrow> bool" where
  "projection_valid p \<longleftrightarrow> \<not> proj_order p < 0 \<and> validate_rule 0 (proj_rule p)"

section \<open>The projection of a definition\<close>

datatype render_error =
    InvalidSearchProjection
  | SchemaRead
  | InvalidValue string
  | Panic

definition defaultSearchOrder :: int where
  "defaultSearchOrder = 2 ^ 20"

definition optionLabels :: "enum_option list \<Rightarrow> (string, string) fmap" where
  "optionLabels opts =
     fold (\<lambda>opt labels.
       fmupd (opt_key opt) (if trim_space (opt_label opt) = [] then opt_key opt else opt_label opt) labels)
     opts fmempty"

definition EffectiveSearchProjection :: "property_def \<Rightarrow> render_error + search_projection" where
  "EffectiveSearchProjection d =
     (case search d of
        Some p \<Rightarrow> Inr p
      | None \<Rightarrow>
         (let scalar = TextRule TextRuleScalar [] None fmempty;
              labels = TextRule TextRuleLabels [] None (optionLabels (options d));
              items = TextRule TextRuleItems [] (Some labels) fmempty;
              project = (\<lambda>incl rule.
                Inr \<lparr>proj_include = incl, proj_order = defaultSearchOrder, proj_rule = rule\<rparr>) in
          if reference_target_type_key d \<noteq> [] then project False scalar
          else case def_type d of
            PropertyTypeText \<Rightarrow> project True scalar
          | PropertyTypeURL \<Rightarrow> project True scalar
          | PropertyTypeNumber \<Rightarrow> project True scalar
          | PropertyTypeDate \<Rightarrow> project True scalar
          | PropertyTypeTimestamp \<Rightarrow> project True scalar
          | PropertyTypeSelect \<Rightarrow> project True labels
          | PropertyTypeMultiSelect \<Rightarrow> project True items
          | PropertyTypeCheckbox \<Rightarrow> project False scalar
          | PropertyTypeUUID \<Rightarrow> project False scalar
          | PropertyTypeOther _ \<Rightarrow> Inl InvalidSearchProjection))"

section \<open>Leaves\<close>

fun scalarLeaf :: "json \<Rightarrow> render_error + string list" where
  "scalarLeaf (JStr s) = Inr [s]"
| "scalarLeaf (JBool b) = Inr [if b then ''true'' else ''false'']"
| "scalarLeaf JNull = Inl (InvalidValue ''the value is null'')"
| "scalarLeaf (JNum n) = Inr [n]"
| "scalarLeaf (JArr _) = Inl (InvalidValue ''the value is not a scalar'')"
| "scalarLeaf (JObj _) = Inl (InvalidValue ''the value is not a scalar'')"

definition labelLeaf :: "json \<Rightarrow> (string, string) fmap \<Rightarrow> render_error + string list" where
  "labelLeaf v labels =
     (case json_string v of
        None \<Rightarrow> Inl (InvalidValue ''the label value is not a string'')
      | Some label \<Rightarrow>
          (case fmlookup labels label of
             None \<Rightarrow> Inl (InvalidValue ''the text rule does not declare a label for the value'')
           | Some value \<Rightarrow> Inr [value]))"

text \<open>A later member of an object, or a later field of a rule, replaces an earlier one.\<close>

definition last_of :: "(string \<times> 'a) list \<Rightarrow> string \<Rightarrow> 'a option" where
  "last_of members key = map_of (rev members) key"

definition orderedKeys :: "(string \<times> 'a) list \<Rightarrow> string list" where
  "orderedKeys members = sort (remdups (map fst members))"

lemma mapE_cong [fundef_cong]:
  "xs = ys \<Longrightarrow> (\<And>x. x \<in> set ys \<Longrightarrow> f x = g x) \<Longrightarrow> mapE f xs = mapE g ys"
proof (induction ys arbitrary: xs)
  case (Cons y ys)
  then have "mapE f ys = mapE g ys" "f y = g y" by auto
  then show ?case using Cons.prems(1) by simp
qed simp

lemma last_of_size:
  assumes "last_of rfields key = Some (rule :: text_rule)"
  shows "size rule < size (TextRule mode rfields items labels)"
proof -
  have "(key, rule) \<in> set rfields"
    using map_of_SomeD [OF assms [unfolded last_of_def]] by simp
  then have "size rule \<le> size_list (size_prod (\<lambda>_. 0) size) rfields"
    by (rule size_list_estimation') simp
  then show ?thesis by simp
qed

lemma item_size: "size rule < size (TextRule mode rfields (Some rule) labels)"
  by simp

function extractRuleLeaves :: "json \<Rightarrow> text_rule \<Rightarrow> render_error + string list" where
  "extractRuleLeaves v (TextRule mode rfields items labels) =
     (case mode of
        TextRuleScalar \<Rightarrow> scalarLeaf v
      | TextRuleItems \<Rightarrow>
          (case v of
             JArr vs \<Rightarrow>
               bindE (mapE (\<lambda>item. case items of
                   None \<Rightarrow> Inl Panic
                 | Some rule \<Rightarrow> extractRuleLeaves item rule) vs) (\<lambda>leaves. Inr (concat leaves))
           | _ \<Rightarrow> Inl (InvalidValue ''the value is not a list''))
      | TextRuleObject \<Rightarrow>
          (case v of
             JObj members \<Rightarrow>
               if \<exists>key \<in> set (map fst members). last_of rfields key = None
               then Inl (InvalidValue
                 ''the object contains a field outside the text rule's declaration'')
               else bindE (mapE (\<lambda>key. case (last_of members key, last_of rfields key) of
                   (Some member, Some rule) \<Rightarrow> extractRuleLeaves member rule
                 | _ \<Rightarrow> Inl Panic) (orderedKeys members)) (\<lambda>leaves. Inr (concat leaves))
           | _ \<Rightarrow> Inl (InvalidValue ''the value is not an object''))
      | TextRuleLabels \<Rightarrow> labelLeaf v labels
      | TextRuleOther _ \<Rightarrow> Inl (InvalidValue ''the text rule uses an unknown mode''))"
  by pat_completeness auto
termination
  by (relation "measure (size \<circ> snd)") (auto intro: last_of_size item_size simp del: text_rule.size)

definition extractProjectedLeaves :: "raw \<Rightarrow> text_rule \<Rightarrow> render_error + string list" where
  "extractProjectedLeaves raw rule =
     (case enc_value raw of
        None \<Rightarrow> Inl (InvalidValue ''the value is not valid JSON'')
      | Some v \<Rightarrow> extractRuleLeaves v rule)"

section \<open>Diagnostics\<close>

datatype diagnostic_reason = DiagnosticUndeclared | DiagnosticInapplicable | DiagnosticInvalidValue

record property_diagnostic =
  diag_org :: uuid
  diag_node :: uuid
  diag_property :: string
  diag_def :: uuid
  diag_revision :: string
  diag_projection_version :: string
  diag_reason :: diagnostic_reason
  diag_message :: string

fun issueDiagnosticReason :: "property_issue_code \<Rightarrow> diagnostic_reason \<times> string" where
  "issueDiagnosticReason PropertyIssueUndeclared =
     (DiagnosticUndeclared, ''the schema does not declare the property'')"
| "issueDiagnosticReason PropertyIssueNotApplicable =
     (DiagnosticInapplicable, ''the definition does not apply to this node type'')"
| "issueDiagnosticReason PropertyIssueOption =
     (DiagnosticInvalidValue, ''the value does not match a declared option'')"
| "issueDiagnosticReason PropertyIssueValue =
     (DiagnosticInvalidValue, ''the value does not satisfy the property definition'')"
| "issueDiagnosticReason PropertyIssueRequired =
     (DiagnosticInvalidValue, ''the required property needs a value'')"
| "issueDiagnosticReason PropertyIssueReference =
     (DiagnosticInvalidValue, ''the value does not identify a node of the declared type'')"
| "issueDiagnosticReason PropertyIssueParent =
     (DiagnosticInvalidValue, ''the parent does not meet the containment rules'')"

section \<open>Rendering\<close>

record search_source =
  source_org :: uuid
  source_node :: uuid
  source_type :: "node_type option"
  source_name :: string
  source_properties :: props
  source_definitions :: "property_def option list"

record search_render =
  render_text :: string
  render_diagnostics :: "property_diagnostic list"

record rendered_property =
  rendered_order :: int
  rendered_id :: uuid
  rendered_leaves :: "string list"

definition propertyDiagnostic ::
    "search_source \<Rightarrow> string \<Rightarrow> uuid \<Rightarrow> diagnostic_reason \<Rightarrow> string \<Rightarrow> property_diagnostic" where
  "propertyDiagnostic source name definitionID reason message =
     \<lparr>diag_org = source_org source, diag_node = source_node source, diag_property = name,
      diag_def = definitionID, diag_revision = [], diag_projection_version = [],
      diag_reason = reason, diag_message = message\<rparr>"

definition index_definition ::
    "property_def option \<Rightarrow> uuid set \<times> (string, property_def) fmap \<Rightarrow>
       render_error + uuid set \<times> (string, property_def) fmap" where
  "index_definition entry st =
     (let (seenIDs, byName) = st in
      case entry of
        None \<Rightarrow> Inl InvalidSearchProjection
      | Some d \<Rightarrow>
          if def_id d = uuid_nil \<or> def_name d = [] then Inl InvalidSearchProjection
          else if def_id d \<in> seenIDs then Inl InvalidSearchProjection
          else if fmlookup byName (def_name d) \<noteq> None then Inl InvalidSearchProjection
          else
            let st' = (insert (def_id d) seenIDs, fmupd (def_name d) d byName) in
            (case search d of
               None \<Rightarrow> Inr st'
             | Some p \<Rightarrow>
                 if proj_order p < 0 then Inl InvalidSearchProjection
                 else if \<not> validate_rule 0 (proj_rule p) then Inl InvalidSearchProjection
                 else Inr st'))"

definition indexSearchDefinitions ::
    "property_def option list \<Rightarrow> render_error + (string, property_def) fmap" where
  "indexSearchDefinitions definitions =
     bindE (foldE index_definition definitions ({}, fmempty)) (\<lambda>(_, byName). Inr byName)"

definition issue_diagnostic ::
    "search_source \<Rightarrow> (string, property_def) fmap \<Rightarrow> property_issue \<Rightarrow> property_diagnostic" where
  "issue_diagnostic source definitions issue =
     (let definitionID = (case fmlookup definitions (issue_property issue) of
            None \<Rightarrow> uuid_nil
          | Some d \<Rightarrow> def_id d);
          (reason, message) = issueDiagnosticReason (issue_code issue) in
      propertyDiagnostic source (issue_property issue) definitionID reason message)"

definition render_property ::
    "search_source \<Rightarrow> (string, property_def) fmap \<Rightarrow> string \<Rightarrow>
       property_diagnostic list \<times> rendered_property list \<Rightarrow>
       render_error + property_diagnostic list \<times> rendered_property list" where
  "render_property source definitions name st =
     (let (diagnostics, rendered) = st in
      case fmlookup definitions name of
        None \<Rightarrow> Inl Panic
      | Some d \<Rightarrow>
          bindE (EffectiveSearchProjection d) (\<lambda>projection.
          if \<not> proj_include projection then Inr (diagnostics, rendered)
          else
            (case extractProjectedLeaves (prop_of (source_properties source) name)
                    (proj_rule projection) of
               Inl (InvalidValue message) \<Rightarrow>
                 Inr (diagnostics @ [propertyDiagnostic source name (def_id d)
                        DiagnosticInvalidValue message], rendered)
             | Inl err \<Rightarrow> Inl err
             | Inr leaves \<Rightarrow>
                 Inr (diagnostics,
                   rendered @ [\<lparr>rendered_order = proj_order projection, rendered_id = def_id d,
                                rendered_leaves = leaves\<rparr>]))))"

definition newline :: string where
  "newline = [char_of (10 :: nat)]"

definition joinRenderedText :: "lib \<Rightarrow> string \<Rightarrow> rendered_property list \<Rightarrow> string" where
  "joinRenderedText lib name rendered =
     name @ newline @
     concat (map (\<lambda>p. concat (map (\<lambda>leaf. leaf @ newline) (rendered_leaves p)))
       (sort_key (\<lambda>p. (rendered_order p, lib_uuid_string lib (rendered_id p))) rendered))"

definition source_schema :: "search_source \<Rightarrow> node_type \<Rightarrow> schema" where
  "source_schema source t =
     \<lparr>schema_org = source_org source, schema_types = fmupd (type_key t) t fmempty,
      schema_definitions = source_definitions source\<rparr>"

definition renderSearchText :: "lib \<Rightarrow> search_source \<Rightarrow> render_error + search_render" where
  "renderSearchText lib source =
     (case source_type source of
        None \<Rightarrow> Inl InvalidSearchProjection
      | Some t \<Rightarrow>
          bindE (indexSearchDefinitions (source_definitions source)) (\<lambda>definitions.
          let result = Interpret lib (source_schema source t) (type_key t) (source_properties source) in
          if pr_failures result \<noteq> [] then Inl SchemaRead
          else
            bindE (foldE (render_property source definitions)
                (sorted_list_of_fset (fmdom (pr_valid result)))
                (map (issue_diagnostic source definitions) (pr_invalid result), []))
              (\<lambda>(diagnostics, rendered).
            Inr \<lparr>render_text = joinRenderedText lib (source_name source) rendered,
                 render_diagnostics = sort_key diag_property diagnostics\<rparr>)))"

section \<open>Validated rules extract without panic\<close>

lemma mapE_Inl: "mapE f xs = Inl e \<Longrightarrow> \<exists>x \<in> set xs. f x = Inl e"
  by (induction xs) (auto simp: bindE_eq_Inl)

lemma validate_fields_rule:
  "validate_fields depth seen rfields \<Longrightarrow> (key, rule) \<in> set rfields \<Longrightarrow> validate_rule (depth + 1) rule"
  by (induction rfields arbitrary: seen) auto

lemma scalarLeaf_error: "scalarLeaf v = Inl e \<Longrightarrow> \<exists>m. e = InvalidValue m"
  by (cases v) auto

lemma labelLeaf_error: "labelLeaf v labels = Inl e \<Longrightarrow> \<exists>m. e = InvalidValue m"
  by (auto simp: labelLeaf_def split: option.splits)

lemma last_of_mem: "key \<in> fst ` set members \<Longrightarrow> \<exists>v. last_of members key = Some v"
  unfolding last_of_def by (metis domD dom_map_of_conv_image_fst image_set set_rev)

lemma last_of_in: "last_of members key = Some v \<Longrightarrow> (key, v) \<in> set members"
  unfolding last_of_def by (drule map_of_SomeD) simp

lemma extract_items_error:
  assumes "\<And>v e. extractRuleLeaves v rule = Inl e \<Longrightarrow> \<exists>m. e = InvalidValue m"
    and "extractRuleLeaves v (TextRule TextRuleItems rfields (Some rule) labels) = Inl e"
  shows "\<exists>m. e = InvalidValue m"
  using assms by (auto simp: bindE_eq_Inl dest!: mapE_Inl split: json.splits)

lemma extractRuleLeaves_error:
  "validate_rule depth rule \<Longrightarrow> extractRuleLeaves v rule = Inl e \<Longrightarrow> \<exists>m. e = InvalidValue m"
proof (induction v rule arbitrary: depth e rule: extractRuleLeaves.induct)
  case (1 v mode rfields items labels)
  show ?case
  proof (cases mode)
    case TextRuleItems
    with 1 show ?thesis
      by (auto simp: bindE_eq_Inl dest!: mapE_Inl split: json.splits option.splits)
  next
    case TextRuleObject
    show ?thesis
    proof (cases "\<exists>members. v = JObj members \<and> (\<forall>key \<in> fst ` set members. last_of rfields key \<noteq> None)")
      case True
      then obtain members where v: "v = JObj members"
        and known: "\<forall>key \<in> fst ` set members. last_of rfields key \<noteq> None" by auto
      with 1(4) TextRuleObject obtain key where key: "key \<in> set (orderedKeys members)"
        and err: "(case (last_of members key, last_of rfields key) of
            (Some member, Some rule) \<Rightarrow> extractRuleLeaves member rule | _ \<Rightarrow> Inl Panic) = Inl e"
        by (auto simp: bindE_eq_Inl dest!: mapE_Inl split: if_splits)
      from key have "key \<in> fst ` set members" by (simp add: orderedKeys_def)
      with known last_of_mem obtain member rule where
        m: "last_of members key = Some member" and r: "last_of rfields key = Some rule" by blast
      have "validate_rule (depth + 1) rule"
        using 1(3) TextRuleObject last_of_in [OF r] validate_fields_rule by (auto simp del: One_nat_def)
      moreover have "extractRuleLeaves member rule = Inl e" using err m r by simp
      ultimately show ?thesis
        using 1(1) [OF TextRuleObject v _ key refl m r] known by auto
    next
      case False
      with 1(4) TextRuleObject show ?thesis by (auto split: json.splits if_splits)
    qed
  qed (use 1 in \<open>auto dest: scalarLeaf_error labelLeaf_error\<close>)
qed

lemma effective_projection_error:
  assumes "EffectiveSearchProjection d = Inr p" "\<And>q. search d = Some q \<Longrightarrow> projection_valid q"
    and "extractProjectedLeaves raw (proj_rule p) = Inl e"
  shows "\<exists>m. e = InvalidValue m"
proof (cases "search d")
  case (Some q)
  with assms have "validate_rule 0 (proj_rule p)"
    by (simp add: EffectiveSearchProjection_def projection_valid_def)
  with assms(3) show ?thesis
    by (auto simp: extractProjectedLeaves_def dest: extractRuleLeaves_error split: option.splits)
next
  case None
  have leaf: "\<exists>m. e = InvalidValue m" if "extractRuleLeaves v (TextRule TextRuleLabels fs it ls) = Inl e"
    for v fs it ls e
    using that by (auto dest: labelLeaf_error)
  have rules: "(\<exists>fs it ls. proj_rule p = TextRule TextRuleScalar fs it ls) \<or>
      (\<exists>fs it ls. proj_rule p = TextRule TextRuleLabels fs it ls) \<or>
      (\<exists>fs it ls fs' ls'.
         proj_rule p = TextRule TextRuleItems fs' (Some (TextRule TextRuleLabels fs it ls)) ls')"
    using None assms(1) unfolding EffectiveSearchProjection_def Let_def
    by (cases "reference_target_type_key d = []"; cases "def_type d") auto
  have "\<exists>m. e = InvalidValue m" if ex: "extractRuleLeaves v (proj_rule p) = Inl e" for v
    using rules
  proof (elim disjE exE)
    fix fs it ls assume "proj_rule p = TextRule TextRuleScalar fs it ls"
    with ex show ?thesis by (auto dest: scalarLeaf_error)
  next
    fix fs it ls assume "proj_rule p = TextRule TextRuleLabels fs it ls"
    from ex [unfolded this] show ?thesis by (rule leaf)
  next
    fix fs it ls fs' ls'
    assume "proj_rule p = TextRule TextRuleItems fs' (Some (TextRule TextRuleLabels fs it ls)) ls'"
    from ex [unfolded this] show ?thesis by (rule extract_items_error [rotated]) (rule leaf)
  qed
  with assms(3) show ?thesis by (auto simp: extractProjectedLeaves_def split: option.splits)
qed

section \<open>Facts about rendering\<close>

lemma index_definition_error: "index_definition entry st = Inl e \<Longrightarrow> e = InvalidSearchProjection"
  by (auto simp: index_definition_def Let_def split: prod.splits option.splits if_splits)

lemma foldE_Inl: "foldE f xs s = Inl e \<Longrightarrow> \<exists>x \<in> set xs. \<exists>t. f x t = Inl e"
  by (induction xs arbitrary: s) (auto simp: bindE_eq_Inl)

lemma indexSearchDefinitions_error: "indexSearchDefinitions es = Inl e \<Longrightarrow> e = InvalidSearchProjection"
  by (auto simp: indexSearchDefinitions_def bindE_eq_Inl dest!: foldE_Inl index_definition_error)

lemma index_definition_Inr:
  assumes "index_definition e (seen, m) = Inr st"
  obtains d where "e = Some d" "fmlookup m (def_name d) = None"
    "st = (insert (def_id d) seen, fmupd (def_name d) d m)"
    "\<forall>p. search d = Some p \<longrightarrow> projection_valid p"
  using assms
  by (auto simp: index_definition_def projection_valid_def Let_def split: option.splits if_splits)

lemma index_fold:
  assumes "foldE index_definition es (seen, m) = Inr (seen', m')"
  shows "(\<forall>n. fmlookup m' n = (case fmlookup m n of
        Some d \<Rightarrow> Some d
      | None \<Rightarrow> map_of (map (\<lambda>d. (def_name d, d)) (present_definitions es)) n)) \<and>
    distinct (map def_name (present_definitions es)) \<and>
    (\<forall>d \<in> set (present_definitions es). fmlookup m (def_name d) = None \<and>
       (\<forall>p. search d = Some p \<longrightarrow> projection_valid p))"
  using assms
proof (induction es arbitrary: seen m)
  case (Cons e es)
  from Cons.prems obtain st where st: "index_definition e (seen, m) = Inr st"
    "foldE index_definition es st = Inr (seen', m')"
    by (auto simp: err_simps)
  from st(1) obtain d where e: "e = Some d" and new: "fmlookup m (def_name d) = None"
    and st': "st = (insert (def_id d) seen, fmupd (def_name d) d m)"
    and proj: "\<forall>p. search d = Some p \<longrightarrow> projection_valid p"
    by (rule index_definition_Inr)
  note rest = st(2) [unfolded st']
  from Cons.IH [OF rest] e new proj show ?case by (auto split: option.splits if_splits)
qed (auto split: option.splits)

lemma source_schema_type [simp]: "fmlookup (schema_types (source_schema source t)) (type_key t) = Some t"
  by (simp add: source_schema_def)

lemma index_ok:
  assumes "indexSearchDefinitions (source_definitions source) = Inr defs"
  shows "fmlookup defs n = fmlookup (fst (definitionsByName (source_schema source t))) n"
    and "snd (definitionsByName (source_schema source t)) = []"
    and "fmlookup defs n = Some d \<Longrightarrow> search d = Some p \<Longrightarrow> projection_valid p"
proof -
  from assms obtain seen where
    f: "foldE index_definition (source_definitions source) ({}, fmempty) = Inr (seen, defs)"
    by (auto simp: indexSearchDefinitions_def err_simps)
  note facts = index_fold [OF f]
  show "fmlookup defs n = fmlookup (fst (definitionsByName (source_schema source t))) n"
    using facts by (simp add: definitionsByName_lookup source_schema_def)
  show "snd (definitionsByName (source_schema source t)) = []"
    using facts by (simp add: definitionsByName_failures source_schema_def)
  show "fmlookup defs n = Some d \<Longrightarrow> search d = Some p \<Longrightarrow> projection_valid p"
    using facts by (auto dest!: map_of_SomeD)
qed

text \<open>The diagnostic of a value that its rule cannot render, and the rendered property otherwise.\<close>

definition extraction_diagnostic ::
    "search_source \<Rightarrow> (string, property_def) fmap \<Rightarrow> string \<Rightarrow> property_diagnostic option" where
  "extraction_diagnostic source defs n =
     (case fmlookup defs n of
        None \<Rightarrow> None
      | Some d \<Rightarrow>
          (case EffectiveSearchProjection d of
             Inl _ \<Rightarrow> None
           | Inr p \<Rightarrow>
               if \<not> proj_include p then None
               else (case extractProjectedLeaves (prop_of (source_properties source) n) (proj_rule p) of
                  Inl (InvalidValue m) \<Rightarrow>
                    Some (propertyDiagnostic source n (def_id d) DiagnosticInvalidValue m)
                | _ \<Rightarrow> None)))"

definition rendered_of ::
    "search_source \<Rightarrow> (string, property_def) fmap \<Rightarrow> string \<Rightarrow> rendered_property option" where
  "rendered_of source defs n =
     (case fmlookup defs n of
        None \<Rightarrow> None
      | Some d \<Rightarrow>
          (case EffectiveSearchProjection d of
             Inl _ \<Rightarrow> None
           | Inr p \<Rightarrow>
               if \<not> proj_include p then None
               else (case extractProjectedLeaves (prop_of (source_properties source) n) (proj_rule p) of
                  Inl _ \<Rightarrow> None
                | Inr leaves \<Rightarrow>
                    Some \<lparr>rendered_order = proj_order p, rendered_id = def_id d,
                          rendered_leaves = leaves\<rparr>)))"

lemma render_property_Inr:
  assumes "render_property source defs n (ds, rs) = Inr st"
  shows "st = (ds @ List.map_filter (extraction_diagnostic source defs) [n],
    rs @ List.map_filter (rendered_of source defs) [n])"
proof (cases "fmlookup defs n")
  case (Some d)
  show ?thesis
  proof (cases "EffectiveSearchProjection d")
    case (Inr p)
    show ?thesis
    proof (cases "extractProjectedLeaves (prop_of (source_properties source) n) (proj_rule p)")
      case (Inl e)
      then show ?thesis
        using assms Some Inr
        by (cases "proj_include p"; cases e)
          (simp_all add: render_property_def extraction_diagnostic_def rendered_of_def map_filter_simps)
    next
      case leaves: (Inr leaves)
      then show ?thesis
        using assms Some Inr
        by (cases "proj_include p")
          (simp_all add: render_property_def extraction_diagnostic_def rendered_of_def map_filter_simps)
    qed
  qed (use assms Some in \<open>simp add: render_property_def\<close>)
qed (use assms in \<open>simp add: render_property_def\<close>)

lemma render_fold_Inr:
  "foldE (render_property source defs) ns (ds, rs) = Inr (ds', rs') \<Longrightarrow>
     ds' = ds @ List.map_filter (extraction_diagnostic source defs) ns \<and>
     rs' = rs @ List.map_filter (rendered_of source defs) ns"
proof (induction ns arbitrary: ds rs)
  case (Cons n ns)
  then obtain st where "render_property source defs n (ds, rs) = Inr st"
    and rest: "foldE (render_property source defs) ns st = Inr (ds', rs')"
    by (auto simp: err_simps)
  note Cons.IH [OF rest [unfolded render_property_Inr [OF \<open>render_property source defs n (ds, rs) = Inr st\<close>]]]
  then show ?case
    by (cases "extraction_diagnostic source defs n"; cases "rendered_of source defs n")
      (simp_all add: map_filter_simps)
qed (simp add: map_filter_simps)

lemma render_property_error:
  assumes "render_property source defs n st = Inl e" "fmlookup defs n = Some d"
    and "\<And>p. search d = Some p \<Longrightarrow> projection_valid p"
  shows "EffectiveSearchProjection d = Inl e"
proof (cases "EffectiveSearchProjection d")
  case (Inr p)
  have "\<exists>m. e = InvalidValue m" if "extractProjectedLeaves raw (proj_rule p) = Inl e" for raw e
    by (rule effective_projection_error [OF Inr assms(3) that])
  then show ?thesis
    using assms(1,2) Inr
    by (cases st) (auto simp: render_property_def split: sum.splits if_splits render_error.splits)
qed (use assms in \<open>auto simp: render_property_def split: prod.splits\<close>)

lemma render_fold_iff:
  assumes "\<And>n. n \<in> set ns \<Longrightarrow> \<exists>d. fmlookup defs n = Some d"
    and "\<And>n d p. fmlookup defs n = Some d \<Longrightarrow> search d = Some p \<Longrightarrow> projection_valid p"
  shows "(\<exists>st'. foldE (render_property source defs) ns st = Inr st') \<longleftrightarrow>
    \<not> (\<exists>n \<in> set ns. \<exists>d e. fmlookup defs n = Some d \<and> EffectiveSearchProjection d = Inl e)"
  using assms(1)
proof (induction ns arbitrary: st)
  case (Cons n ns)
  obtain d where d: "fmlookup defs n = Some d" using Cons.prems by auto
  show ?case
  proof (cases "EffectiveSearchProjection d")
    case (Inl e)
    then show ?thesis using d by (auto simp: render_property_def split: prod.splits)
  next
    case (Inr p)
    then obtain st1 where "render_property source defs n st = Inr st1"
      using render_property_error [OF _ d] assms(2) [OF d]
      by (cases "render_property source defs n st") auto
    then show ?thesis using Cons d Inr by simp
  qed
qed simp

lemma EffectiveSearchProjection_error:
  "EffectiveSearchProjection d = Inl e \<longleftrightarrow>
     e = InvalidSearchProjection \<and> search d = None \<and> reference_target_type_key d = [] \<and>
     (\<exists>other. def_type d = PropertyTypeOther other)"
  by (auto simp: EffectiveSearchProjection_def Let_def split: option.splits property_type.splits)

lemma render_fold_error:
  assumes "foldE (render_property source defs) ns st = Inl e"
    and "\<And>n. n \<in> set ns \<Longrightarrow> \<exists>d. fmlookup defs n = Some d"
    and "\<And>n d p. fmlookup defs n = Some d \<Longrightarrow> search d = Some p \<Longrightarrow> projection_valid p"
  shows "e = InvalidSearchProjection"
proof -
  from foldE_Inl [OF assms(1)] obtain n st where n: "n \<in> set ns"
    "render_property source defs n st = Inl e" by auto
  from assms(2) [OF n(1)] obtain d where d: "fmlookup defs n = Some d" by auto
  from render_property_error [OF n(2) d assms(3) [OF d]] show ?thesis
    by (simp add: EffectiveSearchProjection_error)
qed

abbreviation interpreted :: "lib \<Rightarrow> search_source \<Rightarrow> node_type \<Rightarrow> property_result" where
  "interpreted lib source t \<equiv>
     Interpret lib (source_schema source t) (type_key t) (source_properties source)"

lemma valid_names_defined:
  assumes "indexSearchDefinitions (source_definitions source) = Inr defs"
    and "n \<in> set (sorted_list_of_fset (fmdom (pr_valid (interpreted lib source t))))"
  shows "\<exists>d. fmlookup defs n = Some d"
proof -
  have "issue_in lib (source_schema source t) (type_key t) t n
      (prop_of (source_properties source) n) = None"
    using assms(2) Interpret_valid_dom [OF source_schema_type, of lib source t "source_properties source"]
    by (auto simp: sorted_list_of_fset.rep_eq fmdom'_alt_def)
  then show ?thesis
    unfolding index_ok(1) [OF assms(1), of n t] by (auto simp: property_issue_of_def split: option.splits)
qed

lemma renderSearchText_known:
  assumes "source_type source = Some t" "indexSearchDefinitions (source_definitions source) = Inr defs"
  shows "renderSearchText lib source =
    bindE (foldE (render_property source defs)
        (sorted_list_of_fset (fmdom (pr_valid (interpreted lib source t))))
        (map (issue_diagnostic source defs) (pr_invalid (interpreted lib source t)), []))
      (\<lambda>(diagnostics, rendered).
        Inr \<lparr>render_text = joinRenderedText lib (source_name source) rendered,
             render_diagnostics = sort_key diag_property diagnostics\<rparr>)"
  using assms index_ok(2) [OF assms(2), of t] Interpret_known(3) [OF source_schema_type]
  by (simp add: renderSearchText_def Let_def)

lemma distinct_map_sort_key: "distinct (map f (sort_key f xs)) \<longleftrightarrow> distinct (map f xs)"
  by (simp add: distinct_map)

lemma diagnostic_names:
  "map diag_property (map (issue_diagnostic source defs) issues) = map issue_property issues"
  "map diag_property (List.map_filter (extraction_diagnostic source defs) ns) =
     filter (\<lambda>n. extraction_diagnostic source defs n \<noteq> None) ns"
proof -
  show "map diag_property (map (issue_diagnostic source defs) issues) = map issue_property issues"
    by (simp add: issue_diagnostic_def propertyDiagnostic_def Let_def split: prod.split)
  have "diag_property x = n" if "extraction_diagnostic source defs n = Some x" for n x
    using that by (auto simp: extraction_diagnostic_def propertyDiagnostic_def
        split: option.splits sum.splits if_splits render_error.splits)
  then show "map diag_property (List.map_filter (extraction_diagnostic source defs) ns) =
      filter (\<lambda>n. extraction_diagnostic source defs n \<noteq> None) ns"
    by (induction ns) (auto simp: map_filter_simps split: option.splits)
qed

text \<open>The properties that the text omits with a diagnostic.\<close>

definition omitted ::
    "lib \<Rightarrow> search_source \<Rightarrow> node_type \<Rightarrow> (string, property_def) fmap \<Rightarrow> string \<Rightarrow> bool" where
  "omitted lib source t defs n \<longleftrightarrow>
     issue_in lib (source_schema source t) (type_key t) t n (prop_of (source_properties source) n) \<noteq> None
     \<or> extraction_diagnostic source defs n \<noteq> None"

section \<open>Properties\<close>

text \<open>
  C36: \<open>RenderSearchText\<close> is total on well-formed metadata. It never follows a nil pointer: its only
  error is \<open>ErrInvalidSearchProjection\<close>, and it succeeds exactly when the node type is known, the
  definitions are complete, free of duplicates and of malformed rules, and no accepted property has
  an unknown type without a declaration. Values never make it fail.
\<close>

theorem renderSearchText_total:
  "renderSearchText lib source \<in> insert (Inl InvalidSearchProjection) (range Inr) \<and>
   (renderSearchText lib source \<in> range Inr \<longleftrightarrow>
     (\<exists>t defs. source_type source = Some t \<and>
        indexSearchDefinitions (source_definitions source) = Inr defs \<and>
        \<not> (\<exists>n d other. n \<in> fmdom' (pr_valid (interpreted lib source t)) \<and> fmlookup defs n = Some d \<and>
             def_type d = PropertyTypeOther other \<and> search d = None \<and>
             reference_target_type_key d = [])))"
proof (cases "source_type source")
  case None
  then show ?thesis by (auto simp: renderSearchText_def)
next
  case (Some t)
  show ?thesis
  proof (cases "indexSearchDefinitions (source_definitions source)")
    case (Inl e)
    then show ?thesis using Some indexSearchDefinitions_error [OF Inl] by (auto simp: renderSearchText_def)
  next
    case (Inr defs)
    let ?ns = "sorted_list_of_fset (fmdom (pr_valid (interpreted lib source t)))"
    let ?st = "(map (issue_diagnostic source defs) (pr_invalid (interpreted lib source t)), [])"
    note known = renderSearchText_known [OF Some Inr, of lib]
    have err: "renderSearchText lib source = Inl e \<Longrightarrow> e = InvalidSearchProjection" for e
      unfolding known bindE_eq_Inl
      by (auto split: prod.splits
          dest: render_fold_error [OF _ valid_names_defined [OF Inr] index_ok(3) [OF Inr]])
    have "renderSearchText lib source \<in> range Inr \<longleftrightarrow>
        (\<exists>st'. foldE (render_property source defs) ?ns ?st = Inr st')"
      unfolding known
      by (cases "foldE (render_property source defs) ?ns ?st") (auto split: prod.splits)
    also have "\<dots> \<longleftrightarrow> \<not> (\<exists>n \<in> set ?ns. \<exists>d e. fmlookup defs n = Some d \<and> EffectiveSearchProjection d = Inl e)"
      by (rule render_fold_iff [OF valid_names_defined [OF Inr] index_ok(3) [OF Inr]])
    also have "\<dots> \<longleftrightarrow> \<not> (\<exists>n d other. n \<in> fmdom' (pr_valid (interpreted lib source t)) \<and>
        fmlookup defs n = Some d \<and> def_type d = PropertyTypeOther other \<and> search d = None \<and>
        reference_target_type_key d = [])"
      unfolding EffectiveSearchProjection_error
      by (auto simp: sorted_list_of_fset.rep_eq fmdom'_alt_def)
    finally show ?thesis using err Some Inr by (cases "renderSearchText lib source") auto
  qed
qed


definition sample_source :: search_source where
  "sample_source =
     \<lparr>source_org = 1, source_node = 5, source_type = Some (sample_type ''task''),
      source_name = ''Fix'',
      source_properties = fmupd ''title'' (Enc [0x22, 0x61, 0x22] (Some (JStr ''a'')))
        (fmupd ''zz'' raw_nil fmempty),
      source_definitions = [Some (sample_definition 7 ''title'' PropertyTypeText)]\<rparr>"


end
