(* ===== verification/Audit_Event.thy ===== *)
theory Audit_Event
  imports Node_Types "HOL-Library.Multiset"
begin

text \<open>
  The audit event contract of \<open>internal/audit\<close>: the event record, the rules that
  \<open>ValidateEvent\<close> enforces for both event formats, the protected values of a delta, the field
  comparison that lists what a record change altered, and the construction of the change event
  that every store write records.
\<close>

section \<open>Event records\<close>

datatype actor_type =
    ActorUser
  | ActorService
  | ActorSystem
  | ActorToken
  | ActorOperator
  | ActorUnauthenticated
  | ActorOther string

record actor =
  act_type :: actor_type
  act_id :: uuid
  act_email :: string
  act_name :: string
  act_session :: string
  act_ip :: string
  act_user_agent :: string
  act_request :: string
  act_token_label :: string

record audit_entity =
  ent_kind :: string
  ent_node_type :: string
  ent_id :: uuid
  ent_identifier :: string
  ent_name :: string

text \<open>The empty operation class, phase and outcome are \<open>OperationOther []\<close> and so on.\<close>

datatype operation_class =
    OperationRead
  | OperationDatabaseChange
  | OperationExternal
  | OperationOther string

datatype event_phase =
    PhaseIntent
  | PhaseResult
  | PhaseChange
  | PhaseRead
  | PhaseOther string

datatype outcome =
    OutcomeOK
  | OutcomeError
  | OutcomePending
  | OutcomeUnrecorded
  | OutcomeCompleted
  | OutcomeRefused
  | OutcomeFailed
  | OutcomePartiallyCompleted
  | OutcomeIncomplete
  | OutcomeOther string

abbreviation TargetKindNode :: string where
  "TargetKindNode \<equiv> ''node''"

abbreviation TargetKindRelationship :: string where
  "TargetKindRelationship \<equiv> ''relationship''"

abbreviation TargetKindResource :: string where
  "TargetKindResource \<equiv> ''resource''"

abbreviation TargetKindExternal :: string where
  "TargetKindExternal \<equiv> ''external''"

record audit_target =
  tgt_kind :: string
  tgt_node_type :: string
  tgt_reference :: string
  tgt_name :: string
  tgt_uri :: string
  tgt_relation_type :: string
  tgt_id :: uuid
  tgt_source :: uuid
  tgt_target :: uuid
  tgt_owner :: uuid

record read_evidence =
  read_count :: "64 word"
  read_payload_sha256 :: string
  read_payload_format :: string
  read_manifest_sha256 :: string
  read_manifest_parts :: "32 word"

record read_selection =
  sel_reference :: string
  sel_criteria :: "(string, bytes) fmap"

record protected_value =
  pv_ref :: uuid
  pv_subject :: uuid
  pv_value :: bytes

record audit_delta =
  delta_before :: bytes
  delta_after :: bytes
  delta_changed :: "string list"

record event_error =
  err_code :: string
  err_message :: string

record event_context =
  ctx_org :: uuid
  ctx_workspace :: uuid
  ctx_scope :: uuid
  ctx_parent :: uuid
  ctx_request :: string
  ctx_trace :: string
  ctx_source :: string
  ctx_tool :: string
  ctx_rpc :: string
  ctx_reason :: string
  ctx_api_token :: uuid
  ctx_commit_version :: string
  ctx_format_version :: "16 word"
  ctx_operation_class :: operation_class
  ctx_phase :: event_phase
  ctx_operation :: uuid
  ctx_parent_operation :: uuid
  ctx_started_at :: timestamp
  ctx_completed_at :: timestamp
  ctx_target :: "audit_target option"
  ctx_read :: "read_evidence option"
  ctx_committed_steps :: "string list"
  ctx_selection :: "read_selection option"
  ctx_http_method :: string
  ctx_request_path :: string

record audit_event =
  ev_verb :: string
  ev_id :: uuid
  ev_actor :: actor
  ev_entity :: audit_entity
  ev_context :: event_context
  ev_delta :: "audit_delta option"
  ev_outcome :: outcome
  ev_error :: "event_error option"
  ev_idempotency_key :: string
  ev_occurred_at :: timestamp
  ev_extra :: bytes
  ev_protected :: "protected_value list"

record audit_change =
  chg_id :: uuid
  chg_target :: audit_target
  chg_before :: bytes
  chg_after :: bytes
  chg_changed :: "string list"
  chg_protected :: "protected_value list"

definition AuditFormatLegacy :: "16 word" where
  "AuditFormatLegacy = 0"

definition AuditFormatComplete :: "16 word" where
  "AuditFormatComplete = 2"

definition systemOrgID :: uuid where
  "systemOrgID = 0x5ee"

fun isTerminalOutcome :: "outcome \<Rightarrow> bool" where
  "isTerminalOutcome OutcomeCompleted = True"
| "isTerminalOutcome OutcomeRefused = True"
| "isTerminalOutcome OutcomeFailed = True"
| "isTerminalOutcome OutcomePartiallyCompleted = True"
| "isTerminalOutcome OutcomeIncomplete = True"
| "isTerminalOutcome _ = False"

fun allowedPhases :: "operation_class \<Rightarrow> event_phase list option" where
  "allowedPhases OperationRead = Some [PhaseRead]"
| "allowedPhases OperationDatabaseChange = Some [PhaseChange, PhaseResult]"
| "allowedPhases OperationExternal = Some [PhaseIntent, PhaseResult]"
| "allowedPhases (OperationOther _) = None"

fun actorKindCode :: "actor_type \<Rightarrow> nat" where
  "actorKindCode ActorUser = 1"
| "actorKindCode ActorService = 2"
| "actorKindCode ActorSystem = 3"
| "actorKindCode ActorToken = 4"
| "actorKindCode ActorOperator = 5"
| "actorKindCode ActorUnauthenticated = 6"
| "actorKindCode (ActorOther _) = 0"

section \<open>Hexadecimal digests\<close>

text \<open>\<open>hex.EncodeToString\<close> and \<open>hex.DecodeString\<close>.\<close>

definition hex_digit :: "nat \<Rightarrow> char" where
  "hex_digit n = char_of (if n < 10 then 48 + n else 87 + n)"

definition hex_value :: "char \<Rightarrow> nat option" where
  "hex_value c =
     (let n = of_char c in
      if 48 \<le> n \<and> n \<le> (57 :: nat) then Some (n - 48)
      else if 97 \<le> n \<and> n \<le> 102 then Some (n - 87)
      else if 65 \<le> n \<and> n \<le> 70 then Some (n - 55)
      else None)"

definition hex_encode :: "bytes \<Rightarrow> string" where
  "hex_encode bs = concat (map (\<lambda>b. [hex_digit (unat b div 16), hex_digit (unat b mod 16)]) bs)"

fun hex_decode :: "string \<Rightarrow> bytes option" where
  "hex_decode [] = Some []"
| "hex_decode [c] = None"
| "hex_decode (c # d # cs) =
     (case (hex_value c, hex_value d, hex_decode cs) of
        (Some h, Some l, Some bs) \<Rightarrow> Some (of_nat (16 * h + l) # bs)
      | _ \<Rightarrow> None)"

definition digest_bytes :: "digest \<Rightarrow> bytes" where
  "digest_bytes d = map (\<lambda>i. ucast (drop_bit (8 * (31 - i)) d)) [0..<32]"

definition sha256Hex :: "lib \<Rightarrow> bytes \<Rightarrow> string" where
  "sha256Hex lib payload = hex_encode (digest_bytes (lib_sha256 lib payload))"

definition isSHA256Hex :: "string \<Rightarrow> bool" where
  "isSHA256Hex value \<longleftrightarrow>
     length value = 64 \<and>
     (case hex_decode value of None \<Rightarrow> False | Some decoded \<Rightarrow> hex_encode decoded = value)"

section \<open>Event validation\<close>

definition validateActor :: "audit_event \<Rightarrow> bool" where
  "validateActor event \<longleftrightarrow>
     (if act_type (ev_actor event) = ActorUnauthenticated
      then act_id (ev_actor event) = uuid_nil \<and> ctx_org (ev_context event) = systemOrgID
      else actorKindCode (act_type (ev_actor event)) \<noteq> 0 \<and> act_id (ev_actor event) \<noteq> uuid_nil)"

definition validateTarget :: "audit_target \<Rightarrow> bool" where
  "validateTarget target \<longleftrightarrow>
     (if tgt_kind target = TargetKindNode
      then tgt_id target \<noteq> uuid_nil \<and> tgt_node_type target \<noteq> []
      else if tgt_kind target = TargetKindRelationship
      then tgt_source target \<noteq> uuid_nil \<and> tgt_target target \<noteq> uuid_nil \<and>
           tgt_relation_type target \<noteq> []
      else if tgt_kind target = TargetKindResource then tgt_uri target \<noteq> []
      else if tgt_kind target = TargetKindExternal then tgt_reference target \<noteq> []
      else False) \<and>
     (tgt_owner target = uuid_nil \<or> tgt_kind target = TargetKindResource)"

definition validateCommittedSteps :: "outcome \<Rightarrow> string list \<Rightarrow> bool" where
  "validateCommittedSteps outcome steps \<longleftrightarrow>
     (case outcome of
        OutcomePartiallyCompleted \<Rightarrow> steps \<noteq> []
      | OutcomeCompleted \<Rightarrow> steps = []
      | OutcomeRefused \<Rightarrow> steps = []
      | OutcomeFailed \<Rightarrow> steps = []
      | OutcomeOther _ \<Rightarrow> False
      | _ \<Rightarrow> True)"

definition validateOutcomeFields :: "audit_event \<Rightarrow> bool" where
  "validateOutcomeFields event \<longleftrightarrow>
     (let c = ev_context event; terminal = isTerminalOutcome (ev_outcome event);
          unsuccessful = (terminal \<and> ev_outcome event \<noteq> OutcomeCompleted) in
      terminal \<noteq> (ctx_completed_at c = 0) \<and>
      \<not> (terminal \<and> ctx_completed_at c < ctx_started_at c) \<and>
      unsuccessful = (ev_error event \<noteq> None) \<and>
      \<not> (unsuccessful \<and> err_code (the (ev_error event)) = []) \<and>
      validateCommittedSteps (ev_outcome event) (ctx_committed_steps c))"

definition validatePhase :: "operation_class \<Rightarrow> event_phase \<Rightarrow> outcome \<Rightarrow> bool" where
  "validatePhase cls phase outcome \<longleftrightarrow>
     (case allowedPhases cls of
        None \<Rightarrow> False
      | Some phases \<Rightarrow>
          phase \<in> set phases \<and>
          (if phase = PhaseIntent then outcome = OutcomePending
           else isTerminalOutcome outcome \<and> \<not> (phase = PhaseChange \<and> outcome \<noteq> OutcomeCompleted)))"

definition validateReadEvidence :: "read_evidence \<Rightarrow> bool" where
  "validateReadEvidence r \<longleftrightarrow>
     isSHA256Hex (read_payload_sha256 r) \<and> read_payload_format r \<noteq> [] \<and>
     \<not> ((read_count r > 0 \<or> read_manifest_parts r > 0 \<or> read_manifest_sha256 r \<noteq> []) \<and>
        \<not> isSHA256Hex (read_manifest_sha256 r))"

definition validateClassEvidence :: "audit_event \<Rightarrow> bool" where
  "validateClassEvidence event \<longleftrightarrow>
     (let c = ev_context event;
          hasValue = (case ev_delta event of None \<Rightarrow> False
            | Some d \<Rightarrow> delta_before d \<noteq> [] \<or> delta_after d \<noteq> []) in
      if ctx_operation_class c \<noteq> OperationRead
      then ctx_read c = None \<and> \<not> (ctx_phase c = PhaseChange \<and> \<not> hasValue)
      else ev_delta event = None \<and>
        (case ctx_read c of
           None \<Rightarrow> ev_outcome event \<noteq> OutcomeCompleted \<and> ev_outcome event \<noteq> OutcomePartiallyCompleted
         | Some r \<Rightarrow> validateReadEvidence r))"

definition validateCompleteEvent :: "audit_event \<Rightarrow> bool" where
  "validateCompleteEvent event \<longleftrightarrow>
     (let c = ev_context event in
      ev_id event \<noteq> uuid_nil \<and> ev_verb event \<noteq> [] \<and> ev_occurred_at event \<noteq> 0 \<and>
      ctx_org c \<noteq> uuid_nil \<and> ctx_operation c \<noteq> uuid_nil \<and> ctx_started_at c \<noteq> 0 \<and>
      (case ctx_target c of
         None \<Rightarrow> False
       | Some target \<Rightarrow>
           ev_outcome event \<noteq> OutcomeOther [] \<and>
           validateActor event \<and>
           validateTarget target \<and>
           ent_kind (ev_entity event) = tgt_kind target \<and> ent_id (ev_entity event) = tgt_id target \<and>
           validatePhase (ctx_operation_class c) (ctx_phase c) (ev_outcome event) \<and>
           validateOutcomeFields event \<and>
           validateClassEvidence event))"

definition hasCompleteContextField :: "event_context \<Rightarrow> bool" where
  "hasCompleteContextField c \<longleftrightarrow>
     (ctx_operation_class c \<noteq> OperationOther [] \<or> ctx_phase c \<noteq> PhaseOther [] \<or>
      ctx_operation c \<noteq> uuid_nil \<or> ctx_parent_operation c \<noteq> uuid_nil) \<or>
     (ctx_started_at c \<noteq> 0 \<or> ctx_completed_at c \<noteq> 0) \<or>
     (ctx_target c \<noteq> None \<or> ctx_read c \<noteq> None \<or> ctx_committed_steps c \<noteq> [] \<or>
      ctx_selection c \<noteq> None) \<or>
     (ctx_http_method c \<noteq> [] \<or> ctx_request_path c \<noteq> [])"

definition validateLegacyEvent :: "audit_event \<Rightarrow> bool" where
  "validateLegacyEvent event \<longleftrightarrow>
     \<not> hasCompleteContextField (ev_context event) \<and>
     \<not> isTerminalOutcome (ev_outcome event) \<and>
     act_type (ev_actor event) \<noteq> ActorUnauthenticated \<and>
     ev_protected event = []"

section \<open>Protected values\<close>

definition protectedReferenceKey :: string where
  "protectedReferenceKey = ''pii_ref''"

definition protectedSubject :: "audit_target \<Rightarrow> uuid" where
  "protectedSubject target = (if tgt_owner target \<noteq> uuid_nil then tgt_owner target else tgt_id target)"

text \<open>
  \<open>protectedReference\<close> returns the UUID of a one-key \<open>pii_ref\<close> object, the nil UUID when its value
  is not a UUID, and \<open>None\<close> for any other member.
\<close>

definition protectedReference :: "lib \<Rightarrow> bytes \<Rightarrow> uuid option" where
  "protectedReference lib member =
     (case lib_json_members lib member of
        None \<Rightarrow> None
      | Some rfields \<Rightarrow>
          if fcard (fmdom rfields) \<noteq> 1 then None
          else (case fmlookup rfields protectedReferenceKey of
             None \<Rightarrow> None
           | Some value \<Rightarrow>
               (case lib_json_value lib value of
                  Some (JStr s) \<Rightarrow> (case lib_uuid_parse lib s of Some u \<Rightarrow> Some u | None \<Rightarrow> Some uuid_nil)
                | _ \<Rightarrow> Some uuid_nil)))"

definition add_reference :: "lib \<Rightarrow> bytes \<Rightarrow> uuid list \<Rightarrow> unit + uuid list" where
  "add_reference lib member references =
     (case protectedReference lib member of
        None \<Rightarrow> Inr references
      | Some ref \<Rightarrow> if ref = uuid_nil \<or> ref \<in> set references then Inl () else Inr (ref # references))"

definition record_members :: "lib \<Rightarrow> bytes \<Rightarrow> bytes list" where
  "record_members lib encoding =
     (if encoding = [] then []
      else case lib_json_members lib encoding of
        None \<Rightarrow> []
      | Some members \<Rightarrow> map snd (sorted_list_of_fmap members))"

definition deltaReferences :: "lib \<Rightarrow> audit_delta \<Rightarrow> unit + uuid list" where
  "deltaReferences lib delta =
     foldE (add_reference lib)
       (record_members lib (delta_before delta) @ record_members lib (delta_after delta)) []"

definition take_reference :: "lib \<Rightarrow> uuid \<Rightarrow> protected_value \<Rightarrow> uuid list \<Rightarrow> unit + uuid list" where
  "take_reference lib subject value references =
     (if pv_subject value \<noteq> subject then Inl ()
      else if pv_ref value \<notin> set references then Inl ()
      else if lib_json_value lib (pv_value value) = None then Inl ()
      else Inr (remove1 (pv_ref value) references))"

definition validateProtected :: "lib \<Rightarrow> audit_event \<Rightarrow> bool" where
  "validateProtected lib event \<longleftrightarrow>
     (case (case ev_delta event of None \<Rightarrow> Inr [] | Some delta \<Rightarrow> deltaReferences lib delta) of
        Inl _ \<Rightarrow> False
      | Inr references \<Rightarrow>
          references = [] \<and> ev_protected event = [] \<or>
          (case ctx_target (ev_context event) of
             None \<Rightarrow> False
           | Some target \<Rightarrow>
               length references = length (ev_protected event) \<and>
               \<not> isl (foldE (take_reference lib (protectedSubject target)) (ev_protected event) references)))"

definition validateEventContract :: "lib \<Rightarrow> audit_event \<Rightarrow> bool \<Rightarrow> bool" where
  "validateEventContract lib event pairProtected \<longleftrightarrow>
     (if ctx_format_version (ev_context event) = AuditFormatLegacy then validateLegacyEvent event
      else if ctx_format_version (ev_context event) = AuditFormatComplete
      then validateCompleteEvent event \<and> (pairProtected \<longrightarrow> validateProtected lib event)
      else False)"

definition ValidateEvent :: "lib \<Rightarrow> audit_event \<Rightarrow> bool" where
  "ValidateEvent lib event = validateEventContract lib event True"

definition validateStoredEvent :: "lib \<Rightarrow> audit_event \<Rightarrow> bool" where
  "validateStoredEvent lib event = validateEventContract lib event False"

section \<open>Record changes\<close>

definition ValidateChange :: "lib \<Rightarrow> audit_change \<Rightarrow> bool" where
  "ValidateChange lib change \<longleftrightarrow>
     chg_id change \<noteq> uuid_nil \<and>
     validateTarget (chg_target change) \<and>
     \<not> (chg_before change = [] \<and> chg_after change = []) \<and>
     list_all (\<lambda>value. value = [] \<or> lib_json_value lib value \<noteq> None) [chg_before change, chg_after change]"

text \<open>
  \<open>json.Compact\<close> drops the white space between the tokens of a valid message; white space inside a
  string stays. The two flags say whether the next byte is inside a string and whether a backslash
  precedes it.
\<close>

fun compact_text :: "bool \<Rightarrow> bool \<Rightarrow> bytes \<Rightarrow> bytes" where
  "compact_text instr escaped [] = []"
| "compact_text instr escaped (c # cs) =
     (if instr then c # compact_text (escaped \<or> c \<noteq> 0x22) (\<not> escaped \<and> c = 0x5C) cs
      else if c \<in> {0x09, 0x0A, 0x0D, 0x20} then compact_text False False cs
      else c # compact_text (c = 0x22) False cs)"

definition json_compact :: "lib \<Rightarrow> bytes \<Rightarrow> bytes option" where
  "json_compact lib value =
     (if lib_json_value lib value = None then None else Some (compact_text False False value))"

definition recordPropertiesField :: string where
  "recordPropertiesField = ''props''"

definition recordBookkeepingFields :: "string list" where
  "recordBookkeepingFields =
     [''id'', ''org_id'', ''node_type'', ''created_at'', ''created_by'', ''updated_at'', ''updated_by'']"

text \<open>A \<open>recordField\<close>: the member, the property and whether the field is a property.\<close>

type_synonym record_field = "string \<times> string \<times> bool"

definition pointer_escape :: "string \<Rightarrow> string" where
  "pointer_escape s = concat (map (\<lambda>c.
     if c = CHR ''~'' then ''~0'' else if c = CHR ''/'' then ''~1'' else [c]) s)"

fun pointer :: "record_field \<Rightarrow> string" where
  "pointer (member, prop, isProperty) =
     (if \<not> isProperty then ''/'' @ pointer_escape member
      else ''/'' @ pointer_escape member @ ''/'' @ pointer_escape prop)"

type_synonym record_fields = "(record_field, bytes) fmap"

definition addRecordField :: "lib \<Rightarrow> record_field \<Rightarrow> bytes \<Rightarrow> record_fields \<Rightarrow> unit + record_fields" where
  "addRecordField lib field value rfields =
     (case json_compact lib value of
        None \<Rightarrow> Inl ()
      | Some compact \<Rightarrow> Inr (fmupd field compact rfields))"

definition add_record_member :: "lib \<Rightarrow> string \<times> bytes \<Rightarrow> record_fields \<Rightarrow> unit + record_fields" where
  "add_record_member lib = (\<lambda>(member, value) rfields.
     if member \<in> set recordBookkeepingFields then Inr rfields
     else if member \<noteq> recordPropertiesField then addRecordField lib (member, [], False) value rfields
     else (case lib_json_members lib value of
        None \<Rightarrow> Inl ()
      | Some properties \<Rightarrow>
          foldE (\<lambda>(prop, propertyValue). addRecordField lib (member, prop, True) propertyValue)
            (sorted_list_of_fmap properties) rfields))"

definition recordFields :: "lib \<Rightarrow> bytes \<Rightarrow> unit + record_fields" where
  "recordFields lib encoding =
     (if encoding = [] then Inr fmempty
      else case lib_json_members lib encoding of
        None \<Rightarrow> Inl ()
      | Some members \<Rightarrow> foldE (add_record_member lib) (sorted_list_of_fmap members) fmempty)"

definition changed_pointers :: "record_fields \<Rightarrow> record_fields \<Rightarrow> string list" where
  "changed_pointers before after =
     sort (map (pointer \<circ> fst) (filter (\<lambda>(field, value). fmlookup after field \<noteq> Some value)
             (sorted_list_of_fmap before)) @
           map pointer (filter (\<lambda>field. fmlookup before field = None) (map fst (sorted_list_of_fmap after))))"

definition changedFields :: "lib \<Rightarrow> bytes \<Rightarrow> bytes \<Rightarrow> unit + string list" where
  "changedFields lib source res =
     bindE (recordFields lib source) (\<lambda>before.
     bindE (recordFields lib res) (\<lambda>after.
     Inr (changed_pointers before after)))"

definition NewChange :: "lib \<Rightarrow> uuid \<Rightarrow> audit_target \<Rightarrow> bytes \<Rightarrow> bytes \<Rightarrow> unit + audit_change" where
  "NewChange lib eventID target before after =
     bindE (changedFields lib before after) (\<lambda>changed.
     let change = \<lparr>chg_id = eventID, chg_target = target, chg_before = before, chg_after = after,
           chg_changed = changed, chg_protected = []\<rparr> in
     bindE (guardE (ValidateChange lib change) ()) (\<lambda>_. Inr change))"

section \<open>Change events\<close>

fun pickVerb :: "bool \<Rightarrow> bool \<Rightarrow> string \<Rightarrow> string \<Rightarrow> string \<Rightarrow> string" where
  "pickVerb created deleted create update remove =
     (if created then create else if deleted then remove else update)"

definition changeVerb :: "audit_change \<Rightarrow> string" where
  "changeVerb change =
     (let created = (chg_before change = []); deleted = (chg_after change = []);
          kind = tgt_kind (chg_target change); nodeType = tgt_node_type (chg_target change) in
      if kind = TargetKindRelationship
      then pickVerb created deleted ''relationship.add'' ''relationship.update'' ''relationship.remove''
      else if kind = TargetKindResource \<and> nodeType = ''sequence''
      then pickVerb created deleted ''sequence.create'' ''sequence.update'' ''sequence.update''
      else if nodeType = ''node_type''
      then pickVerb created deleted ''node_type.create'' ''node_type.update'' ''node_type.delete''
      else if nodeType = ''property_def''
      then pickVerb created deleted ''property_def.create'' ''property_def.update'' ''property_def.delete''
      else if nodeType = ''search_session'' \<or> nodeType = ''search_session_replay'' \<or>
        nodeType = ''search_session_visited''
      then pickVerb created deleted ''search.session_create'' ''search.session_update'' ''search.session_delete''
      else pickVerb created deleted ''node.create'' ''node.update'' ''node.delete'')"

definition target_entity :: "audit_target \<Rightarrow> audit_entity" where
  "target_entity target =
     \<lparr>ent_kind = tgt_kind target, ent_node_type = tgt_node_type target, ent_id = tgt_id target,
      ent_identifier = tgt_reference target, ent_name = tgt_name target\<rparr>"

definition change_context :: "event_context \<Rightarrow> audit_target \<Rightarrow> timestamp \<Rightarrow> event_context" where
  "change_context c target completedAt =
     c\<lparr>ctx_format_version := AuditFormatComplete, ctx_operation_class := OperationDatabaseChange,
       ctx_phase := PhaseChange, ctx_completed_at := completedAt, ctx_target := Some target,
       ctx_read := None, ctx_commit_version := []\<rparr>"

definition ChangeEvent :: "lib \<Rightarrow> audit_event \<Rightarrow> audit_change \<Rightarrow> timestamp \<Rightarrow> unit + audit_event" where
  "ChangeEvent lib operation change completedAt =
     bindE (guardE (ValidateChange lib change) ()) (\<lambda>_.
     let event =
       \<lparr>ev_verb = changeVerb change, ev_id = chg_id change, ev_actor = ev_actor operation,
        ev_entity = target_entity (chg_target change),
        ev_context = change_context (ev_context operation) (chg_target change) completedAt,
        ev_delta = Some \<lparr>delta_before = chg_before change, delta_after = chg_after change,
          delta_changed = chg_changed change\<rparr>,
        ev_outcome = OutcomeCompleted, ev_error = None, ev_idempotency_key = [],
        ev_occurred_at = completedAt, ev_extra = ev_extra operation,
        ev_protected = chg_protected change\<rparr> in
     bindE (guardE (ValidateEvent lib event) ()) (\<lambda>_. Inr event))"

record outcome_details =
  od_outcome :: outcome
  od_failure_code :: string
  od_failure_message :: string
  od_committed_steps :: "string list"

text \<open>
  \<open>ChangeFailureEvent\<close> reads the clock and draws a new UUID; both are arguments here.
\<close>

definition ChangeFailureEvent ::
  "lib \<Rightarrow> audit_event \<Rightarrow> audit_target \<Rightarrow> string \<Rightarrow> outcome_details \<Rightarrow> timestamp \<Rightarrow> uuid \<Rightarrow> unit + audit_event"
  where
  "ChangeFailureEvent lib operation target verb details now newID =
     (let c = ev_context operation;
          completedAt = (if now < ctx_started_at c then ctx_started_at c else now);
          event = operation
            \<lparr>ev_verb := verb, ev_id := newID, ev_occurred_at := completedAt,
             ev_entity := target_entity target,
             ev_context := c
               \<lparr>ctx_org := (if ctx_org c = uuid_nil then systemOrgID else ctx_org c),
                ctx_format_version := AuditFormatComplete,
                ctx_operation_class := OperationDatabaseChange, ctx_phase := PhaseResult,
                ctx_completed_at := completedAt, ctx_target := Some target, ctx_read := None,
                ctx_commit_version := [], ctx_committed_steps := od_committed_steps details\<rparr>,
             ev_delta := None, ev_outcome := od_outcome details,
             ev_error := (if od_outcome details \<noteq> OutcomeCompleted
               then Some \<lparr>err_code = od_failure_code details, err_message = od_failure_message details\<rparr>
               else None)\<rparr> in
      bindE (guardE (ValidateEvent lib event) ()) (\<lambda>_. Inr event))"

text \<open>What \<open>RequireMutationContext\<close> demands of the operation it found.\<close>

definition mutation_operation_ok :: "audit_event \<Rightarrow> bool" where
  "mutation_operation_ok operation \<longleftrightarrow>
     \<not> (act_id (ev_actor operation) = uuid_nil \<or> actorKindCode (act_type (ev_actor operation)) = 0) \<and>
     \<not> (ctx_operation (ev_context operation) = uuid_nil \<or> ctx_started_at (ev_context operation) = 0)"

section \<open>Facts\<close>

lemma validateTarget_kind:
  "validateTarget t \<Longrightarrow>
    tgt_kind t \<in> {TargetKindNode, TargetKindRelationship, TargetKindResource, TargetKindExternal}"
  by (simp add: validateTarget_def split: if_splits)

lemma changeVerb_nonempty [simp]: "changeVerb c \<noteq> []"
  by (simp add: changeVerb_def Let_def)

lemma pointer_escape_Nil [simp]: "pointer_escape [] = []"
  by (simp add: pointer_escape_def)

lemma pointer_escape_Cons:
  "pointer_escape (c # s) =
    (if c = CHR ''~'' then ''~0'' else if c = CHR ''/'' then ''~1'' else [c]) @ pointer_escape s"
  by (simp add: pointer_escape_def)

lemma pointer_escape_no_slash [simp]: "CHR ''/'' \<notin> set (pointer_escape s)"
  by (induction s) (auto simp: pointer_escape_Cons)

lemma pointer_escape_inj: "pointer_escape s = pointer_escape t \<longleftrightarrow> s = t"
proof (induction s arbitrary: t)
  case Nil
  show ?case by (cases t) (auto simp: pointer_escape_Cons)
next
  case (Cons c s)
  show ?case by (cases t) (auto simp: pointer_escape_Cons Cons.IH)
qed

lemma slash_append_inj:
  assumes "CHR ''/'' \<notin> set a" "CHR ''/'' \<notin> set b"
  shows "a @ ''/'' @ x = b @ ''/'' @ y \<longleftrightarrow> a = b \<and> x = y"
  using assms by (induction a arbitrary: b) (case_tac b; auto)+

text \<open>A field of a record: only the \<open>props\<close> member has properties, and it has no plain field.\<close>

fun field_ok :: "record_field \<Rightarrow> bool" where
  "field_ok (member, prop, isProperty) \<longleftrightarrow>
     (isProperty \<longleftrightarrow> member = recordPropertiesField) \<and> (\<not> isProperty \<longrightarrow> prop = [])"

lemma pointer_inj_on: "inj_on pointer {f. field_ok f}"
proof (rule inj_onI)
  fix f g :: record_field
  assume f: "f \<in> {f. field_ok f}" and g: "g \<in> {f. field_ok f}" and eq: "pointer f = pointer g"
  obtain m p i where F: "f = (m, p, i)" by (cases f)
  obtain n q j where G: "g = (n, q, j)" by (cases g)
  have slash: "pointer_escape a \<noteq> pointer_escape b @ ''/'' @ c" for a b c
  proof
    assume "pointer_escape a = pointer_escape b @ ''/'' @ c"
    then have "CHR ''/'' \<in> set (pointer_escape a)" by simp
    then show False by simp
  qed
  show "f = g"
    using f g eq slash [of m n "pointer_escape q"] slash [of n m "pointer_escape p"]
    by (cases i; cases j)
       (auto simp: F G pointer_escape_inj
         slash_append_inj [OF pointer_escape_no_slash pointer_escape_no_slash, simplified])
qed

definition fields_ok :: "record_fields \<Rightarrow> bool" where
  "fields_ok m \<longleftrightarrow> (\<forall>g. fmlookup m g \<noteq> None \<longrightarrow> field_ok g)"

lemma fields_ok_fmempty [simp]: "fields_ok fmempty"
  by (simp add: fields_ok_def)

lemma addRecordField_ok:
  "addRecordField lib f v m = Inr m' \<Longrightarrow> field_ok f \<Longrightarrow> fields_ok m \<Longrightarrow> fields_ok m'"
  unfolding addRecordField_def fields_ok_def
  by (metis (no_types, lifting) fmupd_lookup option.case_eq_if sum.distinct(1) sum.inject(2))

lemma add_record_member_ok:
  assumes "add_record_member lib mv m = Inr m'" "fields_ok m"
  shows "fields_ok m'"
proof -
  obtain member v where mv: "mv = (member, v)" by (cases mv)
  show ?thesis
  proof (cases "member = recordPropertiesField")
    case True
    then have "member \<notin> set recordBookkeepingFields"
      by (simp add: recordBookkeepingFields_def recordPropertiesField_def)
    with assms(1) True obtain ps where ps:
      "foldE (\<lambda>(prop, pv). addRecordField lib (member, prop, True) pv) (sorted_list_of_fmap ps) m = Inr m'"
      by (auto simp: add_record_member_def mv split: option.splits)
    show ?thesis
      by (rule foldE_invariant [OF ps, where P = fields_ok])
         (use assms(2) in \<open>auto dest: addRecordField_ok simp: True\<close>)
  next
    case False
    then show ?thesis
      using assms by (auto simp: add_record_member_def mv split: if_splits dest: addRecordField_ok)
  qed
qed

lemma recordFields_ok:
  assumes "recordFields lib encoding = Inr m" shows "fields_ok m"
proof (cases "encoding = []")
  case True
  then show ?thesis using assms by (auto simp: recordFields_def)
next
  case False
  then obtain ms where ms: "foldE (add_record_member lib) (sorted_list_of_fmap ms) fmempty = Inr m"
    using assms by (auto simp: recordFields_def split: option.splits)
  show ?thesis
    by (rule foldE_invariant [OF ms, where P = fields_ok]) (auto dest: add_record_member_ok)
qed

lemma set_changed_pointers:
  "set (changed_pointers b a) = pointer ` {f. fmlookup b f \<noteq> fmlookup a f}"
proof -
  let ?A = "{f. \<exists>v. fmlookup b f = Some v \<and> fmlookup a f \<noteq> Some v}"
  let ?B = "{f. fmlookup b f = None \<and> (\<exists>v. fmlookup a f = Some v)}"
  have A: "set (map fst (filter (\<lambda>(f, v). fmlookup a f \<noteq> Some v) (sorted_list_of_fmap b))) = ?A"
  proof (rule set_eqI)
    fix f show "f \<in> set (map fst (filter (\<lambda>(f, v). fmlookup a f \<noteq> Some v) (sorted_list_of_fmap b))) \<longleftrightarrow> f \<in> ?A"
      by (cases f) (simp add: image_iff)
  qed
  have B: "set (filter (\<lambda>f. fmlookup b f = None) (map fst (sorted_list_of_fmap a))) = ?B"
  proof (rule set_eqI)
    fix f show "f \<in> set (filter (\<lambda>f. fmlookup b f = None) (map fst (sorted_list_of_fmap a))) \<longleftrightarrow> f \<in> ?B"
      by (cases f) (auto simp: image_iff)
  qed
  have "set (changed_pointers b a) = pointer ` ?A \<union> pointer ` ?B"
    unfolding changed_pointers_def set_sort set_append set_map [of "pointer \<circ> fst"] image_comp [symmetric]
    using A B by (simp only: set_map)
  also have "\<dots> = pointer ` (?A \<union> ?B)" by blast
  also have "?A \<union> ?B = {f. fmlookup b f \<noteq> fmlookup a f}"
    by (rule set_eqI) (simp, metis not_None_eq)
  finally show ?thesis .
qed

lemma map_fst_sorted_list_of_fmap: "map fst (sorted_list_of_fmap m) = sorted_list_of_fset (fmdom m)"
  by (simp add: sorted_list_of_fmap_def comp_def)

lemma distinct_changed_pointers:
  assumes "fields_ok b" "fields_ok a"
  shows "distinct (changed_pointers b a)"
proof -
  let ?x = "map fst (filter (\<lambda>(f, v). fmlookup a f \<noteq> Some v) (sorted_list_of_fmap b))"
  let ?y = "filter (\<lambda>f. fmlookup b f = None) (map fst (sorted_list_of_fmap a))"
  have "distinct (map fst (sorted_list_of_fmap b))" "distinct (map fst (sorted_list_of_fmap a))"
    by (simp_all add: map_fst_sorted_list_of_fmap)
  then have "distinct (?x @ ?y)" by (auto simp: distinct_map_filter)
  moreover have "set (?x @ ?y) \<subseteq> {f. field_ok f}"
    using assms unfolding fields_ok_def by (auto simp del: field_ok.simps)
  moreover have "distinct zs \<Longrightarrow> set zs \<subseteq> {f. field_ok f} \<Longrightarrow> distinct (map pointer zs)" for zs
    using inj_on_subset [OF pointer_inj_on] by (simp add: distinct_map)
  ultimately have "distinct (map pointer (?x @ ?y))" by blast
  then show ?thesis by (simp add: changed_pointers_def)
qed

lemma take_references_iff:
  "\<not> isl (foldE (take_reference lib subject) vs refs) \<longleftrightarrow>
    list_all (\<lambda>v. pv_subject v = subject \<and> lib_json_value lib (pv_value v) \<noteq> None) vs \<and>
    mset (map pv_ref vs) \<subseteq># mset refs"
proof (induction vs arbitrary: refs)
  case (Cons v vs)
  have "mset (map pv_ref (v # vs)) \<subseteq># mset refs \<longleftrightarrow>
      pv_ref v \<in># mset refs \<and> mset (map pv_ref vs) \<subseteq># mset (remove1 (pv_ref v) refs)"
    by (simp add: insert_subset_eq_iff)
  moreover have "\<not> isl (foldE (take_reference lib subject) (v # vs) refs) \<longleftrightarrow>
      pv_subject v = subject \<and> pv_ref v \<in> set refs \<and> lib_json_value lib (pv_value v) \<noteq> None \<and>
      \<not> isl (foldE (take_reference lib subject) vs (remove1 (pv_ref v) refs))"
    by (simp add: take_reference_def [of lib subject v refs])
  ultimately show ?case by (simp add: Cons.IH) blast
qed simp

lemma mset_eq_of_size:
  assumes "length refs = length vs"
  shows "image_mset f (mset vs) \<subseteq># mset refs \<longleftrightarrow> image_mset f (mset vs) = mset refs"
proof
  assume "image_mset f (mset vs) \<subseteq># mset refs"
  then obtain C where C: "mset refs = image_mset f (mset vs) + C"
    by (auto simp: mset_subset_eq_exists_conv)
  then have "size (mset refs) = size (image_mset f (mset vs)) + size C"
    by simp
  with assms have "C = {#}" by simp
  with C show "image_mset f (mset vs) = mset refs" by simp
qed simp

lemma validateProtected_iff:
  "validateProtected lib event \<longleftrightarrow>
    (\<exists>refs. (case ev_delta event of None \<Rightarrow> Inr [] | Some d \<Rightarrow> deltaReferences lib d) = Inr refs \<and>
      mset (map pv_ref (ev_protected event)) = mset refs \<and>
      (ev_protected event = [] \<or>
       (\<exists>t. ctx_target (ev_context event) = Some t \<and>
         list_all (\<lambda>v. pv_subject v = protectedSubject t \<and> lib_json_value lib (pv_value v) \<noteq> None)
           (ev_protected event))))"
proof (cases "case ev_delta event of None \<Rightarrow> Inr [] | Some d \<Rightarrow> deltaReferences lib d")
  case (Inr refs)
  have len: "mset (map pv_ref (ev_protected event)) = mset refs \<Longrightarrow> length refs = length (ev_protected event)"
    by (metis length_map size_mset)
  show ?thesis
    using len unfolding validateProtected_def Inr
    by (cases "ctx_target (ev_context event)"; cases "length refs = length (ev_protected event)")
       (auto simp: take_references_iff mset_eq_of_size)
qed (simp add: validateProtected_def)

lemma validateCompleteEvent_change:
  assumes "ev_outcome event = OutcomeCompleted" "ctx_target (ev_context event) = Some target"
    and "ev_entity event = target_entity target" "ev_error event = None"
    and "ctx_operation_class (ev_context event) = OperationDatabaseChange"
    and "ctx_phase (ev_context event) = PhaseChange" "ctx_read (ev_context event) = None"
    and "ev_delta event = Some d" "delta_before d \<noteq> [] \<or> delta_after d \<noteq> []"
    and "validateTarget target" "ev_verb event \<noteq> []"
  shows "validateCompleteEvent event \<longleftrightarrow>
    ev_id event \<noteq> uuid_nil \<and> ev_occurred_at event \<noteq> 0 \<and> ctx_org (ev_context event) \<noteq> uuid_nil \<and>
    ctx_operation (ev_context event) \<noteq> uuid_nil \<and> ctx_started_at (ev_context event) \<noteq> 0 \<and>
    ctx_completed_at (ev_context event) \<noteq> 0 \<and>
    ctx_started_at (ev_context event) \<le> ctx_completed_at (ev_context event) \<and>
    ctx_committed_steps (ev_context event) = [] \<and> validateActor event"
  using assms
  by (auto simp: validateCompleteEvent_def Let_def validatePhase_def validateOutcomeFields_def
      validateCommittedSteps_def validateClassEvidence_def target_entity_def)

section \<open>Properties\<close>


text \<open>A library that decodes the text \<open>[1]\<close> to one member \<open>name\<close> with the value \<open>[2]\<close>.\<close>

definition sample_record_lib :: lib where
  "sample_record_lib = sample_lib\<lparr>lib_json_members :=
     (\<lambda>bs. if bs = [1] then Some (fmupd ''name'' [2] fmempty) else None)\<rparr>"

definition sample_target :: audit_target where
  "sample_target =
     \<lparr>tgt_kind = TargetKindNode, tgt_node_type = ''task'', tgt_reference = [], tgt_name = [],
      tgt_uri = [], tgt_relation_type = [], tgt_id = 5, tgt_source = uuid_nil, tgt_target = uuid_nil,
      tgt_owner = uuid_nil\<rparr>"

text \<open>An operation of a user, as \<open>RequireMutationContext\<close> returns it.\<close>

definition sample_operation :: audit_event where
  "sample_operation =
     \<lparr>ev_verb = [], ev_id = uuid_nil,
      ev_actor = \<lparr>act_type = ActorUser, act_id = 3, act_email = [], act_name = [], act_session = [],
        act_ip = [], act_user_agent = [], act_request = [], act_token_label = []\<rparr>,
      ev_entity = \<lparr>ent_kind = [], ent_node_type = [], ent_id = uuid_nil, ent_identifier = [], ent_name = []\<rparr>,
      ev_context = \<lparr>ctx_org = 1, ctx_workspace = uuid_nil, ctx_scope = uuid_nil, ctx_parent = uuid_nil,
        ctx_request = [], ctx_trace = [], ctx_source = ''mcp'', ctx_tool = [], ctx_rpc = [], ctx_reason = [],
        ctx_api_token = uuid_nil, ctx_commit_version = [], ctx_format_version = AuditFormatLegacy,
        ctx_operation_class = OperationOther [], ctx_phase = PhaseOther [], ctx_operation = 11,
        ctx_parent_operation = uuid_nil, ctx_started_at = 100, ctx_completed_at = 0,
        ctx_target = None, ctx_read = None, ctx_committed_steps = [], ctx_selection = None,
        ctx_http_method = [], ctx_request_path = []\<rparr>,
      ev_delta = None, ev_outcome = OutcomeOther [], ev_error = None, ev_idempotency_key = [],
      ev_occurred_at = 100, ev_extra = [], ev_protected = []\<rparr>"

lemma sample_NewChange:
  "NewChange sample_record_lib 9 sample_target [] [1] =
    Inr \<lparr>chg_id = 9, chg_target = sample_target, chg_before = [], chg_after = [1],
      chg_changed = [''/name''], chg_protected = []\<rparr>"
  by code_simp



end
