(* ===== verification/Audit_Transport.thy ===== *)
theory Audit_Transport
  imports Audit_Event
begin

text \<open>
  The transport of audit events (\<open>internal/audit/event_parts.go\<close>, \<open>event_parts_wire.go\<close>,
  \<open>read_manifest.go\<close>, \<open>consumer_parts.go\<close>, \<open>consumer_assembly_reader.go\<close>): an event envelope is
  split into parts of at most 64 KiB, the parts travel as separate messages, and the consumer
  stores them in any order, with duplicates, until the envelope can be read back.
\<close>

unbundle bit_operations_syntax

section \<open>Messages\<close>

definition EventPartMaxBytes :: nat where
  "EventPartMaxBytes = 65536"

definition ReadManifestMaxEntries :: nat where
  "ReadManifestMaxEntries = 256"

definition eventPartsFormatVersion :: "16 word" where
  "eventPartsFormatVersion = 1"

abbreviation messageKindPart :: string where
  "messageKindPart \<equiv> ''event_part''"

abbreviation messageKindManifest :: string where
  "messageKindManifest \<equiv> ''event_manifest''"

record event_part =
  part_event :: uuid
  part_index :: "32 word"
  part_count :: "32 word"
  part_digest :: string
  part_transport_digest :: string
  part_payload :: bytes

record encoded_event =
  enc_event :: uuid
  enc_transport_digest :: string
  enc_header :: bytes
  enc_parts :: "event_part list"
  enc_single :: bool

record transport_message =
  tm_message :: string
  tm_format_version :: "16 word"
  tm_event :: uuid
  tm_org :: uuid
  tm_shard :: "16 word"
  tm_part_count :: "32 word"
  tm_transport_digest :: string
  tm_part_index :: "32 word"
  tm_part_digest :: string
  tm_payload :: bytes
  tm_commit_version :: string

text \<open>
  The texts that \<open>encoding/json\<close> produces for the message types and the values it decodes:
  \<open>wire_envelope\<close> and \<open>wire_event\<close> marshal an envelope and a plain event, \<open>wire_message\<close> a
  transport message and \<open>wire_target\<close> and \<open>wire_targets\<close> a read target and an array of them (\<open>None\<close>
  for a marshal error); \<open>wire_probe\<close> decodes the \<open>audit_message\<close> member alone,
  \<open>wire_message_value\<close> and \<open>wire_envelope_value\<close> decode a whole text and reject unknown members.
\<close>

record wire =
  wire_envelope :: "audit_event \<Rightarrow> audit_target list \<Rightarrow> bytes option"
  wire_event :: "audit_event \<Rightarrow> bytes option"
  wire_message :: "transport_message \<Rightarrow> bytes"
  wire_target :: "audit_target \<Rightarrow> bytes"
  wire_targets :: "audit_target list \<Rightarrow> bytes"
  wire_probe :: "bytes \<Rightarrow> string option"
  wire_message_value :: "bytes \<Rightarrow> transport_message option"
  wire_envelope_value :: "bytes \<Rightarrow> (audit_event \<times> audit_target list) option"

section \<open>Shards\<close>

text \<open>\<open>crc32.ChecksumIEEE\<close>: the reflected polynomial, bit by bit.\<close>

definition crc32_bit :: "32 word \<Rightarrow> 32 word" where
  "crc32_bit c = (if bit c 0 then drop_bit 1 c XOR 0xEDB88320 else drop_bit 1 c)"

definition crc32_byte :: "8 word \<Rightarrow> 32 word \<Rightarrow> 32 word" where
  "crc32_byte b c = (crc32_bit ^^ 8) (c XOR ucast b)"

definition crc32 :: "bytes \<Rightarrow> 32 word" where
  "crc32 bs = NOT (fold crc32_byte bs (NOT 0))"

definition shardOf :: "uuid \<Rightarrow> uuid \<Rightarrow> 16 word" where
  "shardOf actor eventID = ucast (crc32 (uuid_bytes actor @ uuid_bytes eventID) AND 255)"

section \<open>Read manifests\<close>

text \<open>
  The manifest builder: the finished arrays, the unfinished array and its size counted with one
  comma per target.
\<close>

record manifest_builder =
  mb_emitted :: "bytes list"
  mb_current :: "audit_target list"
  mb_bytes :: nat

definition manifest_flush :: "wire \<Rightarrow> manifest_builder \<Rightarrow> manifest_builder" where
  "manifest_flush w b =
     b\<lparr>mb_emitted := mb_emitted b @ [wire_targets w (mb_current b)], mb_current := [], mb_bytes := 2\<rparr>"

definition manifest_add :: "wire \<Rightarrow> audit_target \<Rightarrow> manifest_builder \<Rightarrow> unit + manifest_builder" where
  "manifest_add w target b =
     (let encoded = wire_target w target; targetBytes = length encoded + 1 in
      if length encoded + 2 > EventPartMaxBytes then Inl ()
      else let b' = (if length (mb_current b) = ReadManifestMaxEntries \<or>
                        mb_bytes b + targetBytes > EventPartMaxBytes
                     then manifest_flush w b else b) in
        Inr (b'\<lparr>mb_current := mb_current b' @ [target], mb_bytes := mb_bytes b' + targetBytes\<rparr>))"

definition manifest_finish :: "wire \<Rightarrow> manifest_builder \<Rightarrow> manifest_builder" where
  "manifest_finish w b = (if mb_current b = [] then b else manifest_flush w b)"

definition readManifestParts :: "wire \<Rightarrow> audit_target list \<Rightarrow> unit + bytes list" where
  "readManifestParts w targets =
     bindE (foldE (manifest_add w) targets \<lparr>mb_emitted = [], mb_current = [], mb_bytes = 2\<rparr>) (\<lambda>b.
     Inr (mb_emitted (manifest_finish w b)))"

definition ReadManifestDigest :: "lib \<Rightarrow> wire \<Rightarrow> audit_target list \<Rightarrow> unit + (string \<times> 32 word)" where
  "ReadManifestDigest lib w targets =
     bindE (readManifestParts w targets) (\<lambda>parts.
     Inr (sha256Hex lib (concat parts), of_nat (length parts)))"

definition checkReadManifest :: "lib \<Rightarrow> wire \<Rightarrow> audit_event \<Rightarrow> audit_target list \<Rightarrow> unit + unit" where
  "checkReadManifest lib w event targets =
     (case ctx_read (ev_context event) of
        None \<Rightarrow> guardE (targets = []) ()
      | Some r \<Rightarrow>
          if targets = [] \<and> read_manifest_sha256 r = [] \<and> read_manifest_parts r = 0 then Inr ()
          else bindE (ReadManifestDigest lib w targets) (\<lambda>(digest, partCount).
            guardE (digest = read_manifest_sha256 r \<and> partCount = read_manifest_parts r) ()))"

section \<open>Encoding\<close>

definition newManifestMessage :: "audit_event \<Rightarrow> 32 word \<Rightarrow> string \<Rightarrow> transport_message" where
  "newManifestMessage event partCount transportDigest =
     \<lparr>tm_message = messageKindManifest, tm_format_version = eventPartsFormatVersion,
      tm_event = ev_id event, tm_org = ctx_org (ev_context event),
      tm_shard = shardOf (act_id (ev_actor event)) (ev_id event), tm_part_count = partCount,
      tm_transport_digest = transportDigest, tm_part_index = 0, tm_part_digest = [],
      tm_payload = [], tm_commit_version = []\<rparr>"

text \<open>The loop over the envelope: segments of \<open>EventPartMaxBytes\<close> bytes, the last one shorter.\<close>

function split_envelope :: "bytes \<Rightarrow> bytes list" where
  "split_envelope envelope =
     (if envelope = [] then []
      else take EventPartMaxBytes envelope # split_envelope (drop EventPartMaxBytes envelope))"
  by auto
termination
  by (relation "measure length") (simp_all add: EventPartMaxBytes_def)

declare split_envelope.simps [simp del]

definition event_parts :: "lib \<Rightarrow> uuid \<Rightarrow> bytes \<Rightarrow> event_part list" where
  "event_parts lib eventID envelope =
     (let payloads = split_envelope envelope in
      map (\<lambda>(i, payload).
        \<lparr>part_event = eventID, part_index = of_nat i, part_count = of_nat (length payloads),
         part_digest = sha256Hex lib payload, part_transport_digest = sha256Hex lib envelope,
         part_payload = payload\<rparr>) (enumerate 0 payloads))"

definition EncodeEvent :: "lib \<Rightarrow> wire \<Rightarrow> audit_event \<Rightarrow> audit_target list \<Rightarrow> unit + encoded_event" where
  "EncodeEvent lib w event readTargets =
     (if ev_id event = uuid_nil then Inl ()
      else bindE (checkReadManifest lib w event readTargets) (\<lambda>_.
      case wire_envelope w event readTargets of
        None \<Rightarrow> Inl ()
      | Some envelope \<Rightarrow>
          let parts = event_parts lib (ev_id event) envelope; partCount = of_nat (length parts) :: 32 word in
          Inr \<lparr>enc_event = ev_id event, enc_transport_digest = sha256Hex lib envelope,
            enc_header = wire_message w (newManifestMessage event partCount (sha256Hex lib envelope)),
            enc_parts = parts, enc_single = (partCount = 1 \<and> readTargets = [])\<rparr>))"

definition Multipart :: "encoded_event \<Rightarrow> bool" where
  "Multipart e = (\<not> enc_single e)"

text \<open>
  \<open>decodeTransportMessage\<close>: \<open>Inr None\<close> when the text is no transport message.
\<close>

definition decodeTransportMessage :: "wire \<Rightarrow> bytes \<Rightarrow> unit + transport_message option" where
  "decodeTransportMessage w text =
     (case wire_probe w text of
        None \<Rightarrow> Inr None
      | Some probe \<Rightarrow>
          if probe = [] then Inr None
          else (case wire_message_value w text of
             None \<Rightarrow> Inl ()
           | Some message \<Rightarrow>
               if tm_format_version message \<noteq> eventPartsFormatVersion then Inl ()
               else if tm_message message \<noteq> messageKindPart \<and> tm_message message \<noteq> messageKindManifest
               then Inl ()
               else if tm_event message = uuid_nil \<or> tm_part_count message = 0 \<or>
                 \<not> isSHA256Hex (tm_transport_digest message) then Inl ()
               else Inr (Some message)))"

definition decodeManifestHeader :: "wire \<Rightarrow> bytes \<Rightarrow> unit + transport_message" where
  "decodeManifestHeader w header =
     bindE (decodeTransportMessage w header) (\<lambda>m.
     case m of
       None \<Rightarrow> Inl ()
     | Some message \<Rightarrow>
         if tm_message message \<noteq> messageKindManifest then Inl () else Inr message)"

definition part_message :: "transport_message \<Rightarrow> event_part \<Rightarrow> transport_message" where
  "part_message manifest p =
     manifest\<lparr>tm_message := messageKindPart, tm_part_index := part_index p,
       tm_part_digest := part_digest p, tm_payload := part_payload p\<rparr>"

definition partMessages :: "wire \<Rightarrow> encoded_event \<Rightarrow> unit + bytes list" where
  "partMessages w e =
     bindE (decodeManifestHeader w (enc_header e)) (\<lambda>manifest.
     Inr (map (\<lambda>p. wire_message w (part_message manifest p)) (enc_parts e)))"

definition Messages :: "wire \<Rightarrow> encoded_event \<Rightarrow> unit + bytes list" where
  "Messages w e = bindE (partMessages w e) (\<lambda>messages. Inr (messages @ [enc_header e]))"

definition HeaderAndParts :: "wire \<Rightarrow> encoded_event \<Rightarrow> unit + (bytes \<times> bytes list)" where
  "HeaderAndParts w e =
     (if Multipart e then bindE (partMessages w e) (\<lambda>parts. Inr (enc_header e, parts))
      else case enc_parts e of
        [p] \<Rightarrow>
          (case wire_envelope_value w (part_payload p) of
             None \<Rightarrow> Inl ()
           | Some (event, _) \<Rightarrow>
               (case wire_event w event of None \<Rightarrow> Inl () | Some eventJSON \<Rightarrow> Inr (eventJSON, [])))
      | _ \<Rightarrow> Inl ())"

definition Records :: "wire \<Rightarrow> encoded_event \<Rightarrow> unit + bytes list" where
  "Records w e = bindE (HeaderAndParts w e) (\<lambda>(header, parts). Inr (parts @ [header]))"

definition FitsSingleRecord :: "bytes \<Rightarrow> bool" where
  "FitsSingleRecord eventJSON \<longleftrightarrow> length eventJSON \<le> EventPartMaxBytes"

section \<open>Assembly\<close>

text \<open>
  The tables of the consumer: \<open>audit.event_assemblies\<close>, \<open>audit.event_assembly_parts\<close>,
  \<open>audit.completed_transports\<close> and the event IDs of \<open>audit.projected_events\<close>. A rejected message is
  the error \<open>Inl ()\<close>; its transaction is rolled back.
\<close>

record assembly =
  asm_org :: uuid
  asm_shard :: "16 word"
  asm_part_count :: "32 word"
  asm_transport_digest :: string
  asm_header :: "bytes option"
  asm_commit_version :: string
  asm_ready :: bool

record transport_db =
  assemblies :: "(uuid, assembly) fmap"
  assembly_parts :: "(uuid \<times> 32 word, string \<times> bytes) fmap"
  completed_transports :: "(uuid, string) fmap"
  projected_events :: "uuid fset"

definition completedTransport :: "transport_db \<Rightarrow> transport_message \<Rightarrow> unit + bool" where
  "completedTransport db message =
     (case fmlookup (completed_transports db) (tm_event message) of
        None \<Rightarrow> if tm_event message |\<in>| projected_events db then Inl () else Inr False
      | Some digest \<Rightarrow> if digest \<noteq> tm_transport_digest message then Inl () else Inr True)"

definition storeAssembly :: "transport_message \<Rightarrow> transport_db \<Rightarrow> unit + transport_db" where
  "storeAssembly message db =
     (case fmlookup (assemblies db) (tm_event message) of
        None \<Rightarrow> Inr (db\<lparr>assemblies := fmupd (tm_event message)
          \<lparr>asm_org = tm_org message, asm_shard = tm_shard message,
           asm_part_count = tm_part_count message,
           asm_transport_digest = tm_transport_digest message, asm_header = None,
           asm_commit_version = [], asm_ready = False\<rparr> (assemblies db)\<rparr>)
      | Some stored \<Rightarrow>
          if asm_org stored \<noteq> tm_org message \<or> asm_shard stored \<noteq> tm_shard message \<or>
             asm_part_count stored \<noteq> tm_part_count message \<or>
             asm_transport_digest stored \<noteq> tm_transport_digest message
          then Inl () else Inr db)"

definition storeAssemblyPart :: "lib \<Rightarrow> transport_message \<Rightarrow> transport_db \<Rightarrow> unit + transport_db" where
  "storeAssemblyPart lib message db =
     (if tm_part_index message \<ge> tm_part_count message \<or>
         length (tm_payload message) > EventPartMaxBytes \<or>
         sha256Hex lib (tm_payload message) \<noteq> tm_part_digest message then Inl ()
      else case fmlookup (assembly_parts db) (tm_event message, tm_part_index message) of
        None \<Rightarrow> Inr (db\<lparr>assembly_parts := fmupd (tm_event message, tm_part_index message)
          (tm_part_digest message, tm_payload message) (assembly_parts db)\<rparr>)
      | Some (digest, payload) \<Rightarrow>
          if digest \<noteq> tm_part_digest message \<or> payload \<noteq> tm_payload message then Inl () else Inr db)"

definition storeAssemblyHeader :: "transport_message \<Rightarrow> bytes \<Rightarrow> transport_db \<Rightarrow> transport_db" where
  "storeAssemblyHeader message text db =
     (case fmlookup (assemblies db) (tm_event message) of
        None \<Rightarrow> db
      | Some a \<Rightarrow>
          if asm_header a = None
          then db\<lparr>assemblies := fmupd (tm_event message)
            (a\<lparr>asm_header := Some text, asm_commit_version := tm_commit_version message\<rparr>)
            (assemblies db)\<rparr>
          else db)"

definition stored_part_count :: "transport_db \<Rightarrow> uuid \<Rightarrow> nat" where
  "stored_part_count db eventID = fcard (ffilter (\<lambda>k. fst k = eventID) (fmdom (assembly_parts db)))"

definition mark_ready :: "uuid \<Rightarrow> transport_db \<Rightarrow> transport_db" where
  "mark_ready eventID db =
     (case fmlookup (assemblies db) eventID of
        None \<Rightarrow> db
      | Some a \<Rightarrow>
          if \<not> asm_ready a \<and> asm_header a \<noteq> None \<and>
             unat (asm_part_count a) = stored_part_count db eventID
          then db\<lparr>assemblies := fmupd eventID (a\<lparr>asm_ready := True\<rparr>) (assemblies db)\<rparr>
          else db)"

definition storeTransportMessage ::
  "lib \<Rightarrow> transport_message \<times> bytes \<Rightarrow> transport_db \<Rightarrow> unit + transport_db" where
  "storeTransportMessage lib = (\<lambda>(message, text) db.
     bindE (completedTransport db message) (\<lambda>completed.
     if completed then Inr db
     else bindE (storeAssembly message db) (\<lambda>db.
       bindE (if tm_message message = messageKindPart then storeAssemblyPart lib message db
              else Inr (storeAssemblyHeader message text db)) (\<lambda>db.
       Inr (mark_ready (tm_event message) db)))))"

text \<open>
  \<open>assemblyPartReader\<close>: the payloads of the declared parts in index order; a part that is missing,
  too long or does not match its digest is an error. \<open>reader_complete\<close> is the digest check after
  the last part.
\<close>

fun read_parts :: "lib \<Rightarrow> transport_db \<Rightarrow> uuid \<Rightarrow> nat \<Rightarrow> nat \<Rightarrow> unit + bytes" where
  "read_parts lib db eventID i 0 = Inr []"
| "read_parts lib db eventID i (Suc remaining) =
     (case fmlookup (assembly_parts db) (eventID, of_nat i) of
        None \<Rightarrow> Inl ()
      | Some (digest, payload) \<Rightarrow>
          if length payload > EventPartMaxBytes \<or> sha256Hex lib payload \<noteq> digest then Inl ()
          else bindE (read_parts lib db eventID (Suc i) remaining) (\<lambda>rest. Inr (payload @ rest)))"

definition read_assembly :: "lib \<Rightarrow> transport_db \<Rightarrow> transport_message \<Rightarrow> unit + bytes" where
  "read_assembly lib db manifest =
     bindE (read_parts lib db (tm_event manifest) 0 (unat (tm_part_count manifest))) (\<lambda>stream.
     if sha256Hex lib stream = tm_transport_digest manifest then Inr stream else Inl ())"

definition finishAssembly :: "uuid \<Rightarrow> string \<Rightarrow> transport_db \<Rightarrow> transport_db" where
  "finishAssembly eventID transportDigest db =
     db\<lparr>completed_transports :=
          (if fmlookup (completed_transports db) eventID = None
           then fmupd eventID transportDigest (completed_transports db) else completed_transports db),
        assembly_parts := fmfilter (\<lambda>k. fst k \<noteq> eventID) (assembly_parts db),
        assemblies := fmdrop eventID (assemblies db)\<rparr>"

text \<open>
  The transport branch of \<open>projectOne\<close>: the record is decoded and stored. A record that is no
  transport message takes the plain event path, which is outside this theory; it is an error here.
\<close>

definition deliver :: "lib \<Rightarrow> wire \<Rightarrow> bytes \<Rightarrow> transport_db \<Rightarrow> unit + transport_db" where
  "deliver lib w text db =
     bindE (decodeTransportMessage w text) (\<lambda>m.
     case m of None \<Rightarrow> Inl () | Some message \<Rightarrow> storeTransportMessage lib (message, text) db)"

definition assembly_ready :: "transport_db \<Rightarrow> uuid \<Rightarrow> bool" where
  "assembly_ready db eventID =
     (case fmlookup (assemblies db) eventID of None \<Rightarrow> False | Some a \<Rightarrow> asm_ready a)"

section \<open>Facts\<close>

lemma concat_split_envelope [simp]: "concat (split_envelope e) = e"
  by (induction e rule: split_envelope.induct) (subst split_envelope.simps, simp)

lemma split_envelope_bounds:
  "p \<in> set (split_envelope e) \<Longrightarrow> p \<noteq> [] \<and> length p \<le> EventPartMaxBytes"
proof (induction e rule: split_envelope.induct)
  case (1 e)
  show ?case using 1 by (subst (asm) (2) split_envelope.simps)
    (auto simp: EventPartMaxBytes_def split: if_splits)
qed

lemma length_split_envelope:
  "length (split_envelope e) = (length e + EventPartMaxBytes - 1) div EventPartMaxBytes"
proof (induction e rule: split_envelope.induct)
  case (1 e)
  show ?case
  proof (cases "e = []")
    case False
    then have "length (split_envelope e) = Suc (length (split_envelope (drop EventPartMaxBytes e)))"
      by (subst split_envelope.simps) simp
    also have "\<dots> = Suc ((length e - EventPartMaxBytes + EventPartMaxBytes - 1) div EventPartMaxBytes)"
      using 1 False by simp
    also have "\<dots> = (length e + EventPartMaxBytes - 1) div EventPartMaxBytes"
    proof (cases "length e \<ge> EventPartMaxBytes")
      case True
      then obtain r where "length e = EventPartMaxBytes + r" using le_Suc_ex by blast
      then show ?thesis by (simp add: EventPartMaxBytes_def)
    next
      case small: False
      with False obtain r where "length e = Suc r" by (cases e) auto
      then show ?thesis using small by (simp add: EventPartMaxBytes_def)
    qed
    finally show ?thesis .
  qed (simp add: split_envelope.simps EventPartMaxBytes_def)
qed

lemma split_envelope_Nil_iff [simp]: "split_envelope e = [] \<longleftrightarrow> e = []"
  by (subst split_envelope.simps) simp

lemma hex_value_digit [simp]: "n < 16 \<Longrightarrow> hex_value (hex_digit n) = Some n"
  by (simp add: hex_value_def hex_digit_def Let_def)

lemma hex_decode_encode [simp]: "hex_decode (hex_encode bs) = Some bs"
proof (induction bs)
  case (Cons b bs)
  have "unat b < 256" using unsigned_less [of b, where ?'a = nat] by simp
  then have "unat b div 16 < 16" by simp
  then show ?case using Cons by (simp add: hex_encode_def)
qed (simp add: hex_encode_def)

lemma length_hex_encode [simp]: "length (hex_encode bs) = 2 * length bs"
  by (induction bs) (auto simp: hex_encode_def)

lemma isSHA256Hex_sha256Hex [simp]: "isSHA256Hex (sha256Hex lib bs)"
  by (simp add: isSHA256Hex_def sha256Hex_def digest_bytes_def)

lemma length_event_parts [simp]: "length (event_parts lib ev e) = length (split_envelope e)"
  by (simp add: event_parts_def Let_def)

lemma nth_event_parts:
  "i < length (split_envelope e) \<Longrightarrow> event_parts lib ev e ! i =
    \<lparr>part_event = ev, part_index = of_nat i, part_count = of_nat (length (split_envelope e)),
     part_digest = sha256Hex lib (split_envelope e ! i), part_transport_digest = sha256Hex lib e,
     part_payload = split_envelope e ! i\<rparr>"
  by (simp add: event_parts_def Let_def nth_enumerate_eq)

section \<open>Delivery in any order\<close>

text \<open>
  The state of one assembly after the manifest (\<open>h\<close>) and the parts with the indices \<open>P\<close> of an
  envelope have been stored, in whatever order and however often.
\<close>

definition transport_shape :: "transport_message \<Rightarrow> bytes list \<Rightarrow> bool" where
  "transport_shape M payloads \<longleftrightarrow>
     tm_message M = messageKindManifest \<and> tm_commit_version M = [] \<and>
     tm_part_count M = of_nat (length payloads) \<and>
     payloads \<noteq> [] \<and> length payloads < 2 ^ 32 \<and>
     (\<forall>p \<in> set payloads. length p \<le> EventPartMaxBytes)"

definition not_completed :: "transport_message \<Rightarrow> transport_db \<Rightarrow> bool" where
  "not_completed M db \<longleftrightarrow>
     fmlookup (completed_transports db) (tm_event M) = None \<and> tm_event M |\<notin>| projected_events db"

definition stored_parts :: "lib \<Rightarrow> uuid \<Rightarrow> bytes list \<Rightarrow> nat set \<Rightarrow> transport_db \<Rightarrow> bool" where
  "stored_parts lib ev payloads P db \<longleftrightarrow>
     P \<subseteq> {..<length payloads} \<and>
     (\<forall>i d. fmlookup (assembly_parts db) (ev, i) = Some d \<longleftrightarrow>
        (\<exists>k \<in> P. i = of_nat k \<and> d = (sha256Hex lib (payloads ! k), payloads ! k)))"

definition assembly_row :: "transport_message \<Rightarrow> bytes \<Rightarrow> bool \<Rightarrow> bool \<Rightarrow> assembly" where
  "assembly_row M header h ready =
     \<lparr>asm_org = tm_org M, asm_shard = tm_shard M, asm_part_count = tm_part_count M,
      asm_transport_digest = tm_transport_digest M, asm_header = (if h then Some header else None),
      asm_commit_version = [], asm_ready = ready\<rparr>"

definition assembled ::
  "lib \<Rightarrow> transport_message \<Rightarrow> bytes \<Rightarrow> bytes list \<Rightarrow> nat set \<Rightarrow> bool \<Rightarrow> transport_db \<Rightarrow> bool" where
  "assembled lib M header payloads P h db \<longleftrightarrow>
     not_completed M db \<and> stored_parts lib (tm_event M) payloads P db \<and>
     fmlookup (assemblies db) (tm_event M) =
       (if P = {} \<and> \<not> h then None
        else Some (assembly_row M header h (h \<and> P = {..<length payloads})))"

lemma unat_of_nat_32: "i < 2 ^ 32 \<Longrightarrow> unat (of_nat i :: 32 word) = i"
  by (simp add: unsigned_of_nat take_bit_nat_eq_self)

lemma of_nat_32_inj:
  "i < 2 ^ 32 \<Longrightarrow> j < 2 ^ 32 \<Longrightarrow> (of_nat i :: 32 word) = of_nat j \<longleftrightarrow> i = j"
  by (metis unat_of_nat_32)

lemma stored_parts_index_inj:
  assumes "stored_parts lib ev payloads P db" "length payloads < 2 ^ 32" "j \<in> P" "k < length payloads"
    and "(of_nat k :: 32 word) = of_nat j"
  shows "j = k"
proof -
  have "j < length payloads" using assms(1,3) by (auto simp: stored_parts_def)
  then show ?thesis using of_nat_32_inj [of k j] assms by simp
qed

lemma stored_parts_count:
  assumes "stored_parts lib ev payloads P db" "length payloads < 2 ^ 32"
  shows "stored_part_count db ev = card P"
proof -
  have dom: "(ev, i) |\<in>| fmdom (assembly_parts db) \<longleftrightarrow> (\<exists>k \<in> P. i = of_nat k)" for i
    using assms(1) unfolding stored_parts_def fmlookup_dom_iff by blast
  have "fset (ffilter (\<lambda>k. fst k = ev) (fmdom (assembly_parts db))) = (\<lambda>k. (ev, of_nat k)) ` P"
    (is "?A = ?B")
  proof (rule set_eqI)
    fix x :: "uuid \<times> 32 word"
    obtain e i where x: "x = (e, i)" by (cases x)
    show "x \<in> ?A \<longleftrightarrow> x \<in> ?B" using dom [of i] by (auto simp: x)
  qed
  moreover have "inj_on (\<lambda>k. (ev, of_nat k :: 32 word)) P"
  proof (rule inj_onI)
    fix i j assume "i \<in> P" "j \<in> P" "(ev, of_nat i :: 32 word) = (ev, of_nat j)"
    moreover have "i < length payloads" using assms(1) \<open>i \<in> P\<close> by (auto simp: stored_parts_def)
    ultimately show "i = j" using stored_parts_index_inj [OF assms, of j i] by simp
  qed
  ultimately show ?thesis by (simp add: stored_part_count_def fcard.rep_eq card_image)
qed

lemma storeAssembly_row:
  assumes "assembled lib M header payloads P h db"
    and "tm_event m = tm_event M" "tm_org m = tm_org M" "tm_shard m = tm_shard M"
      "tm_part_count m = tm_part_count M" "tm_transport_digest m = tm_transport_digest M"
    and "payloads \<noteq> []"
  shows "\<exists>db'. storeAssembly m db = Inr db' \<and> not_completed M db' \<and>
    stored_parts lib (tm_event M) payloads P db' \<and>
    fmlookup (assemblies db') (tm_event M) =
      Some (assembly_row M header h (h \<and> P = {..<length payloads}))"
  using assms
  by (cases "P = {} \<and> \<not> h")
     (auto simp: assembled_def storeAssembly_def not_completed_def stored_parts_def assembly_row_def)

lemma storeAssemblyPart_stored:
  assumes P: "stored_parts lib (tm_event m) payloads P db" and n: "length payloads < 2 ^ 32"
    and k: "k < length payloads" and size: "length (payloads ! k) \<le> EventPartMaxBytes"
    and m: "tm_part_index m = of_nat k" "tm_part_count m = of_nat (length payloads)"
      "tm_payload m = payloads ! k" "tm_part_digest m = sha256Hex lib (payloads ! k)"
  shows "\<exists>db'. storeAssemblyPart lib m db = Inr db' \<and>
    stored_parts lib (tm_event m) payloads (insert k P) db' \<and> assemblies db' = assemblies db \<and>
    completed_transports db' = completed_transports db \<and> projected_events db' = projected_events db"
proof -
  have idx: "\<not> tm_part_index m \<ge> tm_part_count m"
    using k n by (simp add: m word_le_nat_alt unat_of_nat_32)
  note inj = stored_parts_index_inj [OF P n _ k]
  show ?thesis
  proof (cases "fmlookup (assembly_parts db) (tm_event m, of_nat k)")
    case None
    have "stored_parts lib (tm_event m) payloads (insert k P)
      (db\<lparr>assembly_parts := fmupd (tm_event m, of_nat k) (sha256Hex lib (payloads ! k), payloads ! k)
        (assembly_parts db)\<rparr>)"
      using P k inj by (auto simp: stored_parts_def)
    then show ?thesis using None idx size by (simp add: storeAssemblyPart_def m)
  next
    case (Some d)
    then obtain j where j: "j \<in> P" "of_nat k = (of_nat j :: 32 word)"
      "d = (sha256Hex lib (payloads ! j), payloads ! j)"
      using P unfolding stored_parts_def by blast
    then have "j = k" using inj by blast
    then have "insert k P = P" "d = (sha256Hex lib (payloads ! k), payloads ! k)" using j by auto
    then have "storeAssemblyPart lib m db = Inr db"
      using Some idx size by (simp add: storeAssemblyPart_def m)
    then show ?thesis using P \<open>insert k P = P\<close> by simp
  qed
qed

lemma mark_ready_row:
  assumes "stored_parts lib (tm_event M) payloads P db" "transport_shape M payloads"
    and "fmlookup (assemblies db) (tm_event M) = Some (assembly_row M header h r)"
    and "r \<Longrightarrow> h \<and> P = {..<length payloads}" "not_completed M db" "h \<or> P \<noteq> {}"
  shows "assembled lib M header payloads P h (mark_ready (tm_event M) db)"
proof -
  have n: "length payloads < 2 ^ 32" "tm_part_count M = of_nat (length payloads)"
    using assms(2) by (auto simp: transport_shape_def)
  have sub: "P \<subseteq> {..<length payloads}" using assms(1) by (simp add: stored_parts_def)
  have full: "length payloads = card P \<longleftrightarrow> P = {..<length payloads}"
    using sub card_subset_eq [of "{..<length payloads}" P] by auto
  have "unat (tm_part_count M) = stored_part_count db (tm_event M) \<longleftrightarrow> P = {..<length payloads}"
    using n full stored_parts_count [OF assms(1) n(1)] by (simp add: unat_of_nat_32)
  then show ?thesis
    using assms
    by (cases r; cases h)
       (auto simp: assembled_def mark_ready_def assembly_row_def not_completed_def stored_parts_def)
qed

lemma store_part:
  assumes a: "assembled lib M header payloads P h db" and M: "transport_shape M payloads"
    and k: "k < length payloads"
    and m: "m = part_message M p" "part_index p = of_nat k" "part_payload p = payloads ! k"
      "part_digest p = sha256Hex lib (payloads ! k)"
  shows "\<exists>db'. storeTransportMessage lib (m, text) db = Inr db' \<and>
    assembled lib M header payloads (insert k P) h db'"
proof -
  have eqs: "tm_event m = tm_event M" "tm_org m = tm_org M" "tm_shard m = tm_shard M"
      "tm_part_count m = tm_part_count M" "tm_transport_digest m = tm_transport_digest M"
      "tm_part_index m = of_nat k" "tm_payload m = payloads ! k"
      "tm_part_digest m = sha256Hex lib (payloads ! k)" "tm_message m = messageKindPart"
    using m by (simp_all add: part_message_def)
  have shape: "length payloads < 2 ^ 32" "tm_part_count M = of_nat (length payloads)" "payloads \<noteq> []"
    "length (payloads ! k) \<le> EventPartMaxBytes"
    using M k by (auto simp: transport_shape_def)
  have open_: "completedTransport db m = Inr False"
    using a by (simp add: assembled_def not_completed_def completedTransport_def eqs)
  obtain db1 where 1: "storeAssembly m db = Inr db1" "not_completed M db1"
    "stored_parts lib (tm_event M) payloads P db1"
    "fmlookup (assemblies db1) (tm_event M) =
      Some (assembly_row M header h (h \<and> P = {..<length payloads}))"
    using storeAssembly_row [OF a] eqs shape by blast
  obtain db2 where 2: "storeAssemblyPart lib m db1 = Inr db2"
    "stored_parts lib (tm_event M) payloads (insert k P) db2" "assemblies db2 = assemblies db1"
    "completed_transports db2 = completed_transports db1" "projected_events db2 = projected_events db1"
    using storeAssemblyPart_stored [of lib m payloads P db1 k] 1(3) shape k eqs by auto
  have "assembled lib M header payloads (insert k P) h (mark_ready (tm_event M) db2)"
    by (rule mark_ready_row [OF 2(2) M, where r = "h \<and> P = {..<length payloads}"])
       (use 1 2 k in \<open>auto simp: not_completed_def\<close>)
  then show ?thesis
    using open_ 1(1) 2(1) by (simp add: storeTransportMessage_def eqs)
qed

lemma store_manifest:
  assumes a: "assembled lib M header payloads P h db" and M: "transport_shape M payloads"
  shows "\<exists>db'. storeTransportMessage lib (M, header) db = Inr db' \<and>
    assembled lib M header payloads P True db'"
proof -
  have shape: "payloads \<noteq> []" "tm_message M \<noteq> messageKindPart" "tm_commit_version M = []"
    using M by (auto simp: transport_shape_def)
  have open_: "completedTransport db M = Inr False"
    using a by (simp add: assembled_def not_completed_def completedTransport_def)
  obtain db1 where 1: "storeAssembly M db = Inr db1" "not_completed M db1"
    "stored_parts lib (tm_event M) payloads P db1"
    "fmlookup (assemblies db1) (tm_event M) =
      Some (assembly_row M header h (h \<and> P = {..<length payloads}))"
    using storeAssembly_row [OF a] shape by blast
  let ?db2 = "storeAssemblyHeader M header db1"
  have row: "fmlookup (assemblies ?db2) (tm_event M) =
      Some (assembly_row M header True (h \<and> P = {..<length payloads}))"
    using 1(4) shape by (cases h) (simp_all add: storeAssemblyHeader_def assembly_row_def)
  have same: "assembly_parts ?db2 = assembly_parts db1"
    "completed_transports ?db2 = completed_transports db1" "projected_events ?db2 = projected_events db1"
    using 1(4) by (simp_all add: storeAssemblyHeader_def)
  have "assembled lib M header payloads P True (mark_ready (tm_event M) ?db2)"
    by (rule mark_ready_row [OF _ M row])
       (use 1 same in \<open>auto simp: not_completed_def stored_parts_def\<close>)
  then show ?thesis
    using open_ 1(1) shape by (simp add: storeTransportMessage_def)
qed

lemma read_parts_stored:
  assumes "stored_parts lib ev payloads {..<length payloads} db"
    and "\<forall>p \<in> set payloads. length p \<le> EventPartMaxBytes"
  shows "i + r = length payloads \<Longrightarrow> read_parts lib db ev i r = Inr (concat (drop i payloads))"
proof (induction r arbitrary: i)
  case (Suc r)
  then have i: "i < length payloads" by simp
  have "fmlookup (assembly_parts db) (ev, of_nat i) = Some (sha256Hex lib (payloads ! i), payloads ! i)"
    using assms(1) i unfolding stored_parts_def by blast
  moreover have "length (payloads ! i) \<le> EventPartMaxBytes" using assms(2) i by simp
  moreover have "read_parts lib db ev (Suc i) r = Inr (concat (drop (Suc i) payloads))"
    using Suc by simp
  ultimately show ?case using i by (simp add: Cons_nth_drop_Suc [symmetric])
qed simp

text \<open>A text decodes to the message it encodes.\<close>

definition wire_round_trip :: "wire \<Rightarrow> transport_message \<Rightarrow> bool" where
  "wire_round_trip w m \<longleftrightarrow>
     wire_probe w (wire_message w m) = Some (tm_message m) \<and>
     wire_message_value w (wire_message w m) = Some m"

lemma decode_round_trip:
  assumes "wire_round_trip w m" "tm_format_version m = eventPartsFormatVersion"
    and "tm_message m = messageKindPart \<or> tm_message m = messageKindManifest"
    and "tm_event m \<noteq> uuid_nil" "tm_part_count m \<noteq> 0" "isSHA256Hex (tm_transport_digest m)"
  shows "decodeTransportMessage w (wire_message w m) = Inr (Some m)"
  using assms by (auto simp: wire_round_trip_def decodeTransportMessage_def)

text \<open>
  The messages of an envelope: the manifest and one message per part. \<open>part_texts\<close> collects the
  indices of the parts that a sequence of delivered texts has brought.
\<close>

definition decodable :: "wire \<Rightarrow> lib \<Rightarrow> transport_message \<Rightarrow> event_part list \<Rightarrow> bytes list \<Rightarrow> bool" where
  "decodable w lib M ps payloads \<longleftrightarrow>
     decodeTransportMessage w (wire_message w M) = Inr (Some M) \<and> length ps = length payloads \<and>
     (\<forall>k < length ps.
        decodeTransportMessage w (wire_message w (part_message M (ps ! k))) =
          Inr (Some (part_message M (ps ! k))) \<and>
        part_index (ps ! k) = of_nat k \<and> part_payload (ps ! k) = payloads ! k \<and>
        part_digest (ps ! k) = sha256Hex lib (payloads ! k))"

definition part_texts :: "wire \<Rightarrow> transport_message \<Rightarrow> event_part list \<Rightarrow> bytes list \<Rightarrow> nat set" where
  "part_texts w M ps texts =
     {k. k < length ps \<and> wire_message w (part_message M (ps ! k)) \<in> set texts}"

lemma deliver_one:
  assumes a: "assembled lib M (wire_message w M) payloads P h db" and M: "transport_shape M payloads"
    and d: "decodable w lib M ps payloads"
    and t: "t = wire_message w M \<or> t \<in> set (map (\<lambda>p. wire_message w (part_message M p)) ps)"
  shows "\<exists>db'. deliver lib w t db = Inr db' \<and>
    assembled lib M (wire_message w M) payloads (P \<union> part_texts w M ps [t]) (h \<or> t = wire_message w M) db'"
proof (cases "t = wire_message w M")
  case True
  have "part_texts w M ps [t] = {}"
  proof -
    have "wire_message w (part_message M (ps ! k)) \<noteq> wire_message w M" if k: "k < length ps" for k
    proof
      assume "wire_message w (part_message M (ps ! k)) = wire_message w M"
      then have "part_message M (ps ! k) = M" using d k unfolding decodable_def by (metis Inr_inject option.inject)
      moreover have "tm_message (part_message M (ps ! k)) = messageKindPart" by (simp add: part_message_def)
      moreover have "tm_message M = messageKindManifest" using M by (simp add: transport_shape_def)
      ultimately show False by simp
    qed
    then show ?thesis by (auto simp: part_texts_def True)
  qed
  then show ?thesis
    using store_manifest [OF a M] d True by (auto simp: deliver_def decodable_def)
next
  case False
  with t obtain k where k: "k < length ps" and tk: "t = wire_message w (part_message M (ps ! k))"
    by (auto simp: in_set_conv_nth)
  have "part_texts w M ps [t] = {k}"
  proof -
    have "j = k" if j: "j < length ps" "wire_message w (part_message M (ps ! j)) = t" for j
    proof -
      have "part_message M (ps ! j) = part_message M (ps ! k)"
        using d j k tk unfolding decodable_def by (metis Inr_inject option.inject)
      then have "tm_part_index (part_message M (ps ! j)) = tm_part_index (part_message M (ps ! k))" by simp
      then have "(of_nat j :: 32 word) = of_nat k" using d j(1) k by (simp add: part_message_def decodable_def)
      moreover have "length ps < 2 ^ 32" using M d by (simp add: transport_shape_def decodable_def)
      ultimately show "j = k" using of_nat_32_inj [of j k] j(1) k by simp
    qed
    then show ?thesis using k tk by (auto simp: part_texts_def)
  qed
  moreover have "\<exists>db'. storeTransportMessage lib (part_message M (ps ! k), t) db = Inr db' \<and>
      assembled lib M (wire_message w M) payloads (insert k P) h db'"
    by (rule store_part [OF a M]) (use d k in \<open>auto simp: decodable_def\<close>)
  ultimately show ?thesis
    using d k tk False by (auto simp: deliver_def decodable_def)
qed

lemma deliver_all:
  assumes M: "transport_shape M payloads" and d: "decodable w lib M ps payloads"
  shows "assembled lib M (wire_message w M) payloads P h db \<Longrightarrow>
    set texts \<subseteq> insert (wire_message w M) (set (map (\<lambda>p. wire_message w (part_message M p)) ps)) \<Longrightarrow>
    \<exists>db'. foldE (deliver lib w) texts db = Inr db' \<and>
      assembled lib M (wire_message w M) payloads (P \<union> part_texts w M ps texts)
        (h \<or> wire_message w M \<in> set texts) db'"
proof (induction texts arbitrary: P h db)
  case Nil
  then show ?case by (simp add: part_texts_def)
next
  case (Cons t texts)
  have "t = wire_message w M \<or> t \<in> set (map (\<lambda>p. wire_message w (part_message M p)) ps)"
    using Cons.prems(2) by simp
  from deliver_one [OF Cons.prems(1) M d this] obtain db1 where 1: "deliver lib w t db = Inr db1"
    "assembled lib M (wire_message w M) payloads (P \<union> part_texts w M ps [t]) (h \<or> t = wire_message w M) db1"
    by blast
  have "part_texts w M ps (t # texts) = part_texts w M ps [t] \<union> part_texts w M ps texts"
    by (auto simp: part_texts_def)
  moreover from Cons.IH [OF 1(2)] Cons.prems(2) obtain db2 where
    2: "foldE (deliver lib w) texts db1 = Inr db2"
    "assembled lib M (wire_message w M) payloads (P \<union> part_texts w M ps [t] \<union> part_texts w M ps texts)
      ((h \<or> t = wire_message w M) \<or> wire_message w M \<in> set texts) db2" by auto
  moreover have "((h \<or> t = wire_message w M) \<or> wire_message w M \<in> set texts) =
      (h \<or> wire_message w M \<in> set (t # texts))" by auto
  ultimately show ?case using 1(1) by (simp add: Un_assoc)
qed

section \<open>Sample values\<close>

definition sample_event :: audit_event where
  "sample_event = sample_operation\<lparr>ev_id := 9\<rparr>"

definition sample_manifest :: transport_message where
  "sample_manifest = newManifestMessage sample_event 1 (sha256Hex sample_lib [7, 8])"

definition sample_part :: event_part where
  "sample_part =
     \<lparr>part_event = 9, part_index = 0, part_count = 1, part_digest = sha256Hex sample_lib [7, 8],
      part_transport_digest = sha256Hex sample_lib [7, 8], part_payload = [7, 8]\<rparr>"

text \<open>An encoding of the two messages of an event whose envelope is the text \<open>[7, 8]\<close>.\<close>

definition sample_wire :: wire where
  "sample_wire =
     \<lparr>wire_envelope = (\<lambda>_ _. Some [7, 8]), wire_event = (\<lambda>_. Some [7]),
      wire_message = (\<lambda>m. if tm_message m = messageKindPart then [1] else [0]),
      wire_target = (\<lambda>_. [2]), wire_targets = (\<lambda>ts. map (\<lambda>_. 2) ts),
      wire_probe = (\<lambda>bs. Some (if bs = [1] then messageKindPart else messageKindManifest)),
      wire_message_value = (\<lambda>bs. Some (if bs = [1] then part_message sample_manifest sample_part
        else sample_manifest)),
      wire_envelope_value = (\<lambda>_. Some (sample_event, []))\<rparr>"

definition sample_encoded :: encoded_event where
  "sample_encoded =
     \<lparr>enc_event = 9, enc_transport_digest = sha256Hex sample_lib [7, 8], enc_header = [0],
      enc_parts = [sample_part], enc_single = True\<rparr>"

definition empty_transport_db :: transport_db where
  "empty_transport_db =
     \<lparr>assemblies = fmempty, assembly_parts = fmempty, completed_transports = fmempty,
      projected_events = {||}\<rparr>"

lemma sample_EncodeEvent: "EncodeEvent sample_lib sample_wire sample_event [] = Inr sample_encoded"
proof -
  have "split_envelope [7, 8] = [[7, 8]]"
    by (simp add: split_envelope.simps EventPartMaxBytes_def)
  then show ?thesis
    by (simp add: EncodeEvent_def checkReadManifest_def sample_event_def sample_operation_def
        sample_wire_def sample_encoded_def event_parts_def sample_part_def newManifestMessage_def)
qed

lemma sample_round_trip:
  "list_all (wire_round_trip sample_wire) [sample_manifest, part_message sample_manifest sample_part]"
  by (simp add: wire_round_trip_def sample_wire_def sample_manifest_def newManifestMessage_def
      part_message_def)

lemma sample_manifest_eq:
  "sample_manifest = newManifestMessage sample_event (of_nat (length (enc_parts sample_encoded)))
    (enc_transport_digest sample_encoded)"
  by (simp add: sample_manifest_def sample_encoded_def)

section \<open>Properties\<close>

text \<open>
  C34: \<open>EncodeEvent\<close> loses nothing. The payloads of the parts, in index order, concatenate to the
  marshalled envelope; each has at least one and at most \<open>EventPartMaxBytes\<close> bytes, states its own
  position and the total, and carries the digest of its payload and of the whole envelope. The event
  is sent as one plain record exactly when it has no read targets and its envelope is not empty and
  fits in one part.
\<close>

theorem EncodeEvent_parts:
  assumes "EncodeEvent lib w event targets = Inr e" "wire_envelope w event targets = Some envelope"
    and "length envelope \<le> EventPartMaxBytes * (2 ^ 32 - 1)"
  shows "concat (map part_payload (enc_parts e)) = envelope \<and>
    (\<forall>i < length (enc_parts e). let p = enc_parts e ! i in
       part_payload p \<noteq> [] \<and> length (part_payload p) \<le> EventPartMaxBytes \<and> unat (part_index p) = i \<and>
       unat (part_count p) = length (enc_parts e) \<and> part_digest p = sha256Hex lib (part_payload p) \<and>
       part_transport_digest p = sha256Hex lib envelope) \<and>
    (\<not> Multipart e \<longleftrightarrow> targets = [] \<and> envelope \<noteq> [] \<and> length envelope \<le> EventPartMaxBytes)"
proof -
  let ?n = "length (split_envelope envelope)"
  have e: "enc_parts e = event_parts lib (ev_id event) envelope"
    "enc_single e \<longleftrightarrow> (of_nat ?n :: 32 word) = 1 \<and> targets = []"
    using assms(1,2) by (auto simp: EncodeEvent_def err_simps Let_def split: if_splits)
  have n: "?n < 2 ^ 32" using assms(3) by (simp add: length_split_envelope EventPartMaxBytes_def)
  have payloads: "map part_payload (enc_parts e) = split_envelope envelope"
    by (rule nth_equalityI) (simp_all add: e nth_event_parts)
  have "part_payload (enc_parts e ! i) \<noteq> [] \<and> length (part_payload (enc_parts e ! i)) \<le> EventPartMaxBytes"
    if "i < ?n" for i
    using that split_envelope_bounds [of "split_envelope envelope ! i" envelope]
    by (simp add: e nth_event_parts)
  moreover have "(of_nat ?n :: 32 word) = 1 \<longleftrightarrow> envelope \<noteq> [] \<and> length envelope \<le> EventPartMaxBytes"
  proof -
    have "(of_nat ?n :: 32 word) = 1 \<longleftrightarrow> ?n = 1" using of_nat_32_inj [OF n, of 1] by simp
    also have "\<dots> \<longleftrightarrow> envelope \<noteq> [] \<and> length envelope \<le> EventPartMaxBytes"
      by (cases envelope) (auto simp: length_split_envelope EventPartMaxBytes_def)
    finally show ?thesis .
  qed
  ultimately show ?thesis
    using n payloads e by (auto simp: Multipart_def Let_def nth_event_parts unat_of_nat_32)
qed

theorem EncodeEvent_parts_witness:
  "concat (map part_payload (enc_parts sample_encoded)) = [7, 8] \<and> \<not> Multipart sample_encoded"
  using EncodeEvent_parts [OF sample_EncodeEvent, of "[7, 8]"]
  by (simp add: sample_wire_def EventPartMaxBytes_def)

text \<open>The consumer holds nothing of an event yet.\<close>

definition unknown_event :: "uuid \<Rightarrow> transport_db \<Rightarrow> bool" where
  "unknown_event eventID db \<longleftrightarrow>
     fmlookup (completed_transports db) eventID = None \<and> eventID |\<notin>| projected_events db \<and>
     fmlookup (assemblies db) eventID = None \<and>
     ffilter (\<lambda>k. fst k = eventID) (fmdom (assembly_parts db)) = {||}"

lemma unknown_event_assembled:
  assumes "unknown_event (tm_event M) db"
  shows "assembled lib M header payloads {} False db"
proof -
  have "fmlookup (assembly_parts db) (tm_event M, i) = None" for i
  proof (rule ccontr)
    assume "fmlookup (assembly_parts db) (tm_event M, i) \<noteq> None"
    then have "(tm_event M, i) |\<in>| ffilter (\<lambda>k. fst k = tm_event M) (fmdom (assembly_parts db))"
      by (auto simp: fmlookup_dom_iff)
    moreover have "ffilter (\<lambda>k. fst k = tm_event M) (fmdom (assembly_parts db)) = {||}"
      using assms by (simp add: unknown_event_def)
    ultimately show False by (metis fempty_iff)
  qed
  then show ?thesis
    using assms by (simp add: assembled_def unknown_event_def not_completed_def stored_parts_def)
qed

text \<open>What \<open>EncodeEvent\<close> produces has the shape and the decodable messages used above.\<close>

lemma EncodeEvent_messages:
  assumes "EncodeEvent lib w event targets = Inr e" "wire_envelope w event targets = Some envelope"
    and "envelope \<noteq> []" "length envelope \<le> EventPartMaxBytes * (2 ^ 32 - 1)"
    and M: "M = newManifestMessage event (of_nat (length (enc_parts e))) (enc_transport_digest e)"
    and rt: "list_all (wire_round_trip w) (M # map (part_message M) (enc_parts e))"
  shows "transport_shape M (split_envelope envelope) \<and>
    decodable w lib M (enc_parts e) (split_envelope envelope) \<and> enc_header e = wire_message w M \<and>
    Messages w e = Inr (map (\<lambda>p. wire_message w (part_message M p)) (enc_parts e) @ [wire_message w M])"
proof -
  let ?ps = "split_envelope envelope"
  have e: "enc_parts e = event_parts lib (ev_id event) envelope" "ev_id event \<noteq> uuid_nil"
    "enc_transport_digest e = sha256Hex lib envelope" "enc_header e = wire_message w M"
    using assms(1,2) M by (auto simp: EncodeEvent_def err_simps Let_def split: if_splits)
  have n: "length ?ps < 2 ^ 32" using assms(4) by (simp add: length_split_envelope EventPartMaxBytes_def)
  have shape: "transport_shape M ?ps"
    using n assms(3) split_envelope_bounds [of _ envelope]
    by (auto simp: transport_shape_def M newManifestMessage_def e)
  have n0: "(of_nat (length ?ps) :: 32 word) \<noteq> 0"
    using of_nat_32_inj [OF n, of 0] assms(3) by simp
  have dM: "decodeTransportMessage w (wire_message w M) = Inr (Some M)"
    by (rule decode_round_trip) (use rt e n0 in \<open>simp_all add: M newManifestMessage_def\<close>)
  have dP: "decodeTransportMessage w (wire_message w (part_message M p)) = Inr (Some (part_message M p))"
    if "p \<in> set (enc_parts e)" for p
    by (rule decode_round_trip)
       (use rt e n0 that in \<open>simp_all add: M newManifestMessage_def part_message_def list_all_iff\<close>)
  have "decodable w lib M (enc_parts e) ?ps"
  proof -
    have "part_index (enc_parts e ! k) = of_nat k \<and> part_payload (enc_parts e ! k) = ?ps ! k \<and>
        part_digest (enc_parts e ! k) = sha256Hex lib (?ps ! k)" if "k < length (enc_parts e)" for k
      using that by (simp add: e nth_event_parts)
    moreover have "length (enc_parts e) = length ?ps" by (simp add: e)
    ultimately show ?thesis using dM dP unfolding decodable_def by (metis nth_mem)
  qed
  moreover have "decodeManifestHeader w (wire_message w M) = Inr M"
    using dM by (simp add: decodeManifestHeader_def M newManifestMessage_def)
  ultimately show ?thesis using shape e(4) by (simp add: Messages_def partMessages_def)
qed

lemma sample_Messages: "Messages sample_wire sample_encoded = Inr [[1], [0]]"
proof -
  have texts: "wire_message sample_wire sample_manifest = [0]"
    "wire_message sample_wire (part_message sample_manifest sample_part) = [1]"
    by (simp_all add: sample_wire_def sample_manifest_def newManifestMessage_def part_message_def)
  have "Messages sample_wire sample_encoded =
      Inr (map (\<lambda>p. wire_message sample_wire (part_message sample_manifest p)) (enc_parts sample_encoded)
        @ [wire_message sample_wire sample_manifest])"
    using EncodeEvent_messages [OF sample_EncodeEvent, of "[7, 8]" sample_manifest]
      sample_manifest_eq sample_round_trip
    by (simp add: sample_wire_def EventPartMaxBytes_def sample_encoded_def)
  then show ?thesis by (simp add: texts sample_encoded_def)
qed

text \<open>
  C32: An event survives its transport. However the messages of an encoded event are reordered or
  repeated, the consumer stores every one of them without an error; the assembly is marked ready
  exactly when every part and the manifest have arrived; and then reading the stored parts back
  gives the marshalled envelope, with the digest that the manifest states.
\<close>

theorem transport_reassembles:
  assumes "EncodeEvent lib w event targets = Inr e" "wire_envelope w event targets = Some envelope"
    and "envelope \<noteq> []" "length envelope \<le> EventPartMaxBytes * (2 ^ 32 - 1)"
    and "M = newManifestMessage event (of_nat (length (enc_parts e))) (enc_transport_digest e)"
    and "list_all (wire_round_trip w) (M # map (part_message M) (enc_parts e))"
    and "unknown_event (ev_id event) db" "Messages w e = Inr messages" "set texts \<subseteq> set messages"
  shows "\<exists>db'. foldE (deliver lib w) texts db = Inr db' \<and>
    (assembly_ready db' (ev_id event) \<longleftrightarrow> set messages \<subseteq> set texts) \<and>
    (assembly_ready db' (ev_id event) \<longrightarrow> read_assembly lib db' M = Inr envelope)"
proof -
  let ?ps = "split_envelope envelope" let ?txt = "\<lambda>p. wire_message w (part_message M p)"
  have shape: "transport_shape M ?ps" and dec: "decodable w lib M (enc_parts e) ?ps"
    and msgs: "set messages = insert (wire_message w M) (set (map ?txt (enc_parts e)))"
    using EncodeEvent_messages [OF assms(1-6)] assms(8) by auto
  have ev: "tm_event M = ev_id event" and dig: "tm_transport_digest M = sha256Hex lib envelope"
    using assms(1,2,5) by (auto simp: newManifestMessage_def EncodeEvent_def err_simps Let_def split: if_splits)
  have "assembled lib M (wire_message w M) ?ps {} False db"
    using unknown_event_assembled assms(7) ev by simp
  from deliver_all [OF shape dec this, of texts] assms(9) msgs obtain db' where
    db': "foldE (deliver lib w) texts db = Inr db'"
    "assembled lib M (wire_message w M) ?ps (part_texts w M (enc_parts e) texts)
      (wire_message w M \<in> set texts) db'" by auto
  have len: "length (enc_parts e) = length ?ps" using dec by (simp add: decodable_def)
  have all: "part_texts w M (enc_parts e) texts = {..<length ?ps} \<longleftrightarrow> set (map ?txt (enc_parts e)) \<subseteq> set texts"
  proof -
    have "set (map ?txt (enc_parts e)) \<subseteq> set texts \<longleftrightarrow> (\<forall>k < length ?ps. ?txt (enc_parts e ! k) \<in> set texts)"
      using len by (simp add: image_subset_iff all_set_conv_all_nth)
    also have "\<dots> \<longleftrightarrow> part_texts w M (enc_parts e) texts = {..<length ?ps}"
      using len unfolding part_texts_def set_eq_iff by auto
    finally show ?thesis by simp
  qed
  have ready: "assembly_ready db' (ev_id event) \<longleftrightarrow>
      wire_message w M \<in> set texts \<and> part_texts w M (enc_parts e) texts = {..<length ?ps}"
    using db'(2) shape by (auto simp: assembly_ready_def assembled_def ev assembly_row_def transport_shape_def)
  have "read_assembly lib db' M = Inr envelope" if "assembly_ready db' (ev_id event)"
  proof -
    have "stored_parts lib (tm_event M) ?ps {..<length ?ps} db'"
      using db'(2) ready that by (simp add: assembled_def)
    then have "read_parts lib db' (tm_event M) 0 (length ?ps) = Inr envelope"
      using read_parts_stored [of lib "tm_event M" ?ps db' 0 "length ?ps"] split_envelope_bounds by auto
    then show ?thesis
      using shape dig by (simp add: read_assembly_def transport_shape_def unat_of_nat_32)
  qed
  then show ?thesis using db'(1) ready all msgs by auto
qed

theorem transport_reassembles_witness:
  "\<exists>db'. foldE (deliver sample_lib sample_wire) [[0], [1], [0]] empty_transport_db = Inr db' \<and>
    assembly_ready db' 9 \<and> read_assembly sample_lib db' sample_manifest = Inr [7, 8]"
proof -
  have "wire_envelope sample_wire sample_event [] = Some [7, 8]" by (simp add: sample_wire_def)
  moreover have "length [7, 8 :: 8 word] \<le> EventPartMaxBytes * (2 ^ 32 - 1)"
    by (simp add: EventPartMaxBytes_def)
  moreover have "list_all (wire_round_trip sample_wire)
      (sample_manifest # map (part_message sample_manifest) (enc_parts sample_encoded))"
    using sample_round_trip by (simp add: sample_encoded_def)
  moreover have "unknown_event (ev_id sample_event) empty_transport_db"
    by (auto simp: unknown_event_def empty_transport_db_def)
  ultimately show ?thesis
    using transport_reassembles [OF sample_EncodeEvent, of "[7, 8]" sample_manifest
        empty_transport_db "[[1], [0]]" "[[0], [1], [0]]"] sample_manifest_eq sample_Messages
    by (auto simp: sample_event_def)
qed

end
