(* ===== verification/Audit_Chain.thy ===== *)
theory Audit_Chain
  imports Audit_Transport
begin

text \<open>
  The audit ledger (\<open>internal/audit/chain_append.go\<close>, \<open>chain_head.go\<close>, \<open>canonical.go\<close>,
  \<open>legacy_row.go\<close>, \<open>row.go\<close>, \<open>export_rowhash.go\<close> and the preparation of an event in
  \<open>consumer.go\<close>): the hash of a row over its predecessor, the append of a row to the chain of its
  organization and shard with a compare-and-swap of the chain head, the row as it is read back, and
  the check that a stored hash is reproducible. The invariant of the chains holds under every
  interleaving of writers.
\<close>

unbundle bit_operations_syntax

section \<open>Row hashes\<close>

text \<open>
  The fields that the hash of a row covers. As in the code, the second version extends the first by
  the outcome, the error and the extra data, and the third adds the version itself.
\<close>

record hash_payload_v1 =
  hp_org :: uuid
  hp_shard :: "16 word"
  hp_seq :: int
  hp_event :: uuid
  hp_event_time :: string
  hp_actor :: uuid
  hp_actor_kind :: actor_type
  hp_action :: string
  hp_entity_kind :: string
  hp_entity :: uuid
  hp_pii_ref :: uuid
  hp_context :: bytes
  hp_delta :: bytes
  hp_idempotency :: string

record hash_payload_v2 = hash_payload_v1 +
  hp_outcome :: outcome
  hp_error :: "event_error option"
  hp_extra :: bytes

record hash_payload_v3 = hash_payload_v2 +
  hp_hash_version :: int

datatype hash_payload =
    PayloadV1 hash_payload_v1
  | PayloadV2 hash_payload_v2
  | PayloadV3 hash_payload_v3

text \<open>
  What \<open>encoding/json\<close>, \<open>time.Format\<close> and the columns of type \<open>JSONB\<close> do with the values of a row:
  \<open>cod_context\<close>, \<open>cod_delta\<close> and \<open>cod_error\<close> are \<open>json.Marshal\<close> (\<open>None\<close> for a marshal error) and the
  functions with the suffix \<open>value\<close> the strict decoding of a text, where a JSON \<open>null\<close> is the value
  \<open>Some None\<close> of a pointer; \<open>cod_zero_token_context\<close> marshals a context with the member
  \<open>api_token_id\<close> always present; \<open>cod_payload\<close> marshals a hash payload and decodes the text into a
  generic value, whose objects have each key once; \<open>cod_scalar\<close> marshals a boolean, number or
  string of such a value; \<open>cod_time\<close> is the format \<open>time.RFC3339Nano\<close>; and \<open>cod_jsonb\<close> is the text
  that a \<open>JSONB\<close> column returns for a stored text.
\<close>

record codec =
  cod_context :: "event_context \<Rightarrow> bytes option"
  cod_zero_token_context :: "event_context \<Rightarrow> bytes option"
  cod_context_value :: "bytes \<Rightarrow> event_context option"
  cod_delta :: "audit_delta \<Rightarrow> bytes option"
  cod_delta_value :: "bytes \<Rightarrow> audit_delta option option"
  cod_error :: "event_error \<Rightarrow> bytes option"
  cod_error_value :: "bytes \<Rightarrow> event_error option option"
  cod_payload :: "hash_payload \<Rightarrow> json option"
  cod_scalar :: "json \<Rightarrow> bytes"
  cod_time :: "timestamp \<Rightarrow> string"
  cod_jsonb :: "bytes \<Rightarrow> bytes"

text \<open>The errors of the ledger that callers distinguish; \<open>ErrEncoding\<close> is a marshal or decode error.\<close>

datatype chain_error =
    ErrMalformedPayload
  | ErrAlreadyProjected
  | ErrChainConflict
  | ErrHashVersion
  | ErrEncoding
  | ErrOrgRequired

definition ascii_bytes :: "string \<Rightarrow> bytes" where
  "ascii_bytes s = map of_char s"

definition null_text :: bytes where
  "null_text = ascii_bytes ''null''"

fun join_bytes :: "bytes \<Rightarrow> bytes list \<Rightarrow> bytes" where
  "join_bytes sep [] = []"
| "join_bytes sep [t] = t"
| "join_bytes sep (t # u # ts) = t @ sep @ join_bytes sep (u # ts)"

fun writeCanonical :: "codec \<Rightarrow> json \<Rightarrow> bytes" where
  "writeCanonical c JNull = null_text"
| "writeCanonical c (JBool b) = cod_scalar c (JBool b)"
| "writeCanonical c (JNum n) = cod_scalar c (JNum n)"
| "writeCanonical c (JStr s) = cod_scalar c (JStr s)"
| "writeCanonical c (JArr js) =
     ascii_bytes ''['' @ join_bytes (ascii_bytes '','') (map (writeCanonical c) js) @ ascii_bytes '']''"
| "writeCanonical c (JObj ms) =
     ascii_bytes ''{'' @
     join_bytes (ascii_bytes '','') (map (\<lambda>(k, t). cod_scalar c (JStr k) @ ascii_bytes '':'' @ t)
       (sort_key fst (map (\<lambda>(k, j). (k, writeCanonical c j)) ms))) @
     ascii_bytes ''}''"

definition canonicalJSON :: "codec \<Rightarrow> hash_payload \<Rightarrow> chain_error + bytes" where
  "canonicalJSON c payload =
     (case cod_payload c payload of None \<Rightarrow> Inl ErrEncoding | Some j \<Rightarrow> Inr (writeCanonical c j))"

definition uint64_bytes :: "nat \<Rightarrow> bytes" where
  "uint64_bytes n = map (\<lambda>i. ucast (drop_bit (8 * (7 - i)) (of_nat n :: 64 word))) [0..<8]"

definition hashRow :: "lib \<Rightarrow> codec \<Rightarrow> bytes \<Rightarrow> hash_payload \<Rightarrow> chain_error + bytes" where
  "hashRow lib c prevHash payload =
     bindE (canonicalJSON c payload) (\<lambda>canonical.
     Inr (digest_bytes (lib_sha256 lib (prevHash @ uint64_bytes (length canonical) @ canonical))))"

definition auditHashVersion1 :: int where
  "auditHashVersion1 = 1"

definition auditHashVersion2 :: int where
  "auditHashVersion2 = 2"

definition auditHashVersion3 :: int where
  "auditHashVersion3 = 3"

definition auditHashVersionCurrent :: int where
  "auditHashVersionCurrent = auditHashVersion3"

lemmas hash_version_defs =
  auditHashVersion1_def auditHashVersion2_def auditHashVersion3_def auditHashVersionCurrent_def

record row_hash_input =
  rhi_event :: audit_event
  rhi_event_id :: uuid
  rhi_shard :: "16 word"
  rhi_seq :: int
  rhi_pii_ref :: uuid
  rhi_context_json :: bytes
  rhi_delta_json :: bytes
  rhi_last_hash :: bytes
  rhi_version :: int

text \<open>\<open>time.Truncate(time.Microsecond)\<close>.\<close>

definition truncate_microsecond :: "timestamp \<Rightarrow> timestamp" where
  "truncate_microsecond t = t - t mod 1000"

definition row_payload_v1 :: "codec \<Rightarrow> row_hash_input \<Rightarrow> hash_payload_v1" where
  "row_payload_v1 c i =
     (let event = rhi_event i;
          eventTime = (if rhi_version i = auditHashVersion3
            then cod_time c (truncate_microsecond (ev_occurred_at event)) else cod_time c (ev_occurred_at event)) in
      \<lparr>hp_org = ctx_org (ev_context event), hp_shard = rhi_shard i, hp_seq = rhi_seq i,
       hp_event = rhi_event_id i, hp_event_time = eventTime, hp_actor = act_id (ev_actor event),
       hp_actor_kind = act_type (ev_actor event), hp_action = ev_verb event,
       hp_entity_kind = ent_kind (ev_entity event), hp_entity = ent_id (ev_entity event),
       hp_pii_ref = rhi_pii_ref i, hp_context = rhi_context_json i, hp_delta = rhi_delta_json i,
       hp_idempotency = ev_idempotency_key event\<rparr>)"

definition row_payload_v2 :: "codec \<Rightarrow> row_hash_input \<Rightarrow> hash_payload_v2" where
  "row_payload_v2 c i =
     hash_payload_v1.extend (row_payload_v1 c i)
       \<lparr>hp_outcome = ev_outcome (rhi_event i), hp_error = ev_error (rhi_event i),
        hp_extra = ev_extra (rhi_event i)\<rparr>"

definition hashRowForEvent :: "lib \<Rightarrow> codec \<Rightarrow> row_hash_input \<Rightarrow> chain_error + bytes" where
  "hashRowForEvent lib c i =
     (if rhi_version i = auditHashVersion1
      then hashRow lib c (rhi_last_hash i) (PayloadV1 (row_payload_v1 c i))
      else if rhi_version i = auditHashVersion2
      then hashRow lib c (rhi_last_hash i) (PayloadV2 (row_payload_v2 c i))
      else if rhi_version i = auditHashVersion3
      then hashRow lib c (rhi_last_hash i)
        (PayloadV3 (hash_payload_v2.extend (row_payload_v2 c i) \<lparr>hp_hash_version = rhi_version i\<rparr>))
      else Inl ErrHashVersion)"

section \<open>The ledger tables\<close>

text \<open>
  A row of \<open>audit.events\<close>. A nullable column is an option; the columns \<open>context\<close>, \<open>delta\<close>, \<open>error\<close>
  and \<open>extra\<close> hold the texts that were bound.
\<close>

record event_row =
  er_org :: uuid
  er_shard :: "16 word"
  er_time :: timestamp
  er_event :: uuid
  er_seq :: int
  er_actor :: uuid
  er_actor_kind :: nat
  er_action :: string
  er_outcome :: "outcome option"
  er_entity_kind :: string
  er_entity :: uuid
  er_context :: bytes
  er_delta :: bytes
  er_pii_ref :: "uuid option"
  er_prev_hash :: bytes
  er_row_hash :: bytes
  er_error :: "bytes option"
  er_extra :: "bytes option"
  er_hash_version :: int
  er_idempotency_key :: string

text \<open>
  The tables \<open>audit.events\<close> in the order of insertion, \<open>audit.chain_heads\<close> and
  \<open>audit.projected_events\<close>.
\<close>

record ledger =
  led_events :: "event_row list"
  led_heads :: "(uuid \<times> 16 word, int \<times> bytes) fmap"
  led_projected :: "uuid fset"

record chain_head_state =
  ch_last_seq :: int
  ch_last_hash :: bytes
  ch_exists :: bool

text \<open>An \<open>int64\<close> sum wraps around.\<close>

definition wrap_int64 :: "int \<Rightarrow> int" where
  "wrap_int64 n = (n + 2 ^ 63) mod 2 ^ 64 - 2 ^ 63"

definition claimEventIdentity :: "uuid \<Rightarrow> ledger \<Rightarrow> bool \<times> ledger" where
  "claimEventIdentity eventID db =
     (if eventID |\<in>| led_projected db then (False, db)
      else (True, db\<lparr>led_projected := finsert eventID (led_projected db)\<rparr>))"

definition readChainHead :: "uuid \<Rightarrow> 16 word \<Rightarrow> ledger \<Rightarrow> chain_head_state" where
  "readChainHead orgID shard db =
     (case fmlookup (led_heads db) (orgID, shard) of
        None \<Rightarrow> \<lparr>ch_last_seq = 0, ch_last_hash = [], ch_exists = False\<rparr>
      | Some (lastSeq, lastHash) \<Rightarrow> \<lparr>ch_last_seq = lastSeq, ch_last_hash = lastHash, ch_exists = True\<rparr>)"

definition writeChainHead ::
  "uuid \<Rightarrow> 16 word \<Rightarrow> chain_head_state \<Rightarrow> int \<Rightarrow> bytes \<Rightarrow> ledger \<Rightarrow> chain_error + ledger" where
  "writeChainHead orgID shard head seq rowHash db =
     (let written = db\<lparr>led_heads := fmupd (orgID, shard) (seq, rowHash) (led_heads db)\<rparr> in
      case fmlookup (led_heads db) (orgID, shard) of
        Some (lastSeq, _) \<Rightarrow>
          if ch_exists head \<and> lastSeq = ch_last_seq head then Inr written else Inl ErrChainConflict
      | None \<Rightarrow> if ch_exists head then Inl ErrChainConflict else Inr written)"

text \<open>The statement that inserts a row unless one with the same event and time exists.\<close>

definition insert_event :: "event_row \<Rightarrow> ledger \<Rightarrow> chain_error + ledger" where
  "insert_event row db =
     (if list_ex (\<lambda>r. er_event r = er_event row \<and> er_time r = er_time row) (led_events db)
      then Inl ErrAlreadyProjected
      else Inr (db\<lparr>led_events := led_events db @ [row]\<rparr>))"

definition nullableJSON :: "bytes \<Rightarrow> bytes option" where
  "nullableJSON value = (if value = [] then None else Some value)"

definition piiRefArg :: "uuid \<Rightarrow> uuid option" where
  "piiRefArg ref = (if ref = uuid_nil then None else Some ref)"

definition marshalE :: "bytes option \<Rightarrow> chain_error + bytes" where
  "marshalE t = (case t of None \<Rightarrow> Inl ErrEncoding | Some text \<Rightarrow> Inr text)"

section \<open>Appending a row\<close>

record chain_append_input =
  cai_event :: audit_event
  cai_event_id :: uuid
  cai_shard :: "16 word"
  cai_pii_ref :: uuid
  cai_context_json :: bytes
  cai_delta_json :: bytes

record chain_append_result =
  car_seq :: int
  car_prev_hash :: bytes
  car_row_hash :: bytes

definition default_outcome :: "audit_event \<Rightarrow> audit_event" where
  "default_outcome event =
     (if ev_outcome event = OutcomeOther [] \<and> ctx_format_version (ev_context event) = AuditFormatLegacy
      then event\<lparr>ev_outcome := OutcomeOK\<rparr> else event)"

definition append_hash_input :: "chain_append_input \<Rightarrow> audit_event \<Rightarrow> chain_head_state \<Rightarrow> int \<Rightarrow> row_hash_input" where
  "append_hash_input i event head seq =
     \<lparr>rhi_event = event, rhi_event_id = cai_event_id i, rhi_shard = cai_shard i, rhi_seq = seq,
      rhi_pii_ref = cai_pii_ref i, rhi_context_json = cai_context_json i, rhi_delta_json = cai_delta_json i,
      rhi_last_hash = ch_last_hash head, rhi_version = auditHashVersionCurrent\<rparr>"

definition append_row ::
  "chain_append_input \<Rightarrow> audit_event \<Rightarrow> chain_head_state \<Rightarrow> int \<Rightarrow> bytes \<Rightarrow> bytes option \<Rightarrow> event_row" where
  "append_row i event head seq rowHash errorJSON =
     \<lparr>er_org = ctx_org (ev_context event), er_shard = cai_shard i,
      er_time = truncate_microsecond (ev_occurred_at event), er_event = cai_event_id i, er_seq = seq,
      er_actor = act_id (ev_actor event), er_actor_kind = actorKindCode (act_type (ev_actor event)),
      er_action = ev_verb event, er_outcome = Some (ev_outcome event),
      er_entity_kind = ent_kind (ev_entity event), er_entity = ent_id (ev_entity event),
      er_context = cai_context_json i, er_delta = cai_delta_json i, er_pii_ref = piiRefArg (cai_pii_ref i),
      er_prev_hash = ch_last_hash head, er_row_hash = rowHash, er_error = errorJSON,
      er_extra = nullableJSON (ev_extra event), er_hash_version = auditHashVersionCurrent,
      er_idempotency_key = ev_idempotency_key event\<rparr>"

text \<open>The value bound for the column \<open>error\<close>: an absent error is \<open>NULL\<close>.\<close>

definition error_column :: "codec \<Rightarrow> event_error option \<Rightarrow> chain_error + bytes option" where
  "error_column c error =
     (case error of None \<Rightarrow> Inr None | Some e \<Rightarrow> bindE (marshalE (cod_error c e)) (\<lambda>t. Inr (Some t)))"

text \<open>
  \<open>appendChainRow\<close> with the two moments at which it meets the tables: it reads the chain head in the
  state \<open>seen\<close> and its writes take effect in the state \<open>db\<close>. Other writers may commit in between; the
  two states are equal when none does. An error leaves the tables as they were, since the caller
  rolls the transaction or its savepoint back.
\<close>

definition appendChainRow ::
  "lib \<Rightarrow> codec \<Rightarrow> ledger \<Rightarrow> chain_append_input \<Rightarrow> ledger \<Rightarrow> chain_error + (chain_append_result \<times> ledger)" where
  "appendChainRow lib c seen i db =
     bindE (guardE (ValidateEvent lib (cai_event i)) ErrMalformedPayload) (\<lambda>_.
     let event = default_outcome (cai_event i); (claimed, db) = claimEventIdentity (cai_event_id i) db in
     bindE (guardE claimed ErrAlreadyProjected) (\<lambda>_.
     let head = readChainHead (ctx_org (ev_context event)) (cai_shard i) seen;
         seq = wrap_int64 (ch_last_seq head + 1) in
     bindE (hashRowForEvent lib c (append_hash_input i event head seq)) (\<lambda>rowHash.
     bindE (error_column c (ev_error event)) (\<lambda>errorJSON.
     bindE (insert_event (append_row i event head seq rowHash errorJSON) db) (\<lambda>db.
     bindE (writeChainHead (ctx_org (ev_context event)) (cai_shard i) head seq rowHash db) (\<lambda>db.
     Inr (\<lparr>car_seq = seq, car_prev_hash = ch_last_hash head, car_row_hash = rowHash\<rparr>, db)))))))"

section \<open>Preparing an event\<close>

definition canonicalizeCorrelation :: "audit_event \<Rightarrow> audit_event" where
  "canonicalizeCorrelation ev =
     (if ctx_request (ev_context ev) = []
      then ev\<lparr>ev_context := (ev_context ev)\<lparr>ctx_request := act_request (ev_actor ev)\<rparr>\<rparr> else ev)"

text \<open>
  The texts of the context and the delta and the shard of an event; the reference to the rows of
  personal data is filled in once \<open>writeEventPII\<close> has returned it.
\<close>

definition append_input :: "codec \<Rightarrow> audit_event \<Rightarrow> chain_error + chain_append_input" where
  "append_input c ev =
     bindE (marshalE (cod_context c (ev_context ev))) (\<lambda>contextJSON.
     bindE (case ev_delta ev of None \<Rightarrow> Inr null_text | Some d \<Rightarrow> marshalE (cod_delta c d)) (\<lambda>deltaJSON.
     Inr \<lparr>cai_event = ev, cai_event_id = ev_id ev, cai_shard = shardOf (act_id (ev_actor ev)) (ev_id ev),
          cai_pii_ref = uuid_nil, cai_context_json = contextJSON, cai_delta_json = deltaJSON\<rparr>))"

definition prepareEvent :: "codec \<Rightarrow> audit_event \<Rightarrow> chain_error + chain_append_input" where
  "prepareEvent c ev =
     bindE (guardE (ev_occurred_at ev \<noteq> 0) ErrMalformedPayload) (\<lambda>_.
     let ev = canonicalizeCorrelation ev in
     bindE (guardE (ev_id ev \<noteq> uuid_nil) ErrMalformedPayload) (\<lambda>_.
     append_input c ev))"

text \<open>The consumer's append of a prepared event.\<close>

definition advanceChain ::
  "lib \<Rightarrow> codec \<Rightarrow> ledger \<Rightarrow> chain_append_input \<Rightarrow> ledger \<Rightarrow> chain_error + (chain_append_result \<times> ledger)" where
  "advanceChain lib c seen prepared db = appendChainRow lib c seen prepared db"

text \<open>
  The event that the direct recorder appends: a missing time is \<open>now\<close> and a missing identity is
  \<open>fresh\<close>. \<open>recordOnce\<close> is one attempt to append it, with the reference to the row of personal data that
  the attempt wrote.
\<close>

definition record_event :: "audit_event \<Rightarrow> timestamp \<Rightarrow> uuid \<Rightarrow> audit_event" where
  "record_event ev now fresh =
     (let ev = (if ev_occurred_at ev = 0 then ev\<lparr>ev_occurred_at := now\<rparr> else ev);
          ev = canonicalizeCorrelation ev in
      if ev_id ev = uuid_nil then ev\<lparr>ev_id := fresh\<rparr> else ev)"

definition recordOnce ::
  "lib \<Rightarrow> codec \<Rightarrow> ledger \<Rightarrow> chain_append_input \<Rightarrow> uuid \<Rightarrow> ledger \<Rightarrow> chain_error + (chain_append_result \<times> ledger)" where
  "recordOnce lib c seen i piiRef db = appendChainRow lib c seen (i\<lparr>cai_pii_ref := piiRef\<rparr>) db"

section \<open>Legacy rows\<close>

record legacy_row_input =
  lri_org :: uuid
  lri_actor :: uuid
  lri_entity :: uuid
  lri_event :: uuid
  lri_action :: string
  lri_tool :: string

record legacy_row =
  lr_event :: uuid
  lr_shard :: "16 word"
  lr_seq :: int
  lr_time :: timestamp

definition legacyEntityKind :: string where
  "legacyEntityKind = ''mcp_tool''"

definition empty_context :: event_context where
  "empty_context =
     \<lparr>ctx_org = uuid_nil, ctx_workspace = uuid_nil, ctx_scope = uuid_nil, ctx_parent = uuid_nil,
      ctx_request = [], ctx_trace = [], ctx_source = [], ctx_tool = [], ctx_rpc = [], ctx_reason = [],
      ctx_api_token = uuid_nil, ctx_commit_version = [], ctx_format_version = 0,
      ctx_operation_class = OperationOther [], ctx_phase = PhaseOther [], ctx_operation = uuid_nil,
      ctx_parent_operation = uuid_nil, ctx_started_at = 0, ctx_completed_at = 0, ctx_target = None,
      ctx_read = None, ctx_committed_steps = [], ctx_selection = None, ctx_http_method = [],
      ctx_request_path = []\<rparr>"

definition legacy_context :: "legacy_row_input \<Rightarrow> event_context" where
  "legacy_context i = empty_context\<lparr>ctx_org := lri_org i, ctx_source := ''mcp'', ctx_tool := lri_tool i\<rparr>"

definition legacyEvent :: "legacy_row_input \<Rightarrow> legacy_row \<Rightarrow> audit_event" where
  "legacyEvent i row =
     \<lparr>ev_verb = (if lri_action i \<noteq> [] then lri_action i else ''mcp.tool_invoked''),
      ev_id = lr_event row,
      ev_actor = \<lparr>act_type = ActorUser, act_id = lri_actor i, act_email = [], act_name = [],
        act_session = [], act_ip = [], act_user_agent = [], act_request = [], act_token_label = []\<rparr>,
      ev_entity = \<lparr>ent_kind = (if lri_tool i \<noteq> [] then legacyEntityKind else ''node''),
        ent_node_type = [], ent_id = lri_entity i, ent_identifier = [], ent_name = []\<rparr>,
      ev_context = legacy_context i,
      ev_delta = None, ev_outcome = OutcomeOther [], ev_error = None, ev_idempotency_key = [],
      ev_occurred_at = lr_time row, ev_extra = [], ev_protected = []\<rparr>"

definition legacy_hash_input :: "legacy_row_input \<Rightarrow> legacy_row \<Rightarrow> bytes \<Rightarrow> chain_head_state \<Rightarrow> int \<Rightarrow> row_hash_input" where
  "legacy_hash_input i row contextJSON head seq =
     \<lparr>rhi_event = legacyEvent i row, rhi_event_id = lr_event row, rhi_shard = lr_shard row, rhi_seq = seq,
      rhi_pii_ref = uuid_nil, rhi_context_json = contextJSON, rhi_delta_json = null_text,
      rhi_last_hash = ch_last_hash head, rhi_version = auditHashVersion1\<rparr>"

definition legacy_event_row ::
  "legacy_row_input \<Rightarrow> legacy_row \<Rightarrow> bytes \<Rightarrow> chain_head_state \<Rightarrow> int \<Rightarrow> bytes \<Rightarrow> event_row" where
  "legacy_event_row i row contextJSON head seq rowHash =
     (let event = legacyEvent i row in
      \<lparr>er_org = lri_org i, er_shard = lr_shard row, er_time = lr_time row, er_event = lr_event row,
       er_seq = seq, er_actor = lri_actor i, er_actor_kind = actorKindCode ActorUser,
       er_action = ev_verb event, er_outcome = None, er_entity_kind = ent_kind (ev_entity event),
       er_entity = lri_entity i, er_context = contextJSON, er_delta = null_text,
       er_pii_ref = piiRefArg uuid_nil, er_prev_hash = ch_last_hash head, er_row_hash = rowHash,
       er_error = None, er_extra = None, er_hash_version = auditHashVersion1,
       er_idempotency_key = ev_idempotency_key event\<rparr>)"

text \<open>
  The statement of \<open>appendLegacyChainRow\<close> has no conflict clause: a row with the same event and time
  is an error of the database, which aborts the transaction as every other error here does.
\<close>

definition appendLegacyChainRow ::
  "lib \<Rightarrow> codec \<Rightarrow> ledger \<Rightarrow> legacy_row_input \<Rightarrow> legacy_row \<Rightarrow> ledger \<Rightarrow> chain_error + (int \<times> ledger)" where
  "appendLegacyChainRow lib c seen i row db =
     (let (claimed, db) = claimEventIdentity (lr_event row) db in
      bindE (guardE claimed ErrAlreadyProjected) (\<lambda>_.
      let head = readChainHead (lri_org i) (lr_shard row) seen;
          seq = wrap_int64 (ch_last_seq head + 1) in
      bindE (marshalE (cod_context c (ev_context (legacyEvent i row)))) (\<lambda>contextJSON.
      bindE (hashRowForEvent lib c (legacy_hash_input i row contextJSON head seq)) (\<lambda>rowHash.
      bindE (insert_event (legacy_event_row i row contextJSON head seq rowHash) db) (\<lambda>db.
      bindE (writeChainHead (lri_org i) (lr_shard row) head seq rowHash db) (\<lambda>db.
      Inr (seq, db)))))))"

definition WriteLegacyRow ::
  "lib \<Rightarrow> codec \<Rightarrow> ledger \<Rightarrow> legacy_row_input \<Rightarrow> uuid \<Rightarrow> timestamp \<Rightarrow> ledger \<Rightarrow>
    chain_error + (legacy_row \<times> ledger)" where
  "WriteLegacyRow lib c seen i fresh now db =
     bindE (guardE (lri_org i \<noteq> uuid_nil) ErrOrgRequired) (\<lambda>_.
     let eventID = (if lri_event i = uuid_nil then fresh else lri_event i);
         row = \<lparr>lr_event = eventID, lr_shard = shardOf (lri_actor i) eventID, lr_seq = 0,
           lr_time = truncate_microsecond now\<rparr> in
     bindE (appendLegacyChainRow lib c seen i row db) (\<lambda>(seq, db).
     Inr (row\<lparr>lr_seq := seq\<rparr>, db)))"

section \<open>Reading a row back\<close>

text \<open>One part of a read manifest in an export row.\<close>

record manifest_part =
  mpart_index :: "32 word"
  mpart_digest :: string
  mpart_payload :: bytes

record audit_row =
  row_org :: uuid
  row_time :: timestamp
  row_event :: uuid
  row_seq :: int
  row_shard :: "16 word"
  row_actor :: uuid
  row_actor_kind :: nat
  row_action :: string
  row_outcome :: outcome
  row_entity_kind :: string
  row_entity :: uuid
  row_context :: event_context
  row_delta :: "audit_delta option"
  row_error :: "event_error option"
  row_extra :: bytes
  row_pii_ref :: "uuid option"
  row_prev_hash :: bytes
  row_row_hash :: bytes
  row_hash_version :: int
  row_idempotency_key :: string
  row_manifest_parts :: "manifest_part list"

definition outcomeFromColumn :: "outcome option \<Rightarrow> outcome" where
  "outcomeFromColumn stored = (case stored of None \<Rightarrow> OutcomeUnrecorded | Some outcome \<Rightarrow> outcome)"

text \<open>The text that a nullable or mandatory \<open>JSONB\<close> column returns; \<open>NULL\<close> is the empty text.\<close>

definition column_text :: "codec \<Rightarrow> bytes option \<Rightarrow> bytes" where
  "column_text c column = (case column of None \<Rightarrow> [] | Some text \<Rightarrow> cod_jsonb c text)"

definition unmarshalRowPayload :: "(bytes \<Rightarrow> 'a option) \<Rightarrow> 'a \<Rightarrow> bytes \<Rightarrow> chain_error + 'a" where
  "unmarshalRowPayload decode zero raw =
     (if raw = [] then Inr zero
      else case decode raw of None \<Rightarrow> Inl ErrEncoding | Some v \<Rightarrow> Inr v)"

definition decoded_row ::
  "codec \<Rightarrow> event_row \<Rightarrow> event_context \<Rightarrow> audit_delta option \<Rightarrow> event_error option \<Rightarrow> audit_row" where
  "decoded_row c r context delta error =
     \<lparr>row_org = er_org r, row_time = er_time r, row_event = er_event r, row_seq = er_seq r,
      row_shard = er_shard r, row_actor = er_actor r, row_actor_kind = er_actor_kind r,
      row_action = er_action r, row_outcome = outcomeFromColumn (er_outcome r),
      row_entity_kind = er_entity_kind r, row_entity = er_entity r, row_context = context,
      row_delta = delta, row_error = error, row_extra = column_text c (er_extra r),
      row_pii_ref = er_pii_ref r, row_prev_hash = er_prev_hash r, row_row_hash = er_row_hash r,
      row_hash_version = er_hash_version r, row_idempotency_key = er_idempotency_key r,
      row_manifest_parts = []\<rparr>"

definition readAuditRow :: "codec \<Rightarrow> event_row \<Rightarrow> chain_error + audit_row" where
  "readAuditRow c r =
     bindE (unmarshalRowPayload (cod_context_value c) empty_context (column_text c (Some (er_context r)))) (\<lambda>context.
     bindE (unmarshalRowPayload (cod_delta_value c) None (column_text c (Some (er_delta r)))) (\<lambda>delta.
     bindE (unmarshalRowPayload (cod_error_value c) None (column_text c (er_error r))) (\<lambda>error.
     Inr (decoded_row c r context delta error))))"

section \<open>Checking a row hash\<close>

fun actorTypeFromCode :: "nat \<Rightarrow> actor_type" where
  "actorTypeFromCode code =
     (if code = 1 then ActorUser else if code = 2 then ActorService else if code = 3 then ActorSystem
      else if code = 4 then ActorToken else if code = 5 then ActorOperator
      else if code = 6 then ActorUnauthenticated else ActorOther [])"

definition exportEvent :: "audit_row \<Rightarrow> audit_event" where
  "exportEvent row =
     \<lparr>ev_verb = row_action row, ev_id = row_event row,
      ev_actor = \<lparr>act_type = actorTypeFromCode (row_actor_kind row), act_id = row_actor row,
        act_email = [], act_name = [], act_session = [], act_ip = [], act_user_agent = [],
        act_request = [], act_token_label = []\<rparr>,
      ev_entity = \<lparr>ent_kind = row_entity_kind row, ent_node_type = [], ent_id = row_entity row,
        ent_identifier = [], ent_name = []\<rparr>,
      ev_context = (row_context row)\<lparr>ctx_org := row_org row\<rparr>,
      ev_delta = row_delta row, ev_outcome = row_outcome row, ev_error = row_error row,
      ev_idempotency_key = row_idempotency_key row, ev_occurred_at = row_time row,
      ev_extra = row_extra row, ev_protected = []\<rparr>"

text \<open>\<open>json.Marshal\<close> of a pointer to a delta.\<close>

definition marshal_delta :: "codec \<Rightarrow> audit_delta option \<Rightarrow> chain_error + bytes" where
  "marshal_delta c delta = (case delta of None \<Rightarrow> Inr null_text | Some d \<Rightarrow> marshalE (cod_delta c d))"

definition rowHashInputFor :: "codec \<Rightarrow> audit_row \<Rightarrow> chain_error + row_hash_input" where
  "rowHashInputFor c row =
     bindE (marshalE (cod_context c (row_context row))) (\<lambda>contextJSON.
     bindE (marshal_delta c (row_delta row)) (\<lambda>deltaJSON.
     Inr \<lparr>rhi_event = exportEvent row, rhi_event_id = row_event row, rhi_shard = row_shard row,
          rhi_seq = row_seq row,
          rhi_pii_ref = (case row_pii_ref row of None \<Rightarrow> uuid_nil | Some ref \<Rightarrow> ref),
          rhi_context_json = contextJSON, rhi_delta_json = deltaJSON, rhi_last_hash = row_prev_hash row,
          rhi_version = row_hash_version row\<rparr>))"

definition ComputeRowHash :: "lib \<Rightarrow> codec \<Rightarrow> audit_row \<Rightarrow> chain_error + bytes" where
  "ComputeRowHash lib c row = bindE (rowHashInputFor c row) (hashRowForEvent lib c)"

text \<open>The reasons for which a row fails its check; \<open>None\<close> is a row that matches.\<close>

datatype hash_failure =
    VersionNeverWritten
  | SubMicrosecondTime
  | ContractViolation
  | HashMismatch

definition contractViolation :: "lib \<Rightarrow> audit_row \<Rightarrow> bool" where
  "contractViolation lib row \<longleftrightarrow>
     ctx_format_version (row_context row) \<noteq> AuditFormatLegacy \<and> \<not> validateStoredEvent lib (exportEvent row)"

definition legacyNanosecondCandidates :: nat where
  "legacyNanosecondCandidates = 1000"

text \<open>The loop of \<open>checkLegacyRowHash\<close> over the remaining candidates.\<close>

fun try_remainders ::
  "lib \<Rightarrow> codec \<Rightarrow> row_hash_input \<Rightarrow> timestamp \<Rightarrow> bytes \<Rightarrow> nat list \<Rightarrow> chain_error + hash_failure option" where
  "try_remainders lib c input base rowHash [] = Inr (Some HashMismatch)"
| "try_remainders lib c input base rowHash (remainder # rest) =
     bindE (hashRowForEvent lib c
       (input\<lparr>rhi_event := (rhi_event input)\<lparr>ev_occurred_at := base + int remainder\<rparr>\<rparr>)) (\<lambda>expected.
     if expected = rowHash then Inr None else try_remainders lib c input base rowHash rest)"

definition checkLegacyRowHash :: "lib \<Rightarrow> codec \<Rightarrow> audit_row \<Rightarrow> chain_error + hash_failure option" where
  "checkLegacyRowHash lib c row =
     bindE (rowHashInputFor c row) (\<lambda>input.
     try_remainders lib c input (row_time row) (row_row_hash row) [0..<legacyNanosecondCandidates])"

definition checkZeroTokenIDRowHash :: "lib \<Rightarrow> codec \<Rightarrow> audit_row \<Rightarrow> chain_error + hash_failure option" where
  "checkZeroTokenIDRowHash lib c row =
     (if ctx_api_token (row_context row) \<noteq> uuid_nil then Inr (Some HashMismatch)
      else bindE (rowHashInputFor c row) (\<lambda>input.
        bindE (marshalE (cod_zero_token_context c (row_context row))) (\<lambda>contextJSON.
        bindE (hashRowForEvent lib c (input\<lparr>rhi_context_json := contextJSON\<rparr>)) (\<lambda>expected.
        Inr (if expected = row_row_hash row then None else Some HashMismatch)))))"

definition checkRowHash :: "lib \<Rightarrow> codec \<Rightarrow> audit_row \<Rightarrow> chain_error + hash_failure option" where
  "checkRowHash lib c row =
     (if row_hash_version row < auditHashVersion1 \<or> row_hash_version row > auditHashVersionCurrent
      then Inr (Some VersionNeverWritten)
      else if row_hash_version row < auditHashVersion3 \<and>
          row_time row mod 1000000000 mod int legacyNanosecondCandidates \<noteq> 0
      then Inr (Some SubMicrosecondTime)
      else if contractViolation lib row then Inr (Some ContractViolation)
      else if row_hash_version row < auditHashVersion3 then checkLegacyRowHash lib c row
      else bindE (ComputeRowHash lib c row) (\<lambda>expected.
        if expected = row_row_hash row then Inr None else checkZeroTokenIDRowHash lib c row))"

section \<open>Stored texts and the values they return\<close>

text \<open>
  The fields of a payload that hold a JSON text. Two texts are the same to the hash when they can be
  exchanged in every payload: the payload is decoded before it is written canonically, so white
  space and the order of members do not count.
\<close>

fun set_context_text :: "bytes \<Rightarrow> hash_payload \<Rightarrow> hash_payload" where
  "set_context_text b (PayloadV1 p) = PayloadV1 (p\<lparr>hp_context := b\<rparr>)"
| "set_context_text b (PayloadV2 p) = PayloadV2 (p\<lparr>hp_context := b\<rparr>)"
| "set_context_text b (PayloadV3 p) = PayloadV3 (p\<lparr>hp_context := b\<rparr>)"

fun set_delta_text :: "bytes \<Rightarrow> hash_payload \<Rightarrow> hash_payload" where
  "set_delta_text b (PayloadV1 p) = PayloadV1 (p\<lparr>hp_delta := b\<rparr>)"
| "set_delta_text b (PayloadV2 p) = PayloadV2 (p\<lparr>hp_delta := b\<rparr>)"
| "set_delta_text b (PayloadV3 p) = PayloadV3 (p\<lparr>hp_delta := b\<rparr>)"

fun set_extra_text :: "bytes \<Rightarrow> hash_payload \<Rightarrow> hash_payload" where
  "set_extra_text b (PayloadV1 p) = PayloadV1 p"
| "set_extra_text b (PayloadV2 p) = PayloadV2 (p\<lparr>hp_extra := b\<rparr>)"
| "set_extra_text b (PayloadV3 p) = PayloadV3 (p\<lparr>hp_extra := b\<rparr>)"

definition same_text :: "codec \<Rightarrow> (bytes \<Rightarrow> hash_payload \<Rightarrow> hash_payload) \<Rightarrow> bytes \<Rightarrow> bytes \<Rightarrow> bool" where
  "same_text c set_text b b' \<longleftrightarrow> (\<forall>p. cod_payload c (set_text b' p) = cod_payload c (set_text b p))"

text \<open>
  What the ledger relies on for the values of one event: a stored context decodes to the same context
  up to the raw criteria of its selection, a stored delta keeps which of its sides are present, and
  both encode to a text with the same value as before; a stored error decodes to itself; and the
  extra data keep their value.
\<close>

definition context_law :: "codec \<Rightarrow> event_context \<Rightarrow> bool" where
  "context_law c context \<longleftrightarrow>
     (\<forall>b. cod_context c context = Some b \<longrightarrow>
        cod_jsonb c b \<noteq> [] \<and>
        (\<exists>s b'. cod_context_value c (cod_jsonb c b) = Some (context\<lparr>ctx_selection := s\<rparr>) \<and>
           cod_context c (context\<lparr>ctx_selection := s\<rparr>) = Some b' \<and> same_text c set_context_text b b'))"

definition delta_law :: "codec \<Rightarrow> audit_delta option \<Rightarrow> bool" where
  "delta_law c delta \<longleftrightarrow>
     (case delta of
        None \<Rightarrow> cod_jsonb c null_text \<noteq> [] \<and> cod_delta_value c (cod_jsonb c null_text) = Some None
      | Some d \<Rightarrow> \<forall>b. cod_delta c d = Some b \<longrightarrow>
          cod_jsonb c b \<noteq> [] \<and>
          (\<exists>d' b'. cod_delta_value c (cod_jsonb c b) = Some (Some d') \<and>
             (delta_before d' = [] \<longleftrightarrow> delta_before d = []) \<and> (delta_after d' = [] \<longleftrightarrow> delta_after d = []) \<and>
             cod_delta c d' = Some b' \<and> same_text c set_delta_text b b'))"

definition error_law :: "codec \<Rightarrow> event_error option \<Rightarrow> bool" where
  "error_law c error \<longleftrightarrow>
     (case error of
        None \<Rightarrow> True
      | Some e \<Rightarrow> \<forall>b. cod_error c e = Some b \<longrightarrow>
          cod_jsonb c b \<noteq> [] \<and> cod_error_value c (cod_jsonb c b) = Some (Some e))"

definition extra_law :: "codec \<Rightarrow> bytes \<Rightarrow> bool" where
  "extra_law c extra \<longleftrightarrow> extra = [] \<or> same_text c set_extra_text extra (cod_jsonb c extra)"

text \<open>
  An event that the ledger can give back: the laws hold for its values, its actor type has a code
  (or is empty), and its time is not lost in the truncation to microseconds.
\<close>

definition storable :: "codec \<Rightarrow> audit_event \<Rightarrow> bool" where
  "storable c ev \<longleftrightarrow>
     context_law c (ev_context ev) \<and> delta_law c (ev_delta ev) \<and> error_law c (ev_error ev) \<and>
     extra_law c (ev_extra ev) \<and>
     actorTypeFromCode (actorKindCode (act_type (ev_actor ev))) = act_type (ev_actor ev) \<and>
     truncate_microsecond (ev_occurred_at ev) \<noteq> 0"

section \<open>A row that was appended verifies\<close>

definition row_verifies :: "lib \<Rightarrow> codec \<Rightarrow> event_row \<Rightarrow> bool" where
  "row_verifies lib c r \<longleftrightarrow> (\<exists>row. readAuditRow c r = Inr row \<and> checkRowHash lib c row = Inr None)"

lemma truncate_microsecond_idem [simp]:
  "truncate_microsecond (truncate_microsecond t) = truncate_microsecond t"
  by (simp add: truncate_microsecond_def minus_mod_eq_mult_div)

lemma truncate_microsecond_whole: "truncate_microsecond t mod 1000000000 mod 1000 = 0"
proof -
  have "truncate_microsecond t mod 1000000000 mod 1000 = truncate_microsecond t mod 1000"
    by (rule mod_mod_cancel) simp
  then show ?thesis by (simp add: truncate_microsecond_def minus_mod_eq_mult_div)
qed

lemma hashRow_length: "hashRow lib c prev p = Inr h \<Longrightarrow> length h = 32"
  by (auto simp: hashRow_def digest_bytes_def err_simps)

lemma hashRowForEvent_length: "hashRowForEvent lib c i = Inr h \<Longrightarrow> length h = 32"
  by (auto simp: hashRowForEvent_def dest: hashRow_length split: if_splits)

lemma hashRow_same:
  "cod_payload c p = cod_payload c p' \<Longrightarrow> hashRow lib c prev p = hashRow lib c prev p'"
  by (simp add: hashRow_def canonicalJSON_def)

lemma same_textD: "same_text c f b b' \<Longrightarrow> cod_payload c (f b' p) = cod_payload c (f b p)"
  by (simp add: same_text_def)

lemma same_text_refl [simp]: "same_text c f b b"
  by (simp add: same_text_def)

text \<open>The hash does not see a change of the texts that keeps their values.\<close>

definition with_texts :: "bytes \<Rightarrow> bytes \<Rightarrow> bytes \<Rightarrow> row_hash_input \<Rightarrow> row_hash_input" where
  "with_texts b d x i =
     i\<lparr>rhi_context_json := b, rhi_delta_json := d, rhi_event := (rhi_event i)\<lparr>ev_extra := x\<rparr>\<rparr>"

lemma hashRowForEvent_texts:
  assumes "same_text c set_context_text (rhi_context_json i) b"
    and "same_text c set_delta_text (rhi_delta_json i) d"
    and "same_text c set_extra_text (ev_extra (rhi_event i)) x"
  shows "hashRowForEvent lib c (with_texts b d x i) = hashRowForEvent lib c i"
proof -
  let ?f = "\<lambda>p. set_context_text b (set_delta_text d (set_extra_text x p))"
  let ?g = "\<lambda>p. set_context_text (rhi_context_json i)
    (set_delta_text (rhi_delta_json i) (set_extra_text (ev_extra (rhi_event i)) p))"
  have swap: "set_context_text b' (set_delta_text d' p) = set_delta_text d' (set_context_text b' p)"
    "set_context_text b' (set_extra_text x' p) = set_extra_text x' (set_context_text b' p)"
    "set_delta_text d' (set_extra_text x' p) = set_extra_text x' (set_delta_text d' p)" for b' d' x' p
    by (cases p; simp)+
  have same: "cod_payload c (?f p) = cod_payload c (?g p)" for p
  proof -
    have "cod_payload c (?f p) = cod_payload c (set_context_text (rhi_context_json i) (set_delta_text d (set_extra_text x p)))"
      by (rule same_textD [OF assms(1)])
    also have "\<dots> = cod_payload c (set_context_text (rhi_context_json i)
        (set_delta_text (rhi_delta_json i) (set_extra_text x p)))"
      by (simp only: swap(1) same_textD [OF assms(2)])
    also have "\<dots> = cod_payload c (?g p)"
      by (simp only: swap(2,3) same_textD [OF assms(3)])
    finally show ?thesis .
  qed
  have v1: "PayloadV1 (row_payload_v1 c (with_texts b d x i)) = ?f (PayloadV1 (row_payload_v1 c i))"
    "PayloadV1 (row_payload_v1 c i) = ?g (PayloadV1 (row_payload_v1 c i))"
    by (simp_all add: row_payload_v1_def with_texts_def Let_def)
  have v2: "PayloadV2 (row_payload_v2 c (with_texts b d x i)) = ?f (PayloadV2 (row_payload_v2 c i))"
    "PayloadV2 (row_payload_v2 c i) = ?g (PayloadV2 (row_payload_v2 c i))"
    by (simp_all add: row_payload_v1_def row_payload_v2_def with_texts_def Let_def hash_payload_v1.defs)
  let ?v3 = "\<lambda>j. PayloadV3 (hash_payload_v2.extend (row_payload_v2 c j) \<lparr>hp_hash_version = rhi_version i\<rparr>)"
  have v3: "?v3 (with_texts b d x i) = ?f (?v3 i)" "?v3 i = ?g (?v3 i)"
    by (simp_all add: row_payload_v1_def row_payload_v2_def with_texts_def Let_def hash_payload_v1.defs
        hash_payload_v2.defs)
  have same_hash: "hashRow lib c prev (PayloadV1 (row_payload_v1 c (with_texts b d x i))) =
      hashRow lib c prev (PayloadV1 (row_payload_v1 c i))"
    "hashRow lib c prev (PayloadV2 (row_payload_v2 c (with_texts b d x i))) =
      hashRow lib c prev (PayloadV2 (row_payload_v2 c i))"
    "hashRow lib c prev (?v3 (with_texts b d x i)) = hashRow lib c prev (?v3 i)" for prev
    by (rule hashRow_same, simp only: v1(1) v2(1) v3(1) same, simp only: v1(2) [symmetric] v2(2) [symmetric] v3(2) [symmetric])+
  have "rhi_version (with_texts b d x i) = rhi_version i" "rhi_last_hash (with_texts b d x i) = rhi_last_hash i"
    by (simp_all add: with_texts_def)
  then show ?thesis by (simp only: hashRowForEvent_def same_hash)
qed

end
