(* ===== verification/Audit_Ledger.thy ===== *)
theory Audit_Ledger
  imports Audit_Chain
begin

text \<open>
  The invariant of the audit ledger: every row that an append writes verifies when it is read back,
  the rows of an organization and shard form one chain of consecutive sequence numbers and linked
  hashes whose end is the chain head, and an event has at most one row. The invariant holds for every
  history of committed appends, whatever earlier state each of them read the chain head in.
\<close>

section \<open>Appended rows verify\<close>

lemma hashRowForEvent_cong:
  assumes "rhi_version j = rhi_version i" "rhi_last_hash j = rhi_last_hash i"
    and "row_payload_v1 c j = row_payload_v1 c i"
    and "rhi_version i \<noteq> auditHashVersion1 \<Longrightarrow>
      ev_outcome (rhi_event j) = ev_outcome (rhi_event i) \<and> ev_error (rhi_event j) = ev_error (rhi_event i) \<and>
      ev_extra (rhi_event j) = ev_extra (rhi_event i)"
  shows "hashRowForEvent lib c j = hashRowForEvent lib c i"
  using assms by (cases "rhi_version i = auditHashVersion1") (auto simp: hashRowForEvent_def row_payload_v2_def)

lemma actor_code_roundtrip:
  "actorKindCode t \<noteq> 0 \<Longrightarrow> actorTypeFromCode (actorKindCode t) = t"
  by (cases t) auto

lemma default_outcome_simps [simp]:
  "ev_context (default_outcome ev) = ev_context ev" "ev_actor (default_outcome ev) = ev_actor ev"
  "ev_entity (default_outcome ev) = ev_entity ev" "ev_delta (default_outcome ev) = ev_delta ev"
  "ev_error (default_outcome ev) = ev_error ev" "ev_extra (default_outcome ev) = ev_extra ev"
  "ev_occurred_at (default_outcome ev) = ev_occurred_at ev" "ev_verb (default_outcome ev) = ev_verb ev"
  "ev_id (default_outcome ev) = ev_id ev" "ev_idempotency_key (default_outcome ev) = ev_idempotency_key ev"
  by (simp_all add: default_outcome_def)

lemma append_inputE:
  assumes "append_input c ev = Inr i0" "i = i0\<lparr>cai_pii_ref := piiRef\<rparr>"
  obtains b d where "cod_context c (ev_context ev) = Some b" "marshal_delta c (ev_delta ev) = Inr d"
    "i = \<lparr>cai_event = ev, cai_event_id = ev_id ev, cai_shard = shardOf (act_id (ev_actor ev)) (ev_id ev),
      cai_pii_ref = piiRef, cai_context_json = b, cai_delta_json = d\<rparr>"
  using assms
  by (auto simp: append_input_def marshalE_def marshal_delta_def err_simps split: option.splits)

text \<open>The event of a stored row meets the contract that the appended event met.\<close>

lemma validateStored_again:
  assumes "ValidateEvent lib ev" "ctx_format_version (ev_context ev) \<noteq> AuditFormatLegacy"
    and "ev_verb e = ev_verb ev" "ev_id e = ev_id ev" "ev_occurred_at e \<noteq> 0"
    "act_type (ev_actor e) = act_type (ev_actor ev)" "act_id (ev_actor e) = act_id (ev_actor ev)"
    "ent_kind (ev_entity e) = ent_kind (ev_entity ev)" "ent_id (ev_entity e) = ent_id (ev_entity ev)"
    "ev_context e = (ev_context ev)\<lparr>ctx_selection := s\<rparr>"
    "rel_option (\<lambda>d' d. (delta_before d' = [] \<longleftrightarrow> delta_before d = []) \<and> (delta_after d' = [] \<longleftrightarrow> delta_after d = []))
      (ev_delta e) (ev_delta ev)"
    "ev_outcome e = ev_outcome ev" "ev_error e = ev_error ev"
  shows "validateStoredEvent lib e"
proof -
  from assms(1,2) have complete: "ctx_format_version (ev_context ev) = AuditFormatComplete" "validateCompleteEvent ev"
    by (auto simp: ValidateEvent_def validateEventContract_def split: if_splits)
  have actor: "validateActor e = validateActor ev" using assms by (simp add: validateActor_def)
  have fields: "validateOutcomeFields e = validateOutcomeFields ev"
    using assms by (simp add: validateOutcomeFields_def Let_def)
  have evidence: "validateClassEvidence e = validateClassEvidence ev"
    using assms(10,11,12)
    by (cases "ev_delta e"; cases "ev_delta ev") (auto simp: validateClassEvidence_def Let_def split: option.splits)
  have "validateCompleteEvent e"
    using complete(2) assms(3-10,12) actor fields evidence
    by (auto simp: validateCompleteEvent_def Let_def split: option.splits)
  then show ?thesis
    using complete(1) assms(2,10) by (simp add: validateStoredEvent_def validateEventContract_def)
qed

lemma delta_read_back:
  assumes "delta_law c delta" "marshal_delta c delta = Inr t"
  obtains delta' t' where "unmarshalRowPayload (cod_delta_value c) None (column_text c (Some t)) = Inr delta'"
    "marshal_delta c delta' = Inr t'" "same_text c set_delta_text t t'"
    "rel_option (\<lambda>d' d. (delta_before d' = [] \<longleftrightarrow> delta_before d = []) \<and> (delta_after d' = [] \<longleftrightarrow> delta_after d = []))
      delta' delta"
proof (cases delta)
  case None
  then show ?thesis using assms that [of None null_text]
    by (simp add: delta_law_def marshal_delta_def unmarshalRowPayload_def column_text_def)
next
  case (Some d)
  with assms obtain d' b' where "cod_jsonb c t \<noteq> []" "cod_delta_value c (cod_jsonb c t) = Some (Some d')"
    "delta_before d' = [] \<longleftrightarrow> delta_before d = []" "delta_after d' = [] \<longleftrightarrow> delta_after d = []"
    "cod_delta c d' = Some b'" "same_text c set_delta_text t b'"
    by (auto simp: delta_law_def marshal_delta_def marshalE_def split: option.splits)
  with Some show ?thesis using that [of "Some d'" b']
    by (simp add: marshal_delta_def marshalE_def unmarshalRowPayload_def column_text_def)
qed

lemma context_read_back:
  assumes "context_law c context" "cod_context c context = Some b"
  obtains s b' where
    "unmarshalRowPayload (cod_context_value c) empty_context (column_text c (Some b)) = Inr (context\<lparr>ctx_selection := s\<rparr>)"
    "cod_context c (context\<lparr>ctx_selection := s\<rparr>) = Some b'" "same_text c set_context_text b b'"
  using assms by (auto simp: context_law_def unmarshalRowPayload_def column_text_def)

lemma error_read_back:
  "error_law c error \<Longrightarrow> error_column c error = Inr column \<Longrightarrow>
    unmarshalRowPayload (cod_error_value c) None (column_text c column) = Inr error"
  by (auto simp: error_law_def error_column_def marshalE_def unmarshalRowPayload_def column_text_def err_simps
      split: option.splits)

lemma extra_read_back:
  "extra_law c extra \<Longrightarrow> same_text c set_extra_text extra (column_text c (nullableJSON extra))"
  by (auto simp: extra_law_def column_text_def nullableJSON_def)

text \<open>
  The general case: a stored row of an event whose decoded values encode to texts with the same
  value verifies when its columns are those of the hash input.
\<close>

lemma decoded_hash_input:
  assumes "cod_context c context = Some b" "marshal_delta c delta = Inr d" "row = decoded_row c r context delta error"
  shows "rowHashInputFor c row =
    Inr \<lparr>rhi_event = exportEvent row, rhi_event_id = er_event r, rhi_shard = er_shard r, rhi_seq = er_seq r,
      rhi_pii_ref = (case er_pii_ref r of None \<Rightarrow> uuid_nil | Some ref \<Rightarrow> ref),
      rhi_context_json = b, rhi_delta_json = d, rhi_last_hash = er_prev_hash r, rhi_version = er_hash_version r\<rparr>"
  using assms by (simp add: rowHashInputFor_def marshalE_def decoded_row_def)

lemma exported_append:
  assumes "append_input c ev = Inr i0" "i = i0\<lparr>cai_pii_ref := piiRef\<rparr>" "event = default_outcome ev"
    "actorTypeFromCode (actorKindCode (act_type (ev_actor ev))) = act_type (ev_actor ev)"
    and "e = exportEvent (decoded_row c (append_row i event head seq rowHash errorJSON)
      ((ev_context ev)\<lparr>ctx_selection := s\<rparr>) delta (ev_error ev))"
  shows "ev_verb e = ev_verb ev" "ev_id e = ev_id ev" "ev_occurred_at e = truncate_microsecond (ev_occurred_at ev)"
    "act_type (ev_actor e) = act_type (ev_actor ev)" "act_id (ev_actor e) = act_id (ev_actor ev)"
    "ent_kind (ev_entity e) = ent_kind (ev_entity ev)" "ent_id (ev_entity e) = ent_id (ev_entity ev)"
    "ev_context e = (ev_context ev)\<lparr>ctx_selection := s\<rparr>" "ev_delta e = delta" "ev_outcome e = ev_outcome event"
    "ev_error e = ev_error ev" "ev_extra e = column_text c (nullableJSON (ev_extra ev))"
    "ev_idempotency_key e = ev_idempotency_key ev"
  using assms append_inputE [OF assms(1,2), of "cai_event_id i = ev_id ev"]
  by (simp_all add: exportEvent_def decoded_row_def append_row_def outcomeFromColumn_def)

text \<open>The contract that an appended event met holds for the event of its row.\<close>

lemma append_contract:
  assumes valid: "ValidateEvent lib ev" and event: "event = default_outcome ev"
    and store: "actorTypeFromCode (actorKindCode (act_type (ev_actor ev))) = act_type (ev_actor ev)"
      "truncate_microsecond (ev_occurred_at ev) \<noteq> 0"
    and input: "append_input c ev = Inr i0" "i = i0\<lparr>cai_pii_ref := piiRef\<rparr>"
    and delta: "rel_option (\<lambda>d' d. (delta_before d' = [] \<longleftrightarrow> delta_before d = []) \<and> (delta_after d' = [] \<longleftrightarrow> delta_after d = []))
      delta (ev_delta ev)"
  shows "\<not> contractViolation lib (decoded_row c (append_row i event head seq rowHash errorJSON)
    ((ev_context ev)\<lparr>ctx_selection := s\<rparr>) delta (ev_error ev))"
proof (cases "ctx_format_version (ev_context ev) = AuditFormatLegacy")
  case True
  then show ?thesis by (simp add: contractViolation_def decoded_row_def)
next
  case False
  then have "ev_outcome event = ev_outcome ev" using event by (simp add: default_outcome_def)
  then show ?thesis
    using validateStored_again [OF valid False, where s = s] exported_append [OF input event store(1) refl] store(2) delta
    by (simp add: contractViolation_def)
qed

lemma append_row_verifies:
  assumes valid: "ValidateEvent lib ev" and store: "storable c ev" and input: "append_input c ev = Inr i0" "i = i0\<lparr>cai_pii_ref := piiRef\<rparr>"
    and event: "event = default_outcome ev"
    and hash: "hashRowForEvent lib c (append_hash_input i event head seq) = Inr rowHash"
    and err: "error_column c (ev_error event) = Inr errorJSON"
  shows "row_verifies lib c (append_row i event head seq rowHash errorJSON)"
proof -
  from store have law: "context_law c (ev_context ev)" "delta_law c (ev_delta ev)" "error_law c (ev_error ev)"
    "extra_law c (ev_extra ev)" "actorTypeFromCode (actorKindCode (act_type (ev_actor ev))) = act_type (ev_actor ev)"
    "truncate_microsecond (ev_occurred_at ev) \<noteq> 0"
    by (simp_all add: storable_def)
  from append_inputE [OF input] obtain b d where i: "cod_context c (ev_context ev) = Some b" "marshal_delta c (ev_delta ev) = Inr d"
    "i = \<lparr>cai_event = ev, cai_event_id = ev_id ev, cai_shard = shardOf (act_id (ev_actor ev)) (ev_id ev),
      cai_pii_ref = piiRef, cai_context_json = b, cai_delta_json = d\<rparr>" .
  from context_read_back [OF law(1) i(1)] obtain s b' where con:
    "unmarshalRowPayload (cod_context_value c) empty_context (column_text c (Some b)) = Inr ((ev_context ev)\<lparr>ctx_selection := s\<rparr>)"
    "cod_context c ((ev_context ev)\<lparr>ctx_selection := s\<rparr>) = Some b'" "same_text c set_context_text b b'" .
  from delta_read_back [OF law(2) i(2)] obtain delta d' where del:
    "unmarshalRowPayload (cod_delta_value c) None (column_text c (Some d)) = Inr delta"
    "marshal_delta c delta = Inr d'" "same_text c set_delta_text d d'"
    "rel_option (\<lambda>d' d. (delta_before d' = [] \<longleftrightarrow> delta_before d = []) \<and> (delta_after d' = [] \<longleftrightarrow> delta_after d = []))
      delta (ev_delta ev)" .
  let ?x = "column_text c (nullableJSON (ev_extra ev))"
  let ?r = "append_row i event head seq rowHash errorJSON"
  let ?i = "append_hash_input i event head seq"
  define row where "row = decoded_row c ?r ((ev_context ev)\<lparr>ctx_selection := s\<rparr>) delta (ev_error ev)"
  let ?e = "exportEvent row"
  have read: "readAuditRow c ?r = Inr row"
    using con(1) del(1) error_read_back [OF law(3)] err event i(3)
    by (simp add: readAuditRow_def row_def append_row_def)
  note e = exported_append [OF input event law(5), of ?e head seq rowHash errorJSON s delta, unfolded row_def, OF refl, folded row_def]
  have contract: "\<not> contractViolation lib row"
    unfolding row_def by (rule append_contract [OF valid event law(5,6) input del(4)])
  define j where "j = \<lparr>rhi_event = ?e, rhi_event_id = er_event ?r, rhi_shard = er_shard ?r, rhi_seq = er_seq ?r,
    rhi_pii_ref = (case er_pii_ref ?r of None \<Rightarrow> uuid_nil | Some ref \<Rightarrow> ref), rhi_context_json = b',
    rhi_delta_json = d', rhi_last_hash = er_prev_hash ?r, rhi_version = er_hash_version ?r\<rparr>"
  have "hashRowForEvent lib c j = hashRowForEvent lib c (with_texts b' d' ?x ?i)"
    by (rule hashRowForEvent_cong)
      (auto simp: j_def with_texts_def append_hash_input_def row_payload_v1_def Let_def e i(3) event
        append_row_def piiRefArg_def hash_version_defs)
  also have "\<dots> = hashRowForEvent lib c ?i"
    using con(3) del(3) extra_read_back [OF law(4)] i(3) event
    by (intro hashRowForEvent_texts) (simp_all add: append_hash_input_def)
  finally have "ComputeRowHash lib c row = Inr rowHash"
    using hash decoded_hash_input [OF con(2) del(2) row_def] by (simp add: ComputeRowHash_def j_def)
  then have "checkRowHash lib c row = Inr None"
    using contract by (simp add: checkRowHash_def row_def decoded_row_def append_row_def hash_version_defs)
  with read show ?thesis by (auto simp: row_verifies_def)
qed

lemma checkLegacyRowHash_first:
  assumes "rowHashInputFor c row = Inr input"
    and "hashRowForEvent lib c (input\<lparr>rhi_event := (rhi_event input)\<lparr>ev_occurred_at := row_time row\<rparr>\<rparr>) =
      Inr (row_row_hash row)"
  shows "checkLegacyRowHash lib c row = Inr None"
proof -
  have "[0..<legacyNanosecondCandidates] = 0 # [Suc 0..<legacyNanosecondCandidates]"
    by (rule upt_conv_Cons) (simp add: legacyNanosecondCandidates_def)
  with assms show ?thesis by (simp add: checkLegacyRowHash_def)
qed

lemma legacy_row_verifies:
  assumes law: "context_law c (ev_context (legacyEvent i row))" "delta_law c None"
    and enc: "cod_context c (ev_context (legacyEvent i row)) = Some b"
    and time: "lr_time row = truncate_microsecond now"
    and hash: "hashRowForEvent lib c (legacy_hash_input i row b head seq) = Inr rowHash"
  shows "row_verifies lib c (legacy_event_row i row b head seq rowHash)"
proof -
  let ?ev = "legacyEvent i row"
  let ?r = "legacy_event_row i row b head seq rowHash"
  let ?i = "legacy_hash_input i row b head seq"
  from context_read_back [OF law(1) enc] obtain s b' where con:
    "unmarshalRowPayload (cod_context_value c) empty_context (column_text c (Some b)) = Inr ((ev_context ?ev)\<lparr>ctx_selection := s\<rparr>)"
    "cod_context c ((ev_context ?ev)\<lparr>ctx_selection := s\<rparr>) = Some b'" "same_text c set_context_text b b'" .
  have del: "unmarshalRowPayload (cod_delta_value c) None (column_text c (Some null_text)) = Inr None"
    using law(2) by (simp add: delta_law_def unmarshalRowPayload_def column_text_def)
  define out where "out = decoded_row c ?r ((ev_context ?ev)\<lparr>ctx_selection := s\<rparr>) None None"
  have read: "readAuditRow c ?r = Inr out"
    using con(1) del by (simp add: readAuditRow_def out_def legacy_event_row_def Let_def unmarshalRowPayload_def column_text_def)
  let ?e = "(exportEvent out)\<lparr>ev_occurred_at := lr_time row\<rparr>"
  define j where "j = \<lparr>rhi_event = ?e, rhi_event_id = er_event ?r, rhi_shard = er_shard ?r, rhi_seq = er_seq ?r,
    rhi_pii_ref = (case er_pii_ref ?r of None \<Rightarrow> uuid_nil | Some ref \<Rightarrow> ref), rhi_context_json = b',
    rhi_delta_json = null_text, rhi_last_hash = er_prev_hash ?r, rhi_version = er_hash_version ?r\<rparr>"
  have "hashRowForEvent lib c j = hashRowForEvent lib c (with_texts b' null_text [] ?i)"
    by (rule hashRowForEvent_cong)
      (auto simp: j_def with_texts_def legacy_hash_input_def row_payload_v1_def Let_def out_def decoded_row_def
        exportEvent_def legacy_event_row_def legacyEvent_def legacy_context_def piiRefArg_def hash_version_defs)
  also have "\<dots> = hashRowForEvent lib c ?i"
    using con(3) by (intro hashRowForEvent_texts) (simp_all add: legacy_hash_input_def legacyEvent_def)
  finally have "hashRowForEvent lib c j = Inr (row_row_hash out)"
    using hash by (simp add: out_def decoded_row_def legacy_event_row_def Let_def)
  moreover have "row_time out = lr_time row"
    by (simp add: out_def decoded_row_def legacy_event_row_def Let_def)
  moreover have "marshal_delta c None = Inr null_text" by (simp add: marshal_delta_def)
  ultimately have "checkLegacyRowHash lib c out = Inr None"
    using checkLegacyRowHash_first [OF decoded_hash_input [OF con(2) _ out_def]] by (simp add: j_def)
  moreover have "\<not> contractViolation lib out"
    by (simp add: contractViolation_def out_def decoded_row_def legacyEvent_def legacy_context_def empty_context_def AuditFormatLegacy_def)
  ultimately have "checkRowHash lib c out = Inr None"
    using truncate_microsecond_whole [of now] time
    by (simp add: checkRowHash_def out_def decoded_row_def legacy_event_row_def Let_def hash_version_defs
        legacyNanosecondCandidates_def)
  with read show ?thesis by (auto simp: row_verifies_def)
qed

section \<open>The chains of the ledger\<close>

definition empty_ledger :: ledger where
  "empty_ledger = \<lparr>led_events = [], led_heads = fmempty, led_projected = {||}\<rparr>"

definition chain_of :: "ledger \<Rightarrow> uuid \<times> 16 word \<Rightarrow> event_row list" where
  "chain_of db k = filter (\<lambda>r. (er_org r, er_shard r) = k) (led_events db)"

text \<open>The hash that the next row of a chain covers.\<close>

definition chain_end :: "event_row list \<Rightarrow> bytes" where
  "chain_end rows = (if rows = [] then [] else er_row_hash (last rows))"

definition chain_linked :: "event_row list \<Rightarrow> bool" where
  "chain_linked rows \<longleftrightarrow>
     (\<forall>n < length rows. er_seq (rows ! n) = int n + 1 \<and> er_prev_hash (rows ! n) = chain_end (take n rows))"

definition head_ok :: "ledger \<Rightarrow> uuid \<times> 16 word \<Rightarrow> bool" where
  "head_ok db k \<longleftrightarrow>
     fmlookup (led_heads db) k =
       (if chain_of db k = [] then None else Some (int (length (chain_of db k)), chain_end (chain_of db k)))"

definition ledger_ok :: "lib \<Rightarrow> codec \<Rightarrow> ledger \<Rightarrow> bool" where
  "ledger_ok lib c db \<longleftrightarrow>
     (\<forall>k. chain_linked (chain_of db k) \<and> head_ok db k) \<and>
     (\<forall>r \<in> set (led_events db). row_verifies lib c r \<and> length (er_row_hash r) = 32) \<and>
     distinct (map er_event (led_events db)) \<and>
     (\<forall>r \<in> set (led_events db). er_event r |\<in>| led_projected db)"

lemma ledger_okD:
  assumes "ledger_ok lib c db"
  shows ledger_ok_linked: "chain_linked (chain_of db k)" and ledger_ok_head: "head_ok db k"
  using assms unfolding ledger_ok_def by blast+

text \<open>The chain heads of an earlier state name rows of the present one.\<close>

definition seen_ok :: "ledger \<Rightarrow> ledger \<Rightarrow> bool" where
  "seen_ok db seen \<longleftrightarrow>
     (\<forall>k n h. fmlookup (led_heads seen) k = Some (n, h) \<longrightarrow>
        (\<exists>m. 0 < m \<and> m \<le> length (chain_of db k) \<and> n = int m \<and> h = chain_end (take m (chain_of db k))))"

lemma seen_okD:
  "seen_ok db seen \<Longrightarrow> fmlookup (led_heads seen) k = Some (n, h) \<Longrightarrow>
    \<exists>m. 0 < m \<and> m \<le> length (chain_of db k) \<and> n = int m \<and> h = chain_end (take m (chain_of db k))"
  unfolding seen_ok_def by blast

text \<open>
  What every writer of the ledger does to the tables: one new row of a new event that continues the
  chain head the writer saw, and a compare-and-swap of that head.
\<close>

definition chain_extended :: "lib \<Rightarrow> codec \<Rightarrow> ledger \<Rightarrow> ledger \<Rightarrow> ledger \<Rightarrow> bool" where
  "chain_extended lib c seen db db' \<longleftrightarrow>
     (\<exists>r head. head = readChainHead (er_org r) (er_shard r) seen \<and>
        er_event r |\<notin>| led_projected db \<and>
        er_seq r = wrap_int64 (ch_last_seq head + 1) \<and> er_prev_hash r = ch_last_hash head \<and>
        row_verifies lib c r \<and> length (er_row_hash r) = 32 \<and>
        writeChainHead (er_org r) (er_shard r) head (er_seq r) (er_row_hash r)
          (db\<lparr>led_projected := finsert (er_event r) (led_projected db), led_events := led_events db @ [r]\<rparr>) = Inr db')"

lemma writeChainHead_Inr:
  "writeChainHead orgID shard head seq rowHash db = Inr db' \<longleftrightarrow>
    db' = db\<lparr>led_heads := fmupd (orgID, shard) (seq, rowHash) (led_heads db)\<rparr> \<and>
    (if ch_exists head then (\<exists>h. fmlookup (led_heads db) (orgID, shard) = Some (ch_last_seq head, h))
     else fmlookup (led_heads db) (orgID, shard) = None)"
  by (auto simp: writeChainHead_def Let_def split: option.splits if_splits)

lemma wrap_int64_small: "0 \<le> n \<Longrightarrow> n \<le> max_int64 \<Longrightarrow> wrap_int64 n = n"
  by (simp add: wrap_int64_def max_int64_def)

lemma chain_linked_snoc:
  assumes "chain_linked rows" "er_seq r = int (length rows) + 1" "er_prev_hash r = chain_end rows"
  shows "chain_linked (rows @ [r])"
  using assms by (auto simp: chain_linked_def nth_append less_Suc_eq)

lemma chain_of_le: "length (chain_of db k) \<le> length (led_events db)"
  by (simp add: chain_of_def)

text \<open>A successful compare-and-swap shows that the head the writer saw is the end of the chain.\<close>

lemma swapped_head:
  assumes ok: "ledger_ok lib c db" and seen: "seen_ok db seen" and head: "head = readChainHead orgID shard seen"
    and swap: "if ch_exists head then (\<exists>h. fmlookup (led_heads db) (orgID, shard) = Some (ch_last_seq head, h))
     else fmlookup (led_heads db) (orgID, shard) = None"
  shows "ch_last_seq head = int (length (chain_of db (orgID, shard)))"
    and "ch_last_hash head = chain_end (chain_of db (orgID, shard))"
proof -
  let ?rows = "chain_of db (orgID, shard)"
  have head_ok: "head_ok db (orgID, shard)" by (rule ledger_ok_head [OF ok])
  have "ch_last_seq head = int (length ?rows) \<and> ch_last_hash head = chain_end ?rows"
  proof (cases "fmlookup (led_heads seen) (orgID, shard)")
    case None
    then have "\<not> ch_exists head" "ch_last_seq head = 0" "ch_last_hash head = []"
      using head by (simp_all add: readChainHead_def)
    with swap head_ok show ?thesis by (simp add: head_ok_def chain_end_def split: if_splits)
  next
    case (Some p)
    obtain n h where p: "p = (n, h)" by fastforce
    then have exists: "ch_exists head" "ch_last_seq head = n" "ch_last_hash head = h"
      using head Some by (simp_all add: readChainHead_def)
    from seen_okD [OF seen Some [unfolded p]] obtain m where "m \<le> length ?rows" "n = int m"
      "h = chain_end (take m ?rows)" by blast
    moreover have "n = int (length ?rows)"
      using swap exists head_ok by (auto simp: head_ok_def split: if_splits)
    ultimately show ?thesis using exists by simp
  qed
  then show "ch_last_seq head = int (length ?rows)" "ch_last_hash head = chain_end ?rows" by simp_all
qed

definition appended :: "event_row \<Rightarrow> ledger \<Rightarrow> ledger" where
  "appended r db =
     \<lparr>led_events = led_events db @ [r],
      led_heads = fmupd (er_org r, er_shard r) (er_seq r, er_row_hash r) (led_heads db),
      led_projected = finsert (er_event r) (led_projected db)\<rparr>"

lemma appended_simps [simp]:
  "led_events (appended r db) = led_events db @ [r]"
  "led_heads (appended r db) = fmupd (er_org r, er_shard r) (er_seq r, er_row_hash r) (led_heads db)"
  "led_projected (appended r db) = finsert (er_event r) (led_projected db)"
  by (simp_all add: appended_def)

lemma chain_of_appended:
  "chain_of (appended r db) k = (if k = (er_org r, er_shard r) then chain_of db k @ [r] else chain_of db k)"
  by (auto simp: chain_of_def)

lemma chain_extended_appended:
  assumes "chain_extended lib c seen db db'"
  obtains r head where "db' = appended r db" "head = readChainHead (er_org r) (er_shard r) seen"
    "er_event r |\<notin>| led_projected db" "er_seq r = wrap_int64 (ch_last_seq head + 1)"
    "er_prev_hash r = ch_last_hash head" "row_verifies lib c r" "length (er_row_hash r) = 32"
    "if ch_exists head then (\<exists>h. fmlookup (led_heads db) (er_org r, er_shard r) = Some (ch_last_seq head, h))
     else fmlookup (led_heads db) (er_org r, er_shard r) = None"
proof -
  from assms obtain r head where r: "head = readChainHead (er_org r) (er_shard r) seen"
    "er_event r |\<notin>| led_projected db" "er_seq r = wrap_int64 (ch_last_seq head + 1)"
    "er_prev_hash r = ch_last_hash head" "row_verifies lib c r" "length (er_row_hash r) = 32"
    and swap: "writeChainHead (er_org r) (er_shard r) head (er_seq r) (er_row_hash r)
      (db\<lparr>led_projected := finsert (er_event r) (led_projected db), led_events := led_events db @ [r]\<rparr>) = Inr db'"
    unfolding chain_extended_def by blast
  have "db' = appended r db" using swap by (simp add: writeChainHead_Inr appended_def)
  moreover have "if ch_exists head then (\<exists>h. fmlookup (led_heads db) (er_org r, er_shard r) = Some (ch_last_seq head, h))
     else fmlookup (led_heads db) (er_org r, er_shard r) = None"
    using swap by (auto simp: writeChainHead_Inr split: if_splits)
  ultimately show thesis using that r by blast
qed

lemma chain_extended_at_end:
  assumes ok: "ledger_ok lib c db" and seen: "seen_ok db seen" and ext: "chain_extended lib c seen db db'"
    and bound: "int (length (led_events db')) \<le> max_int64"
  obtains r where "db' = appended r db" "er_event r |\<notin>| led_projected db" "row_verifies lib c r"
    "length (er_row_hash r) = 32" "er_seq r = int (length (chain_of db (er_org r, er_shard r))) + 1"
    "er_prev_hash r = chain_end (chain_of db (er_org r, er_shard r))"
proof -
  from chain_extended_appended [OF ext] obtain r head where r: "db' = appended r db"
    "head = readChainHead (er_org r) (er_shard r) seen"
    "er_event r |\<notin>| led_projected db" "er_seq r = wrap_int64 (ch_last_seq head + 1)"
    "er_prev_hash r = ch_last_hash head" "row_verifies lib c r" "length (er_row_hash r) = 32"
    and swap: "if ch_exists head then (\<exists>h. fmlookup (led_heads db) (er_org r, er_shard r) = Some (ch_last_seq head, h))
     else fmlookup (led_heads db) (er_org r, er_shard r) = None" .
  note at = swapped_head [OF ok seen r(2) swap]
  have "int (length (chain_of db (er_org r, er_shard r))) + 1 \<le> max_int64"
    using bound chain_of_le [of db "(er_org r, er_shard r)"] by (simp add: r(1))
  then have "er_seq r = int (length (chain_of db (er_org r, er_shard r))) + 1"
    using r(4) at(1) by (simp add: wrap_int64_small)
  then show thesis using that [of r] r at(2) by simp
qed

lemma chain_extended_ok:
  assumes "ledger_ok lib c db" "seen_ok db seen" "chain_extended lib c seen db db'"
    "int (length (led_events db')) \<le> max_int64"
  shows "ledger_ok lib c db'"
proof -
  from chain_extended_at_end [OF assms] obtain r where r: "db' = appended r db"
    "er_event r |\<notin>| led_projected db" "row_verifies lib c r"
    "length (er_row_hash r) = 32" "er_seq r = int (length (chain_of db (er_org r, er_shard r))) + 1"
    "er_prev_hash r = chain_end (chain_of db (er_org r, er_shard r))" .
  have before: "chain_linked (chain_of db k)" "head_ok db k" for k
    using ledger_okD [OF assms(1)] .
  have "chain_linked (chain_of db' k)" for k
    using before(1) [of k] chain_linked_snoc [OF before(1) r(5,6)] by (simp add: r(1) chain_of_appended)
  moreover have "head_ok db' k" for k
    using before(2) [of k] r(5) by (simp add: head_ok_def chain_of_appended r(1) chain_end_def)
  ultimately show ?thesis using assms(1) r(2-4) by (auto simp: ledger_ok_def r(1))
qed

lemma chain_extended_grows: "chain_extended lib c seen db db' \<Longrightarrow> length (led_events db') = length (led_events db) + 1"
  by (erule chain_extended_appended) simp

lemma chain_extended_seen:
  assumes "chain_extended lib c seen db db'" "seen_ok db old"
  shows "seen_ok db' old"
proof -
  from assms(1) obtain r where r: "db' = appended r db" by (rule chain_extended_appended)
  have "\<exists>m. 0 < m \<and> m \<le> length (chain_of db' k) \<and> n = int m \<and> h = chain_end (take m (chain_of db' k))"
    if "fmlookup (led_heads old) k = Some (n, h)" for k n h
  proof -
    from seen_okD [OF assms(2) that] obtain m where "0 < m" "m \<le> length (chain_of db k)" "n = int m"
      "h = chain_end (take m (chain_of db k))" by blast
    then show ?thesis by (intro exI [of _ m]) (auto simp: r chain_of_appended)
  qed
  then show ?thesis by (simp add: seen_ok_def)
qed

lemma ledger_ok_seen: "ledger_ok lib c db \<Longrightarrow> seen_ok db db"
  unfolding seen_ok_def
proof (intro allI impI)
  fix k n h
  assume "ledger_ok lib c db" "fmlookup (led_heads db) k = Some (n, h)"
  then have "chain_of db k \<noteq> [] \<and> n = int (length (chain_of db k)) \<and> h = chain_end (chain_of db k)"
    using ledger_ok_head [of lib c db k] by (auto simp: head_ok_def split: if_splits)
  then show "\<exists>m. 0 < m \<and> m \<le> length (chain_of db k) \<and> n = int m \<and> h = chain_end (take m (chain_of db k))"
    by (intro exI [of _ "length (chain_of db k)"]) simp
qed

section \<open>Writers of the ledger\<close>

lemma claimed_and_inserted:
  assumes "claimEventIdentity eventID db = (True, db1)" "insert_event r db1 = Inr db2" "er_event r = eventID"
  shows "eventID |\<notin>| led_projected db"
    and "db2 = db\<lparr>led_projected := finsert (er_event r) (led_projected db), led_events := led_events db @ [r]\<rparr>"
  using assms by (auto simp: claimEventIdentity_def insert_event_def split: if_splits)

lemma appendChainRow_extends:
  assumes run: "appendChainRow lib c seen i db = Inr (res, db')"
    and input: "append_input c ev = Inr i0" "i = i0\<lparr>cai_pii_ref := piiRef\<rparr>" and store: "storable c ev"
  shows "chain_extended lib c seen db db'"
proof -
  let ?event = "default_outcome (cai_event i)"
  let ?head = "readChainHead (ctx_org (ev_context ?event)) (cai_shard i) seen"
  let ?seq = "wrap_int64 (ch_last_seq ?head + 1)"
  obtain claimed db1 where claim: "claimEventIdentity (cai_event_id i) db = (claimed, db1)" by fastforce
  note steps = run [unfolded appendChainRow_def Let_def claim prod.case]
  from steps obtain rowHash errorJSON db2 where valid: "ValidateEvent lib (cai_event i)" and claimed
    and hash: "hashRowForEvent lib c (append_hash_input i ?event ?head ?seq) = Inr rowHash"
    and err: "error_column c (ev_error ?event) = Inr errorJSON"
    and ins: "insert_event (append_row i ?event ?head ?seq rowHash errorJSON) db1 = Inr db2"
    and swap: "writeChainHead (ctx_org (ev_context ?event)) (cai_shard i) ?head ?seq rowHash db2 = Inr db'"
    by (auto simp only: err_simps prod.inject sum.inject)
  let ?r = "append_row i ?event ?head ?seq rowHash errorJSON"
  have row: "er_org ?r = ctx_org (ev_context ?event)" "er_shard ?r = cai_shard i" "er_event ?r = cai_event_id i"
    "er_seq ?r = ?seq" "er_prev_hash ?r = ch_last_hash ?head" "er_row_hash ?r = rowHash"
    by (simp_all add: append_row_def)
  have ev: "cai_event i = ev" by (rule append_inputE [OF input]) simp
  have "row_verifies lib c ?r"
    using append_row_verifies [OF _ store input _ hash err] valid by (simp add: ev)
  moreover note claimed_and_inserted [OF claim [unfolded eqTrueI [OF \<open>claimed\<close>]] ins row(3)]
  ultimately show ?thesis
    unfolding chain_extended_def using swap hashRowForEvent_length [OF hash] row
    by (intro exI [of _ ?r] exI [of _ ?head]) simp
qed

lemma WriteLegacyRow_extends:
  assumes run: "WriteLegacyRow lib c seen i fresh now db = Inr (out, db')"
    and law: "context_law c (legacy_context i)" "delta_law c None"
  shows "chain_extended lib c seen db db'"
proof -
  define row where "row = \<lparr>lr_event = (if lri_event i = uuid_nil then fresh else lri_event i),
    lr_shard = shardOf (lri_actor i) (if lri_event i = uuid_nil then fresh else lri_event i), lr_seq = 0,
    lr_time = truncate_microsecond now\<rparr>"
  let ?head = "readChainHead (lri_org i) (lr_shard row) seen"
  let ?seq = "wrap_int64 (ch_last_seq ?head + 1)"
  from run obtain seq where "appendLegacyChainRow lib c seen i row db = Inr (seq, db')"
    by (auto simp: WriteLegacyRow_def Let_def row_def err_simps)
  moreover obtain claimed db1 where claim: "claimEventIdentity (lr_event row) db = (claimed, db1)" by fastforce
  ultimately obtain b rowHash db2 where claimed
    and enc: "marshalE (cod_context c (ev_context (legacyEvent i row))) = Inr b"
    and hash: "hashRowForEvent lib c (legacy_hash_input i row b ?head ?seq) = Inr rowHash"
    and ins: "insert_event (legacy_event_row i row b ?head ?seq rowHash) db1 = Inr db2"
    and swap: "writeChainHead (lri_org i) (lr_shard row) ?head ?seq rowHash db2 = Inr db'"
    by (auto simp only: appendLegacyChainRow_def Let_def claim prod.case err_simps prod.inject sum.inject)
  let ?r = "legacy_event_row i row b ?head ?seq rowHash"
  have r: "er_org ?r = lri_org i" "er_shard ?r = lr_shard row" "er_event ?r = lr_event row"
    "er_seq ?r = ?seq" "er_prev_hash ?r = ch_last_hash ?head" "er_row_hash ?r = rowHash"
    by (simp_all add: legacy_event_row_def Let_def)
  have "cod_context c (ev_context (legacyEvent i row)) = Some b"
    using enc by (simp add: marshalE_def split: option.splits)
  then have "row_verifies lib c ?r"
    by (intro legacy_row_verifies [OF _ law(2) _ _ hash, where now = now])
      (simp_all add: law(1) row_def legacyEvent_def)
  moreover note claimed_and_inserted [OF claim [unfolded eqTrueI [OF \<open>claimed\<close>]] ins r(3)]
  ultimately show ?thesis
    unfolding chain_extended_def using swap hashRowForEvent_length [OF hash] r
    by (intro exI [of _ ?r] exI [of _ ?head]) simp
qed

section \<open>Histories\<close>

text \<open>
  The committed states of the ledger, the newest first. The invariant of a history is that of its
  newest state, with the chain heads of all earlier states still naming rows of it, as long as the
  number of rows is within the range of a sequence number.
\<close>

definition history_ok :: "lib \<Rightarrow> codec \<Rightarrow> ledger list \<Rightarrow> bool" where
  "history_ok lib c h \<longleftrightarrow>
     h \<noteq> [] \<and>
     (int (length (led_events (hd h))) \<le> max_int64 \<longrightarrow>
        ledger_ok lib c (hd h) \<and> (\<forall>seen \<in> set h. seen_ok (hd h) seen))"

text \<open>
  A writer takes the state in which it reads the chain head, its input and the state in which it
  commits. Its law is that a successful write of an accepted input extends one chain; then histories
  keep their invariant whatever earlier state the writer saw.
\<close>

locale ledger_writer =
  fixes lib :: lib and c :: codec
    and commit_row :: "ledger \<Rightarrow> 'i \<Rightarrow> ledger \<Rightarrow> chain_error + ('r \<times> ledger)"
    and accepts :: "'i \<Rightarrow> bool"
  assumes write_extends: "accepts i \<Longrightarrow> commit_row seen i db = Inr (r, db') \<Longrightarrow> chain_extended lib c seen db db'"
begin

lemma write_grows:
  "accepts i \<Longrightarrow> commit_row seen i db = Inr (r, db') \<Longrightarrow> length (led_events db') = length (led_events db) + 1"
  by (rule chain_extended_grows [OF write_extends])

lemma write_keeps:
  assumes "history_ok lib c (db # h)" "seen \<in> set (db # h)" "accepts i" "commit_row seen i db = Inr (r, db')"
  shows "history_ok lib c (db' # db # h)"
proof -
  note ext = write_extends [OF assms(3,4)]
  have "ledger_ok lib c db' \<and> (\<forall>s \<in> set (db' # db # h). seen_ok db' s)"
    if bound: "int (length (led_events db')) \<le> max_int64"
  proof -
    from bound have "int (length (led_events db)) \<le> max_int64" using write_grows [OF assms(3,4)] by simp
    with assms(1) have old: "ledger_ok lib c db" "\<And>s. s \<in> set (db # h) \<Longrightarrow> seen_ok db s"
      by (auto simp: history_ok_def)
    then have "ledger_ok lib c db'" using chain_extended_ok [OF _ _ ext bound] assms(2) by blast
    with old(2) show ?thesis using ledger_ok_seen chain_extended_seen [OF ext] by auto
  qed
  then show ?thesis by (simp add: history_ok_def)
qed

end

interpretation consumer: ledger_writer lib c
  "\<lambda>seen (ev, prepared, piiRef) db. advanceChain lib c seen (prepared\<lparr>cai_pii_ref := piiRef\<rparr>) db"
  "\<lambda>(ev, prepared, piiRef). prepareEvent c ev = Inr prepared \<and> storable c (canonicalizeCorrelation ev)" for lib c
proof
  fix i :: "audit_event \<times> chain_append_input \<times> uuid" and seen db r db'
  assume "(\<lambda>(ev, prepared, piiRef). prepareEvent c ev = Inr prepared \<and> storable c (canonicalizeCorrelation ev)) i"
    "(\<lambda>(ev, prepared, piiRef) db. advanceChain lib c seen (prepared\<lparr>cai_pii_ref := piiRef\<rparr>) db) i db = Inr (r, db')"
  then show "chain_extended lib c seen db db'"
    by (auto simp: advanceChain_def prepareEvent_def Let_def err_simps intro: appendChainRow_extends)
qed

interpretation recorder: ledger_writer lib c
  "\<lambda>seen (ev, i, piiRef) db. recordOnce lib c seen i piiRef db"
  "\<lambda>(ev, i, piiRef). append_input c ev = Inr i \<and> storable c ev" for lib c
proof
  fix i :: "audit_event \<times> chain_append_input \<times> uuid" and seen db r db'
  assume "(\<lambda>(ev, i, piiRef). append_input c ev = Inr i \<and> storable c ev) i"
    "(\<lambda>(ev, i, piiRef) db. recordOnce lib c seen i piiRef db) i db = Inr (r, db')"
  then show "chain_extended lib c seen db db'"
    by (auto simp: recordOnce_def intro: appendChainRow_extends)
qed

interpretation legacy: ledger_writer lib c
  "\<lambda>seen (i, fresh, now) db. WriteLegacyRow lib c seen i fresh now db"
  "\<lambda>(i, fresh, now). context_law c (legacy_context i) \<and> delta_law c None" for lib c
proof
  fix i seen db r db'
  assume "(\<lambda>(i, fresh, now). context_law c (legacy_context i) \<and> delta_law c None) i"
    "(\<lambda>(i, fresh, now) db. WriteLegacyRow lib c seen i fresh now db) i db = Inr (r, db')"
  then show "chain_extended lib c seen db db'" by (auto intro: WriteLegacyRow_extends)
qed

text \<open>
  The histories of the ledger: each step is a committed append of the consumer, of the direct recorder
  or of the legacy row writer, which read the chain head in any state of the history. Attempts that
  fail are rolled back and leave no state.
\<close>

inductive ledger_history :: "lib \<Rightarrow> codec \<Rightarrow> ledger list \<Rightarrow> bool" for lib c where
  history_start: "ledger_history lib c [empty_ledger]"
| history_consume:
    "ledger_history lib c (db # h) \<Longrightarrow> seen \<in> set (db # h) \<Longrightarrow>
     prepareEvent c ev = Inr prepared \<and> storable c (canonicalizeCorrelation ev) \<Longrightarrow>
     advanceChain lib c seen (prepared\<lparr>cai_pii_ref := piiRef\<rparr>) db = Inr (res, db') \<Longrightarrow> ledger_history lib c (db' # db # h)"
| history_record:
    "ledger_history lib c (db # h) \<Longrightarrow> seen \<in> set (db # h) \<Longrightarrow>
     append_input c (record_event ev now fresh) = Inr i \<and> storable c (record_event ev now fresh) \<Longrightarrow>
     recordOnce lib c seen i piiRef db = Inr (res, db') \<Longrightarrow> ledger_history lib c (db' # db # h)"
| history_legacy:
    "ledger_history lib c (db # h) \<Longrightarrow> seen \<in> set (db # h) \<Longrightarrow>
     context_law c (legacy_context i) \<and> delta_law c None \<Longrightarrow>
     WriteLegacyRow lib c seen i fresh now db = Inr (out, db') \<Longrightarrow> ledger_history lib c (db' # db # h)"

lemma empty_ledger_ok: "ledger_ok lib c empty_ledger"
  by (simp add: ledger_ok_def empty_ledger_def chain_of_def chain_linked_def head_ok_def)

lemma ledger_history_ok: "ledger_history lib c h \<Longrightarrow> history_ok lib c h"
proof (induction rule: ledger_history.induct)
  case history_start
  then show ?case using empty_ledger_ok ledger_ok_seen by (auto simp: history_ok_def)
next
  case (history_consume db h seen ev prepared piiRef res db')
  then show ?case using consumer.write_keeps [of lib c db h seen "(ev, prepared, piiRef)"] by simp
next
  case (history_record db h seen ev now fresh i piiRef res db')
  then show ?case using recorder.write_keeps [of lib c db h seen "(record_event ev now fresh, i, piiRef)"] by simp
next
  case (history_legacy db h seen i fresh now out db')
  then show ?case using legacy.write_keeps [of lib c db h seen "(i, fresh, now)"] by simp
qed

lemma ledger_history_newest:
  "ledger_history lib c (db # h) \<Longrightarrow> int (length (led_events db)) \<le> max_int64 \<Longrightarrow> ledger_ok lib c db"
  using ledger_history_ok by (fastforce simp: history_ok_def)

end
