(* ===== verification/Audit_Export.thy ===== *)
theory Audit_Export
  imports Audit_Ledger
begin

text \<open>
  Export bundles of the audit ledger (\<open>internal/audit/export.go\<close>, \<open>export_rows.go\<close>,
  \<open>export_bundle.go\<close>, \<open>export_manifest_parts.go\<close>) and their offline verification
  (\<open>export_verify.go\<close>, \<open>export_verify_chain.go\<close>, \<open>export_verify_manifest.go\<close>, \<open>signers.go\<close>): the
  manifest that is signed over the rows, the scan that recomputes every row hash, the walk over the
  chain links of every shard, and the verdict of the report. The verifier accepts every export of a
  ledger that its writers built, and its walk reports no break exactly for linked rows.
\<close>

section \<open>Chain links\<close>

record chain_link =
  link_shard :: "16 word"
  link_seq :: int
  link_event :: uuid
  link_prev_hash :: bytes
  link_row_hash :: bytes

text \<open>\<open>copy\<close> into an array of 32 bytes.\<close>

definition hash_array :: "bytes \<Rightarrow> bytes" where
  "hash_array bs = take 32 bs @ replicate (32 - length bs) 0"

definition newChainLink :: "audit_row \<Rightarrow> chain_link" where
  "newChainLink row =
     \<lparr>link_shard = row_shard row, link_seq = row_seq row, link_event = row_event row,
      link_prev_hash = hash_array (row_prev_hash row), link_row_hash = hash_array (row_row_hash row)\<rparr>"

text \<open>The entries of \<open>ChainBreaks\<close>, without their texts.\<close>

datatype chain_break =
    ForeignOrg uuid
  | RowRejected uuid
  | RepeatsSequence uuid int "16 word"
  | LinkMismatch uuid

record verify_report =
  vr_rows_scanned :: nat
  vr_hash_matches :: nat
  vr_chain_gaps :: nat
  vr_chain_breaks :: "chain_break list"
  vr_file_sha256_ok :: bool
  vr_signature_ok :: bool
  vr_manifest_rows :: int
  vr_manifest_subject :: uuid
  vr_manifest_signer :: string
  vr_verified_signer :: string
  vr_signer_set :: bool
  vr_signer_allowed :: bool

text \<open>The order of \<open>sort.SliceStable\<close>: by shard and then by sequence, both signed.\<close>

definition link_key :: "chain_link \<Rightarrow> int \<times> int" where
  "link_key l = (sint (link_shard l), link_seq l)"

text \<open>
  One step of the walk, with the last sequence number and hash of every shard seen so far.
\<close>

definition link_step ::
  "chain_link \<Rightarrow> (16 word, int \<times> bytes) fmap \<times> verify_report \<Rightarrow> (16 word, int \<times> bytes) fmap \<times> verify_report" where
  "link_step l = (\<lambda>(last_seen, report).
     (fmupd (link_shard l) (link_seq l, link_row_hash l) last_seen,
      (case fmlookup last_seen (link_shard l) of
         None \<Rightarrow> report
       | Some (lastSeq, lastHash) \<Rightarrow>
           report\<lparr>vr_chain_gaps := vr_chain_gaps report + (if link_seq l > wrap_int64 (lastSeq + 1) then 1 else 0),
             vr_chain_breaks := vr_chain_breaks report @
               (if link_seq l \<le> lastSeq then [RepeatsSequence (link_event l) (link_seq l) (link_shard l)] else []) @
               (if link_seq l = wrap_int64 (lastSeq + 1) \<and> link_prev_hash l \<noteq> lastHash
                then [LinkMismatch (link_event l)] else [])\<rparr>)))"

definition verifyChainLinks :: "verify_report \<Rightarrow> chain_link list \<Rightarrow> verify_report" where
  "verifyChainLinks report links = snd (fold link_step (sort_key link_key links) (fmempty, report))"

section \<open>Read manifests of a row\<close>

text \<open>
  The parameter \<open>decode\<close> is the strict decoding of a whole text as an array of read targets.
\<close>

definition manifestPayloadCount :: "(bytes \<Rightarrow> audit_target list option) \<Rightarrow> bytes \<Rightarrow> bool \<Rightarrow> nat" where
  "manifestPayloadCount decode payload validateIdentities =
     (case decode payload of
        None \<Rightarrow> 0
      | Some targets \<Rightarrow>
          if targets = [] \<or> length targets > ReadManifestMaxEntries then 0
          else if validateIdentities \<and> list_ex (\<lambda>t. \<not> validateTarget t) targets then 0
          else length targets)"

record manifest_validator =
  mv_root :: bytes
  mv_parts :: "32 word"
  mv_identities :: "64 word"

definition validator_add ::
  "lib \<Rightarrow> (bytes \<Rightarrow> audit_target list option) \<Rightarrow> bool \<Rightarrow> manifest_part \<Rightarrow> manifest_validator \<Rightarrow>
    unit + manifest_validator" where
  "validator_add lib decode validateIdentities part v =
     (if mpart_index part \<noteq> mv_parts v then Inl ()
      else if length (mpart_payload part) > EventPartMaxBytes \<or>
          sha256Hex lib (mpart_payload part) \<noteq> mpart_digest part then Inl ()
      else let count = manifestPayloadCount decode (mpart_payload part) validateIdentities in
        if count = 0 then Inl ()
        else Inr (v\<lparr>mv_root := mv_root v @ mpart_payload part, mv_parts := mv_parts v + 1,
          mv_identities := mv_identities v + of_nat count\<rparr>))"

definition validator_finish :: "lib \<Rightarrow> bool \<Rightarrow> read_evidence \<Rightarrow> manifest_validator \<Rightarrow> unit + unit" where
  "validator_finish lib checkCount r v =
     (if mv_parts v \<noteq> read_manifest_parts r then Inl ()
      else if sha256Hex lib (mv_root v) \<noteq> read_manifest_sha256 r then Inl ()
      else if checkCount \<and> mv_identities v \<noteq> read_count r then Inl ()
      else Inr ())"

definition manifestViolation :: "lib \<Rightarrow> (bytes \<Rightarrow> audit_target list option) \<Rightarrow> audit_row \<Rightarrow> bool" where
  "manifestViolation lib decode row =
     (case ctx_read (row_context row) of
        None \<Rightarrow> row_manifest_parts row \<noteq> []
      | Some r \<Rightarrow>
          if read_manifest_parts r = 0 \<and> read_manifest_sha256 r = [] then row_manifest_parts row \<noteq> []
          else isl (bindE (foldE (validator_add lib decode False) (row_manifest_parts row)
            \<lparr>mv_root = [], mv_parts = 0, mv_identities = 0\<rparr>) (validator_finish lib False r)))"

text \<open>The parameter \<open>parts\<close> is the table \<open>audit.event_parts\<close>, read in the order of the index.\<close>

definition attachManifestParts :: "(uuid \<Rightarrow> uuid \<Rightarrow> manifest_part list) \<Rightarrow> audit_row \<Rightarrow> audit_row" where
  "attachManifestParts parts row =
     (case ctx_read (row_context row) of
        None \<Rightarrow> row
      | Some r \<Rightarrow> if read_manifest_parts r = 0 then row
          else row\<lparr>row_manifest_parts := parts (row_org row) (row_event row)\<rparr>)"

section \<open>Bundles\<close>

record export_manifest =
  em_export :: uuid
  em_org :: uuid
  em_oldest :: timestamp
  em_latest :: timestamp
  em_row_count :: int
  em_events_file :: string
  em_file_sha256 :: string
  em_signature_by :: string
  em_signature :: string

text \<open>
  What the bundle code takes from elsewhere: \<open>bun_sign\<close> and \<open>bun_verify\<close> of the Ed25519 package,
  \<open>bun_signable\<close> the JSON text of the signed fields of a manifest, \<open>bun_file\<close> the lines that a JSON
  encoder writes for rows, \<open>bun_rows\<close> the rows that a strict JSON decoder reads from a file (\<open>None\<close> when
  a row does not decode), and \<open>bun_targets\<close> the strict decoding of an array of read targets.
\<close>

record bundle_lib =
  bun_sign :: "bytes \<Rightarrow> bytes \<Rightarrow> bytes"
  bun_verify :: "bytes \<Rightarrow> bytes \<Rightarrow> bytes \<Rightarrow> bool"
  bun_signable :: "export_manifest \<Rightarrow> bytes"
  bun_file :: "audit_row list \<Rightarrow> bytes option"
  bun_rows :: "bytes \<Rightarrow> audit_row list option"
  bun_targets :: "bytes \<Rightarrow> audit_target list option"

definition legacyExportEventsFile :: string where
  "legacyExportEventsFile = ''events.jsonl''"

definition exportEventsFileName :: "lib \<Rightarrow> uuid \<Rightarrow> string" where
  "exportEventsFileName lib exportID = ''events-'' @ lib_uuid_string lib exportID @ ''.jsonl''"

text \<open>
  A name without a slash and a backslash that is not a directory entry of its own is its own base
  name, so the comparison with \<open>filepath.Base\<close> adds nothing to the other tests.
\<close>

definition bundleEventsFileName :: "export_manifest \<Rightarrow> chain_error + string" where
  "bundleEventsFileName manifest =
     (let name = em_events_file manifest in
      if name = [] then Inr legacyExportEventsFile
      else if name = ''.'' \<or> name = ''..'' \<or> CHR ''/'' \<in> set name \<or> CHR 0x5C \<in> set name then Inl ErrMalformedPayload
      else Inr name)"

text \<open>
  \<open>exportSignableManifest\<close>: the signature covers every field but itself.
\<close>

definition exportSignableManifest :: "bundle_lib \<Rightarrow> export_manifest \<Rightarrow> bytes" where
  "exportSignableManifest bl manifest = bun_signable bl (manifest\<lparr>em_signature := []\<rparr>)"

definition PublicKeySize :: nat where
  "PublicKeySize = 32"

definition manifestSignatureOK :: "bundle_lib \<Rightarrow> export_manifest \<Rightarrow> bytes \<Rightarrow> bool" where
  "manifestSignatureOK bl mf pub =
     (case hex_decode (em_signature mf) of
        None \<Rightarrow> False
      | Some sig \<Rightarrow> length pub = PublicKeySize \<and> bun_verify bl pub (exportSignableManifest bl mf) sig)"

definition KeyIdentifier :: "lib \<Rightarrow> bytes \<Rightarrow> string" where
  "KeyIdentifier lib pub = ''ed25519:'' @ hex_encode (take 8 (digest_bytes (lib_sha256 lib pub)))"

text \<open>
  The rows that a query selects are streamed into the rows file; the manifest then describes and
  signs them. The files of a directory are a map from names to contents; the published manifest is
  returned beside it. A rows file is created anew and never written twice. The removal of rows files
  that no manifest names any more is left out.
\<close>

definition writeExportRows ::
  "lib \<Rightarrow> codec \<Rightarrow> bundle_lib \<Rightarrow> (uuid \<Rightarrow> uuid \<Rightarrow> manifest_part list) \<Rightarrow> event_row list \<Rightarrow>
    chain_error + (nat \<times> string \<times> bytes)" where
  "writeExportRows lib c bl parts selected =
     bindE (mapE (readAuditRow c) selected) (\<lambda>rows.
     bindE (marshalE (bun_file bl (map (attachManifestParts parts) rows))) (\<lambda>file.
     Inr (length rows, hex_encode (digest_bytes (lib_sha256 lib file)), file)))"

definition Export ::
  "lib \<Rightarrow> codec \<Rightarrow> bundle_lib \<Rightarrow> (uuid \<Rightarrow> uuid \<Rightarrow> manifest_part list) \<Rightarrow> event_row list \<Rightarrow>
    bytes \<Rightarrow> string \<Rightarrow> uuid \<Rightarrow> timestamp \<Rightarrow> timestamp \<Rightarrow> uuid \<Rightarrow> (string, bytes) fmap \<Rightarrow>
    chain_error + (export_manifest \<times> (string, bytes) fmap)" where
  "Export lib c bl parts selected signer keyID orgID oldest latest exportID files =
     bindE (guardE (signer \<noteq> [] \<and> keyID \<noteq> []) ErrMalformedPayload) (\<lambda>_.
     let eventsName = exportEventsFileName lib exportID in
     bindE (guardE (eventsName |\<notin>| fmdom files) ErrMalformedPayload) (\<lambda>_.
     bindE (writeExportRows lib c bl parts selected) (\<lambda>(rowCount, fileDigest, file).
     let manifest = \<lparr>em_export = exportID, em_org = orgID, em_oldest = oldest, em_latest = latest,
           em_row_count = int rowCount, em_events_file = eventsName, em_file_sha256 = fileDigest,
           em_signature_by = keyID, em_signature = []\<rparr>;
         sig = bun_sign bl signer (exportSignableManifest bl manifest) in
     Inr (manifest\<lparr>em_signature := hex_encode sig\<rparr>, fmupd eventsName file files))))"

section \<open>Verification\<close>

definition scan_row ::
  "lib \<Rightarrow> codec \<Rightarrow> bundle_lib \<Rightarrow> export_manifest \<Rightarrow> audit_row \<Rightarrow> verify_report \<times> chain_link list \<Rightarrow>
    chain_error + (verify_report \<times> chain_link list)" where
  "scan_row lib c bl mf row = (\<lambda>(report, links).
     let report = report\<lparr>vr_rows_scanned := vr_rows_scanned report + 1,
           vr_chain_breaks := vr_chain_breaks report @
             (if row_org row \<noteq> em_org mf then [ForeignOrg (row_event row)] else [])\<rparr> in
     bindE (checkRowHash lib c row) (\<lambda>failure.
     let matched = (failure = None \<and> \<not> manifestViolation lib (bun_targets bl) row);
         report = (if matched then report\<lparr>vr_hash_matches := vr_hash_matches report + 1\<rparr>
           else report\<lparr>vr_chain_breaks := vr_chain_breaks report @ [RowRejected (row_event row)]\<rparr>) in
     Inr (report, links @ [newChainLink row])))"

definition scanBundleRows ::
  "lib \<Rightarrow> codec \<Rightarrow> bundle_lib \<Rightarrow> export_manifest \<Rightarrow> bytes \<Rightarrow> verify_report \<Rightarrow>
    chain_error + (verify_report \<times> chain_link list)" where
  "scanBundleRows lib c bl mf file report =
     (case bun_rows bl file of
        None \<Rightarrow> Inl ErrEncoding
      | Some rows \<Rightarrow>
          bindE (foldE (scan_row lib c bl mf) rows (report, [])) (\<lambda>(report, links).
          Inr (report\<lparr>vr_file_sha256_ok := (sha256Hex lib file = em_file_sha256 mf)\<rparr>, links)))"

text \<open>The signer set is the list of accepted key identifiers; the empty list is no set.\<close>

definition VerifyBundleWithSigners ::
  "lib \<Rightarrow> codec \<Rightarrow> bundle_lib \<Rightarrow> export_manifest \<Rightarrow> (string, bytes) fmap \<Rightarrow> bytes \<Rightarrow> string list \<Rightarrow>
    chain_error + verify_report" where
  "VerifyBundleWithSigners lib c bl mf files pub signers =
     (let known = (length pub = PublicKeySize);
          report = \<lparr>vr_rows_scanned = 0, vr_hash_matches = 0, vr_chain_gaps = 0, vr_chain_breaks = [],
            vr_file_sha256_ok = False, vr_signature_ok = manifestSignatureOK bl mf pub,
            vr_manifest_rows = em_row_count mf, vr_manifest_subject = em_export mf,
            vr_manifest_signer = em_signature_by mf,
            vr_verified_signer = (if known then KeyIdentifier lib pub else []),
            vr_signer_set = (signers \<noteq> []),
            vr_signer_allowed = (known \<and> KeyIdentifier lib pub \<in> set signers)\<rparr> in
      bindE (bundleEventsFileName mf) (\<lambda>eventsName.
      case fmlookup files eventsName of
        None \<Rightarrow> Inl ErrEncoding
      | Some file \<Rightarrow>
          bindE (scanBundleRows lib c bl mf file report) (\<lambda>(report, links).
          Inr (verifyChainLinks report links))))"

text \<open>The failures that \<open>VerifyReport.Err\<close> names; the bundle verified when there is none.\<close>

datatype verify_failure =
    FileDigestDiffers
  | SignatureFailed
  | SignerNotAllowed
  | SignerNamedDiffers
  | ChainBroken
  | RowHashesFailed
  | RowCountDiffers

definition report_failures :: "verify_report \<Rightarrow> verify_failure list" where
  "report_failures r =
     (if \<not> vr_file_sha256_ok r then [FileDigestDiffers] else []) @
     (if \<not> vr_signature_ok r then [SignatureFailed] else []) @
     (if vr_signer_set r \<and> \<not> vr_signer_allowed r then [SignerNotAllowed] else []) @
     (if vr_signer_set r \<and> vr_manifest_signer r \<noteq> vr_verified_signer r then [SignerNamedDiffers] else []) @
     (if vr_chain_breaks r \<noteq> [] then [ChainBroken] else []) @
     (if vr_hash_matches r \<noteq> vr_rows_scanned r then [RowHashesFailed] else []) @
     (if vr_manifest_rows r \<noteq> int (vr_rows_scanned r) then [RowCountDiffers] else [])"

section \<open>The walk over the chain links\<close>

definition int64_seqs :: "chain_link list \<Rightarrow> bool" where
  "int64_seqs links \<longleftrightarrow> (\<forall>l \<in> set links. - (2 ^ 63) \<le> link_seq l \<and> link_seq l \<le> max_int64)"

text \<open>Every pair of links with consecutive sequence numbers on a shard is joined by its hashes.\<close>

definition links_joined :: "chain_link list \<Rightarrow> bool" where
  "links_joined links \<longleftrightarrow>
     (\<forall>a \<in> set links. \<forall>b \<in> set links.
        link_shard a = link_shard b \<and> link_seq b = link_seq a + 1 \<longrightarrow> link_prev_hash b = link_row_hash a)"

text \<open>The last link of a shard in a list that was walked over.\<close>

definition last_on :: "16 word \<Rightarrow> chain_link list \<Rightarrow> chain_link option" where
  "last_on shard ls =
     (let ms = filter (\<lambda>l. link_shard l = shard) ls in if ms = [] then None else Some (last ms))"

lemma last_on_snoc [simp]:
  "last_on shard (ls @ [l]) = (if link_shard l = shard then Some l else last_on shard ls)"
  by (simp add: last_on_def)

lemma last_on_Nil [simp]: "last_on shard [] = None"
  by (simp add: last_on_def)

lemma last_on_mem: "last_on shard ls = Some p \<Longrightarrow> p \<in> set ls \<and> link_shard p = shard"
  by (induction ls rule: rev_induct) (auto split: if_splits)

lemma last_on_None: "last_on shard ls = None \<longleftrightarrow> (\<forall>l \<in> set ls. link_shard l \<noteq> shard)"
  by (induction ls rule: rev_induct) auto

lemma walk_last_seen:
  "fmlookup (fst (fold link_step ls (fmempty, report))) shard =
    map_option (\<lambda>l. (link_seq l, link_row_hash l)) (last_on shard ls)"
  by (induction ls rule: rev_induct) (auto simp: link_step_def split: prod.splits)

text \<open>What a link must satisfy after the last link of its shard for the walk to report nothing.\<close>

definition follows :: "chain_link option \<Rightarrow> chain_link \<Rightarrow> bool" where
  "follows p l =
     (case p of
        None \<Rightarrow> True
      | Some a \<Rightarrow> link_seq a < link_seq l \<and> (link_seq l = link_seq a + 1 \<longrightarrow> link_prev_hash l = link_row_hash a))"

lemma wrap_int64_succ: "- (2 ^ 63) \<le> n \<Longrightarrow> n < max_int64 \<Longrightarrow> wrap_int64 (n + 1) = n + 1"
  by (simp add: wrap_int64_def max_int64_def)

lemma wrap_int64_max: "wrap_int64 (max_int64 + 1) = - (2 ^ 63)"
  by (simp add: wrap_int64_def max_int64_def)

lemma link_step_breaks:
  assumes "int64_seqs (ls @ [l])"
  shows "vr_chain_breaks (snd (fold link_step (ls @ [l]) (fmempty, report))) = [] \<longleftrightarrow>
    vr_chain_breaks (snd (fold link_step ls (fmempty, report))) = [] \<and> follows (last_on (link_shard l) ls) l"
proof -
  obtain seen rep where st: "fold link_step ls (fmempty, report) = (seen, rep)" by fastforce
  have look: "fmlookup seen (link_shard l) =
      map_option (\<lambda>l. (link_seq l, link_row_hash l)) (last_on (link_shard l) ls)"
    using walk_last_seen [of ls report "link_shard l"] st by simp
  show ?thesis
  proof (cases "last_on (link_shard l) ls")
    case None
    then show ?thesis using look by (simp add: st link_step_def follows_def)
  next
    case (Some p)
    then have "p \<in> set ls" using last_on_mem by blast
    with assms have range: "- (2 ^ 63) \<le> link_seq p" "link_seq p \<le> max_int64" "link_seq l \<le> max_int64"
      by (auto simp: int64_seqs_def)
    have "link_seq l \<le> link_seq p" if "link_seq p = max_int64" using range(3) that by simp
    with range wrap_int64_succ [of "link_seq p"] show ?thesis
      using look Some by (cases "link_seq p = max_int64") (auto simp: st link_step_def follows_def)
  qed
qed

lemma sint_inject [simp]: "sint (a :: 16 word) = sint b \<longleftrightarrow> a = b"
  using signed_word_eqI by blast

lemma sorted_last_on:
  assumes "sorted (map link_key (ls @ [l]))" "a \<in> set ls" "link_shard a = link_shard l"
  shows "\<exists>p. last_on (link_shard l) ls = Some p \<and> link_seq a \<le> link_seq p \<and> link_seq p \<le> link_seq l"
  using assms
proof (induction ls rule: rev_induct)
  case (snoc x ls)
  have le: "link_key b \<le> link_key l" "link_key b \<le> link_key x \<or> b = x" if "b \<in> set (ls @ [x])" for b
    using snoc.prems(1) that by (auto simp: sorted_append)
  show ?case
  proof (cases "link_shard x = link_shard l")
    case True
    then show ?thesis using le(1) [of x] le(2) [OF snoc.prems(2)] snoc.prems(3)
      by (auto simp: link_key_def less_eq_prod_def)
  next
    case False
    then have "a \<in> set ls" using snoc.prems by auto
    moreover have "sorted (map link_key (ls @ [l]))" using snoc.prems(1) by (auto simp: sorted_append)
    ultimately show ?thesis using snoc.IH snoc.prems(3) False by simp
  qed
qed simp

lemma follows_iff:
  assumes sorted: "sorted (map link_key (ls @ [l]))" and distinct: "distinct (map link_key ls)"
  shows "follows (last_on (link_shard l) ls) l \<longleftrightarrow>
    link_key l \<notin> link_key ` set ls \<and>
    (\<forall>a \<in> set ls. link_shard a = link_shard l \<and> link_seq l = link_seq a + 1 \<longrightarrow> link_prev_hash l = link_row_hash a)"
proof (cases "last_on (link_shard l) ls")
  case None
  then have shards: "\<forall>a \<in> set ls. link_shard a \<noteq> link_shard l" by (simp add: last_on_None)
  moreover have "link_key a = link_key l \<Longrightarrow> link_shard a = link_shard l" for a by (simp add: link_key_def)
  ultimately have "link_key l \<notin> link_key ` set ls" by (metis imageE)
  with None shards show ?thesis by (simp add: follows_def)
next
  case (Some p)
  then have p: "p \<in> set ls" "link_shard p = link_shard l" using last_on_mem by blast+
  have below: "link_seq a \<le> link_seq p \<and> link_seq p \<le> link_seq l" if "a \<in> set ls" "link_shard a = link_shard l" for a
    using sorted_last_on [OF sorted that] Some by auto
  have same: "a = p" if "a \<in> set ls" "link_shard a = link_shard l" "link_seq a = link_seq p" for a
    using distinct that p by (auto simp: distinct_map inj_on_def link_key_def)
  have "link_key l \<notin> link_key ` set ls \<longleftrightarrow> link_seq p < link_seq l"
  proof
    assume "link_key l \<notin> link_key ` set ls"
    then have "link_seq p \<noteq> link_seq l" using p by (auto simp: link_key_def image_iff)
    then show "link_seq p < link_seq l" using below [OF p] by simp
  next
    assume less: "link_seq p < link_seq l"
    show "link_key l \<notin> link_key ` set ls"
    proof
      assume "link_key l \<in> link_key ` set ls"
      then obtain a where "a \<in> set ls" "link_key a = link_key l" by auto
      then show False using below [of a] less by (simp add: link_key_def)
    qed
  qed
  moreover have "(\<forall>a \<in> set ls. link_shard a = link_shard l \<and> link_seq l = link_seq a + 1 \<longrightarrow>
        link_prev_hash l = link_row_hash a) \<longleftrightarrow> (link_seq l = link_seq p + 1 \<longrightarrow> link_prev_hash l = link_row_hash p)"
    (is "?all \<longleftrightarrow> ?one") if less: "link_seq p < link_seq l"
  proof
    show ?one if ?all using that p by blast
    show ?all if one: ?one
    proof (intro ballI impI, elim conjE)
      fix a assume a: "a \<in> set ls" "link_shard a = link_shard l" "link_seq l = link_seq a + 1"
      then have "link_seq a = link_seq p" using below [OF a(1,2)] less by linarith
      then show "link_prev_hash l = link_row_hash a" using same [OF a(1,2)] one a(3) by simp
    qed
  qed
  ultimately show ?thesis using Some by (auto simp: follows_def)
qed

lemma walk_breaks:
  assumes "sorted (map link_key ls)" "int64_seqs ls" "vr_chain_breaks report = []"
  shows "vr_chain_breaks (snd (fold link_step ls (fmempty, report))) = [] \<longleftrightarrow>
    distinct (map link_key ls) \<and> links_joined ls"
  using assms
proof (induction ls rule: rev_induct)
  case Nil
  then show ?case by (simp add: links_joined_def)
next
  case (snoc l ls)
  have before: "sorted (map link_key ls)" "int64_seqs ls" using snoc.prems by (auto simp: sorted_append int64_seqs_def)
  have order: "link_shard b = link_shard l \<Longrightarrow> link_seq b \<le> link_seq l" if "b \<in> set ls" for b
  proof -
    have "link_key b \<le> link_key l" using snoc.prems(1) that by (simp add: sorted_append)
    then show "link_shard b = link_shard l \<Longrightarrow> link_seq b \<le> link_seq l" by (simp add: link_key_def less_eq_prod_def)
  qed
  have joined: "links_joined (ls @ [l]) \<longleftrightarrow> links_joined ls \<and>
      (\<forall>a \<in> set ls. link_shard a = link_shard l \<and> link_seq l = link_seq a + 1 \<longrightarrow> link_prev_hash l = link_row_hash a)"
    using order by (fastforce simp: links_joined_def)
  show ?case
    unfolding link_step_breaks [OF snoc.prems(2)] snoc.IH [OF before snoc.prems(3)] joined
    using follows_iff [OF snoc.prems(1)] by auto
qed

lemma distinct_link_key: "distinct (map link_key ls) \<longleftrightarrow> distinct (map (\<lambda>l. (link_shard l, link_seq l)) ls)"
  by (simp add: distinct_map inj_on_def link_key_def)

lemma distinct_sort_key: "distinct (map f (sort_key g ls)) \<longleftrightarrow> distinct (map f ls)"
  by (rule mset_eq_imp_distinct_iff) simp

lemma verifyChainLinks_linked:
  assumes "int64_seqs links" "vr_chain_breaks report = []"
  shows "vr_chain_breaks (verifyChainLinks report links) = [] \<longleftrightarrow>
    distinct (map (\<lambda>l. (link_shard l, link_seq l)) links) \<and> links_joined links"
proof -
  have "int64_seqs (sort_key link_key links)" "links_joined (sort_key link_key links) = links_joined links"
    using assms(1) by (simp_all add: int64_seqs_def links_joined_def)
  with walk_breaks [of "sort_key link_key links" report] assms(2) show ?thesis
    by (simp add: verifyChainLinks_def distinct_sort_key distinct_link_key)
qed

text \<open>
  C7: The walk over the chain links of a bundle reports no break exactly when no sequence number occurs
  twice on a shard and every row whose predecessor is in the bundle names that predecessor's hash,
  whatever the order in which the rows were read and whichever rows are missing.
\<close>

theorem verifyChainLinks_breaks_iff:
  assumes "int64_seqs links" and "vr_chain_breaks report = []"
  shows "vr_chain_breaks (verifyChainLinks report links) = [] \<longleftrightarrow>
    distinct (map (\<lambda>l. (link_shard l, link_seq l)) links) \<and> links_joined links"
  by (rule verifyChainLinks_linked [OF assms])

section \<open>Exports of the ledger verify\<close>

lemma link_step_keeps:
  "vr_rows_scanned (snd (link_step l s)) = vr_rows_scanned (snd s)"
  "vr_hash_matches (snd (link_step l s)) = vr_hash_matches (snd s)"
  "vr_file_sha256_ok (snd (link_step l s)) = vr_file_sha256_ok (snd s)"
  "vr_signature_ok (snd (link_step l s)) = vr_signature_ok (snd s)"
  "vr_manifest_rows (snd (link_step l s)) = vr_manifest_rows (snd s)"
  "vr_manifest_signer (snd (link_step l s)) = vr_manifest_signer (snd s)"
  "vr_verified_signer (snd (link_step l s)) = vr_verified_signer (snd s)"
  "vr_signer_set (snd (link_step l s)) = vr_signer_set (snd s)"
  "vr_signer_allowed (snd (link_step l s)) = vr_signer_allowed (snd s)"
  by (cases s; simp add: link_step_def split: option.splits prod.splits)+

lemma fold_link_step_keeps:
  assumes "\<And>l s. f (snd (link_step l s)) = f (snd s)"
  shows "f (snd (fold link_step ls s)) = f (snd s)"
  using assms by (induction ls arbitrary: s) simp_all

lemmas verifyChainLinks_keeps [simp] =
  link_step_keeps [THEN fold_link_step_keeps, of "sort_key link_key links" "(fmempty, report)" for links report,
    folded verifyChainLinks_def, unfolded snd_conv]

lemma report_failures_verifyChainLinks:
  "report_failures (verifyChainLinks report links) = report_failures
    (report\<lparr>vr_chain_breaks := vr_chain_breaks (verifyChainLinks report links)\<rparr>)"
  by (simp add: report_failures_def)

text \<open>The checks of a row do not look at its read manifest.\<close>

lemma checkRowHash_parts [simp]:
  "checkRowHash lib c (row\<lparr>row_manifest_parts := ps\<rparr>) = checkRowHash lib c row"
proof -
  let ?row = "row\<lparr>row_manifest_parts := ps\<rparr>"
  have event: "exportEvent ?row = exportEvent row" by (simp add: exportEvent_def)
  then have input: "rowHashInputFor c ?row = rowHashInputFor c row" by (simp add: rowHashInputFor_def)
  have "contractViolation lib ?row = contractViolation lib row" by (simp add: contractViolation_def event)
  moreover have "checkLegacyRowHash lib c ?row = checkLegacyRowHash lib c row"
    by (simp add: checkLegacyRowHash_def input)
  moreover have "ComputeRowHash lib c ?row = ComputeRowHash lib c row" by (simp add: ComputeRowHash_def input)
  moreover have "checkZeroTokenIDRowHash lib c ?row = checkZeroTokenIDRowHash lib c row"
    by (simp add: checkZeroTokenIDRowHash_def input)
  ultimately show ?thesis by (simp add: checkRowHash_def cong: if_cong)
qed

lemma attachManifestParts_simps [simp]:
  "checkRowHash lib c (attachManifestParts parts row) = checkRowHash lib c row"
  "row_org (attachManifestParts parts row) = row_org row"
  "newChainLink (attachManifestParts parts row) = newChainLink row"
  by (simp_all add: attachManifestParts_def newChainLink_def split: option.splits)

definition row_link :: "event_row \<Rightarrow> chain_link" where
  "row_link r =
     \<lparr>link_shard = er_shard r, link_seq = er_seq r, link_event = er_event r,
      link_prev_hash = hash_array (er_prev_hash r), link_row_hash = hash_array (er_row_hash r)\<rparr>"

lemma readAuditRow_link:
  "readAuditRow c r = Inr row \<Longrightarrow> newChainLink row = row_link r \<and> row_org row = er_org r"
  by (auto simp: readAuditRow_def decoded_row_def newChainLink_def row_link_def err_simps)

lemma scan_honest_rows:
  assumes "\<And>row. row \<in> set rows \<Longrightarrow>
    row_org row = em_org mf \<and> checkRowHash lib c row = Inr None \<and> \<not> manifestViolation lib (bun_targets bl) row"
  shows "foldE (scan_row lib c bl mf) rows (report, links) =
    Inr (report\<lparr>vr_rows_scanned := vr_rows_scanned report + length rows,
      vr_hash_matches := vr_hash_matches report + length rows\<rparr>, links @ map newChainLink rows)"
  using assms
proof (induction rows arbitrary: report links)
  case (Cons row rows)
  have "scan_row lib c bl mf row (report, links) =
      Inr (report\<lparr>vr_rows_scanned := vr_rows_scanned report + 1, vr_hash_matches := vr_hash_matches report + 1\<rparr>,
        links @ [newChainLink row])"
    using Cons.prems [of row] by (simp add: scan_row_def)
  then show ?case using Cons.IH Cons.prems by (simp add: add.commute)
qed simp

text \<open>Rows of one organization that the ledger holds form a joined list of links.\<close>

lemma chain_member:
  assumes "ledger_ok lib c db" "r \<in> set (led_events db)"
  obtains n where "n < length (chain_of db (er_org r, er_shard r))" "chain_of db (er_org r, er_shard r) ! n = r"
    "er_seq r = int n + 1" "er_prev_hash r = chain_end (take n (chain_of db (er_org r, er_shard r)))"
proof -
  have "r \<in> set (chain_of db (er_org r, er_shard r))" using assms(2) by (simp add: chain_of_def)
  then obtain n where "n < length (chain_of db (er_org r, er_shard r))" "chain_of db (er_org r, er_shard r) ! n = r"
    by (auto simp: in_set_conv_nth)
  then show thesis
    using that [of n] ledger_ok_linked [OF assms(1), of "(er_org r, er_shard r)"] by (auto simp: chain_linked_def)
qed

lemma chain_row_unique:
  assumes ok: "ledger_ok lib c db" and rows: "r \<in> set (led_events db)" "s \<in> set (led_events db)"
    and "er_org r = er_org s" "er_shard r = er_shard s" "er_seq r = er_seq s"
  shows "r = s"
  using chain_member [OF ok rows(1)] chain_member [OF ok rows(2)] assms(4-6)
  by (metis add_right_cancel of_nat_eq_iff)

lemma chain_row_joined:
  assumes ok: "ledger_ok lib c db" and rows: "r \<in> set (led_events db)" "s \<in> set (led_events db)"
    and same: "er_org s = er_org r" "er_shard s = er_shard r" "er_seq s = er_seq r + 1"
  shows "er_prev_hash s = er_row_hash r"
proof -
  let ?chain = "chain_of db (er_org r, er_shard r)"
  from chain_member [OF ok rows(1)] obtain n where n: "n < length ?chain" "?chain ! n = r" "er_seq r = int n + 1" .
  from chain_member [OF ok rows(2)] obtain m where m: "m < length ?chain" "er_seq s = int m + 1"
    "er_prev_hash s = chain_end (take m ?chain)" by (metis same(1,2))
  have "m = Suc n" using n(3) m(2) same(3) by simp
  then show ?thesis using m(3) n(1,2) by (simp add: chain_end_def take_Suc_conv_app_nth)
qed

lemma distinct_subset_mset:
  assumes "mset xs \<subseteq># mset ys" "distinct ys"
  shows "distinct xs"
  unfolding distinct_count_atmost_1
proof
  fix x
  have "count (mset xs) x \<le> count (mset ys) x" by (rule mset_subset_eq_count [OF assms(1)])
  also have "\<dots> \<le> 1" using assms(2) by (simp only: distinct_count_atmost_1) simp
  finally have "count (mset xs) x \<le> 1" .
  moreover have "0 < count (mset xs) x" if "x \<in> set xs" using that by simp
  ultimately show "count (mset xs) x = (if x \<in> set xs then 1 else 0)"
    by (cases "x \<in> set xs") (auto simp: le_Suc_eq count_mset_0_iff)
qed

lemma selected_links:
  assumes ok: "ledger_ok lib c db" and bound: "int (length (led_events db)) \<le> max_int64"
    and sel: "mset selected \<subseteq># mset (led_events db)" and org: "\<forall>r \<in> set selected. er_org r = orgID"
  shows "int64_seqs (map row_link selected)" "links_joined (map row_link selected)"
    "distinct (map (\<lambda>l. (link_shard l, link_seq l)) (map row_link selected))"
proof -
  have mem: "r \<in> set (led_events db)" if "r \<in> set selected" for r
    using sel that by (metis mset_subset_eqD set_mset_mset)
  have "1 \<le> er_seq r \<and> er_seq r \<le> max_int64" if "r \<in> set selected" for r
  proof -
    from chain_member [OF ok mem [OF that]] obtain n where
      "n < length (chain_of db (er_org r, er_shard r))" "er_seq r = int n + 1" .
    then show ?thesis using bound chain_of_le [of db "(er_org r, er_shard r)"] by simp
  qed
  then show "int64_seqs (map row_link selected)" by (fastforce simp: int64_seqs_def row_link_def)
  show "links_joined (map row_link selected)"
    unfolding links_joined_def
  proof (intro ballI impI, elim conjE)
    fix a b
    assume "a \<in> set (map row_link selected)" "b \<in> set (map row_link selected)"
    then obtain r s where rows: "r \<in> set selected" "s \<in> set selected" "a = row_link r" "b = row_link s" by auto
    assume "link_shard a = link_shard b" "link_seq b = link_seq a + 1"
    then have "er_prev_hash s = er_row_hash r"
      using chain_row_joined [OF ok mem mem, of r s] rows org by (simp add: row_link_def)
    then show "link_prev_hash b = link_row_hash a" using rows by (simp add: row_link_def)
  qed
  have "distinct (led_events db)" using ok by (auto simp: ledger_ok_def distinct_map)
  then have "distinct selected" by (rule distinct_subset_mset [OF sel])
  moreover have "inj_on (\<lambda>r. (er_shard r, er_seq r)) (set selected)"
    using chain_row_unique [OF ok] mem org by (auto simp: inj_on_def)
  ultimately show "distinct (map (\<lambda>l. (link_shard l, link_seq l)) (map row_link selected))"
    by (simp add: distinct_map comp_def row_link_def)
qed

text \<open>What an export relies on outside the ledger, for the rows it writes.\<close>

definition export_law :: "bundle_lib \<Rightarrow> bytes \<Rightarrow> bytes \<Rightarrow> audit_row list \<Rightarrow> bytes \<Rightarrow> bool" where
  "export_law bl signer pub rows file \<longleftrightarrow>
     signer \<noteq> [] \<and> length pub = PublicKeySize \<and> (\<forall>m. bun_verify bl pub m (bun_sign bl signer m)) \<and>
     bun_file bl rows = Some file \<and> bun_rows bl file = Some rows"

definition plain_text :: "string \<Rightarrow> bool" where
  "plain_text s \<longleftrightarrow> CHR ''/'' \<notin> set s \<and> CHR 0x5C \<notin> set s"

lemma read_selected:
  assumes "ledger_ok lib c db" "mset selected \<subseteq># mset (led_events db)"
  obtains rows where "mapE (readAuditRow c) selected = Inr rows" "\<forall>row \<in> set rows. checkRowHash lib c row = Inr None"
    "map newChainLink rows = map row_link selected" "map row_org rows = map er_org selected"
proof -
  have "\<forall>r \<in> set selected. row_verifies lib c r"
    using assms by (auto simp: ledger_ok_def dest: mset_subset_eqD)
  then have "\<exists>rows. mapE (readAuditRow c) selected = Inr rows \<and> (\<forall>row \<in> set rows. checkRowHash lib c row = Inr None) \<and>
      map newChainLink rows = map row_link selected \<and> map row_org rows = map er_org selected"
  proof (induction selected)
    case (Cons r selected)
    then obtain row rows where "readAuditRow c r = Inr row" "checkRowHash lib c row = Inr None"
      "mapE (readAuditRow c) selected = Inr rows" "\<forall>row \<in> set rows. checkRowHash lib c row = Inr None"
      "map newChainLink rows = map row_link selected" "map row_org rows = map er_org selected"
      by (auto simp: row_verifies_def)
    then show ?case using readAuditRow_link [of c r row] by simp
  qed simp
  then show thesis using that by blast
qed

text \<open>A bundle whose manifest describes its rows, whose rows verify and whose links are joined has no failure.\<close>

lemma honest_bundle_verifies:
  assumes stored: "bundleEventsFileName mf = Inr eventsName" "fmlookup files eventsName = Some content"
      "bun_rows bl content = Some rows" "sha256Hex lib content = em_file_sha256 mf" "em_row_count mf = int (length rows)"
    and signature: "manifestSignatureOK bl mf pub" "length pub = PublicKeySize"
      "signers = [] \<or> em_signature_by mf = KeyIdentifier lib pub \<and> em_signature_by mf \<in> set signers"
    and rows: "\<And>row. row \<in> set rows \<Longrightarrow>
      row_org row = em_org mf \<and> checkRowHash lib c row = Inr None \<and> \<not> manifestViolation lib (bun_targets bl) row"
    and links: "int64_seqs (map newChainLink rows)" "links_joined (map newChainLink rows)"
      "distinct (map (\<lambda>l. (link_shard l, link_seq l)) (map newChainLink rows))"
  shows "\<exists>report. VerifyBundleWithSigners lib c bl mf files pub signers = Inr report \<and> report_failures report = []"
proof -
  let ?report = "\<lparr>vr_rows_scanned = length rows, vr_hash_matches = length rows, vr_chain_gaps = 0, vr_chain_breaks = [],
    vr_file_sha256_ok = True, vr_signature_ok = True, vr_manifest_rows = int (length rows),
    vr_manifest_subject = em_export mf, vr_manifest_signer = em_signature_by mf,
    vr_verified_signer = KeyIdentifier lib pub, vr_signer_set = (signers \<noteq> []),
    vr_signer_allowed = (KeyIdentifier lib pub \<in> set signers)\<rparr>"
  let ?verified = "verifyChainLinks ?report (map newChainLink rows)"
  have scan: "foldE (scan_row lib c bl mf) rows (report, []) =
    Inr (report\<lparr>vr_rows_scanned := vr_rows_scanned report + length rows,
      vr_hash_matches := vr_hash_matches report + length rows\<rparr>, map newChainLink rows)" for report
    using scan_honest_rows [OF rows, of rows report "[]"] by simp
  have "VerifyBundleWithSigners lib c bl mf files pub signers = Inr ?verified"
    using stored signature(1,2) by (simp add: VerifyBundleWithSigners_def scanBundleRows_def scan Let_def)
  moreover have "vr_chain_breaks ?verified = []"
    using verifyChainLinks_linked [OF links(1), of ?report] links(2,3) by simp
  then have "report_failures ?verified = []"
    unfolding report_failures_verifyChainLinks using signature(3) by (auto simp: report_failures_def)
  ultimately show ?thesis by blast
qed


section \<open>A sample ledger\<close>

text \<open>
  An encoding for events with one context and no delta, and a ledger with one row of the consumer and one
  of the direct recorder.
\<close>

definition sample_ledger_event :: "uuid \<Rightarrow> audit_event" where
  "sample_ledger_event eventID =
     legacyEvent \<lparr>lri_org = 1, lri_actor = 3, lri_entity = 5, lri_event = eventID, lri_action = [], lri_tool = []\<rparr>
       \<lparr>lr_event = eventID, lr_shard = 0, lr_seq = 0, lr_time = 5000\<rparr>"

fun payload_seq :: "hash_payload \<Rightarrow> int" where
  "payload_seq (PayloadV1 p) = hp_seq p"
| "payload_seq (PayloadV2 p) = hp_seq p"
| "payload_seq (PayloadV3 p) = hp_seq p"

definition sample_codec :: codec where
  "sample_codec =
     \<lparr>cod_context = (\<lambda>_. Some [1]), cod_zero_token_context = (\<lambda>_. Some [2]),
      cod_context_value = (\<lambda>_. Some (ev_context (sample_ledger_event 9))), cod_delta = (\<lambda>_. None),
      cod_delta_value = (\<lambda>_. Some None), cod_error = (\<lambda>_. None), cod_error_value = (\<lambda>_. None),
      cod_payload = (\<lambda>p. Some (JArr (replicate (nat (payload_seq p)) JNull))), cod_scalar = (\<lambda>_. [0]),
      cod_time = (\<lambda>_. []), cod_jsonb = (\<lambda>b. b)\<rparr>"

definition sample_prepared :: "uuid \<Rightarrow> chain_append_input" where
  "sample_prepared eventID = projr (append_input sample_codec (sample_ledger_event eventID))"

definition sample_first :: "chain_append_result \<times> ledger" where
  "sample_first =
     projr (advanceChain sample_lib sample_codec empty_ledger ((sample_prepared 9)\<lparr>cai_pii_ref := 6\<rparr>) empty_ledger)"

definition sample_second :: "chain_append_result \<times> ledger" where
  "sample_second =
     projr (recordOnce sample_lib sample_codec (snd sample_first) (sample_prepared 10) 8 (snd sample_first))"

definition sample_bundle_lib :: bundle_lib where
  "sample_bundle_lib =
     \<lparr>bun_sign = (\<lambda>_ m. m), bun_verify = (\<lambda>_ m sig. sig = m), bun_signable = (\<lambda>_. [4]),
      bun_file = (\<lambda>_. Some [7]),
      bun_rows = (\<lambda>_. Some (map (attachManifestParts (\<lambda>_ _. []))
        (projr (mapE (readAuditRow sample_codec) (led_events (snd sample_second)))))),
      bun_targets = (\<lambda>_. None)\<rparr>"

lemma sample_prepared_input: "append_input sample_codec (sample_ledger_event eventID) = Inr (sample_prepared eventID)"
  by (simp add: sample_prepared_def append_input_def marshalE_def sample_codec_def sample_ledger_event_def legacyEvent_def)

text \<open>A writer that sees the present state succeeds with a valid new event.\<close>

lemma readChainHead_swaps:
  "writeChainHead orgID shard (readChainHead orgID shard db) seq rowHash (db\<lparr>led_projected := P, led_events := E\<rparr>) =
    Inr (db\<lparr>led_projected := P, led_events := E, led_heads := fmupd (orgID, shard) (seq, rowHash) (led_heads db)\<rparr>)"
  by (auto simp: writeChainHead_def readChainHead_def Let_def split: option.splits)

lemma sample_hash: "\<exists>h. hashRowForEvent sample_lib sample_codec (append_hash_input i event head seq) = Inr h"
  by (simp add: hashRowForEvent_def append_hash_input_def hash_version_defs hashRow_def canonicalJSON_def sample_codec_def)

lemma sample_append:
  assumes "eventID |\<notin>| led_projected db" "\<forall>r \<in> set (led_events db). er_event r \<noteq> eventID"
    and "i = (sample_prepared eventID)\<lparr>cai_pii_ref := piiRef\<rparr>"
  obtains res r where "appendChainRow sample_lib sample_codec db i db = Inr (res, appended r db)"
    "er_org r = 1" "er_event r = eventID"
proof -
  let ?event = "default_outcome (sample_ledger_event eventID)"
  let ?head = "readChainHead 1 (cai_shard i) db"
  let ?seq = "wrap_int64 (ch_last_seq ?head + 1)"
  obtain h where h: "hashRowForEvent sample_lib sample_codec (append_hash_input i ?event ?head ?seq) = Inr h"
    using sample_hash by blast
  have i: "cai_event i = sample_ledger_event eventID" "cai_event_id i = eventID"
    by (rule append_inputE [OF sample_prepared_input [of eventID] assms(3)],
      simp add: sample_ledger_event_def legacyEvent_def)+
  have ev: "ctx_org (ev_context (sample_ledger_event eventID)) = 1" "ev_error (sample_ledger_event eventID) = None"
    "ValidateEvent sample_lib (sample_ledger_event eventID)"
    by (simp_all add: sample_ledger_event_def legacyEvent_def legacy_context_def empty_context_def ValidateEvent_def
        validateEventContract_def validateLegacyEvent_def hasCompleteContextField_def AuditFormatLegacy_def)
  let ?r = "append_row i ?event ?head ?seq h None"
  have r: "er_org ?r = 1" "er_event ?r = eventID" "er_shard ?r = cai_shard i" "er_seq ?r = ?seq" "er_row_hash ?r = h"
    using i ev by (simp_all add: append_row_def)
  have "\<not> list_ex (\<lambda>r. er_event r = eventID \<and> er_time r = er_time ?r) (led_events db)"
    using assms(2) by (auto simp: list_ex_iff)
  then have "appendChainRow sample_lib sample_codec db i db =
      Inr (\<lparr>car_seq = ?seq, car_prev_hash = ch_last_hash ?head, car_row_hash = h\<rparr>, appended ?r db)"
    using assms(1) h i ev r
    by (simp add: appendChainRow_def Let_def claimEventIdentity_def error_column_def insert_event_def
        readChainHead_swaps appended_def)
  then show thesis using that r by blast
qed

lemma sample_storable: "storable sample_codec (sample_ledger_event eventID)"
proof -
  let ?c = "ev_context (sample_ledger_event eventID)"
  have "?c\<lparr>ctx_selection := None\<rparr> = ?c" "ev_context (sample_ledger_event 9) = ?c"
    by (simp_all add: sample_ledger_event_def legacyEvent_def legacy_context_def empty_context_def)
  then have "context_law sample_codec ?c"
    by (auto simp: context_law_def sample_codec_def intro!: exI [of _ None])
  then show ?thesis
    by (simp add: storable_def delta_law_def error_law_def extra_law_def sample_codec_def null_text_def ascii_bytes_def
        sample_ledger_event_def legacyEvent_def truncate_microsecond_def)
qed

lemma sample_event_prepared [simp]:
  "canonicalizeCorrelation (sample_ledger_event eventID) = sample_ledger_event eventID"
  "eventID \<noteq> uuid_nil \<Longrightarrow> record_event (sample_ledger_event eventID) now fresh = sample_ledger_event eventID"
  by (simp_all add: canonicalizeCorrelation_def record_event_def sample_ledger_event_def legacyEvent_def
      legacy_context_def empty_context_def Let_def)

lemma sample_first_run:
  obtains r where "advanceChain sample_lib sample_codec empty_ledger ((sample_prepared 9)\<lparr>cai_pii_ref := 6\<rparr>) empty_ledger =
      Inr (fst sample_first, snd sample_first)"
    "snd sample_first = appended r empty_ledger" "er_org r = 1" "er_event r = 9"
proof -
  have "9 |\<notin>| led_projected empty_ledger" "\<forall>r \<in> set (led_events empty_ledger). er_event r \<noteq> 9"
    by (simp_all add: empty_ledger_def)
  from sample_append [OF this refl, of 6] obtain res r where
    "appendChainRow sample_lib sample_codec empty_ledger ((sample_prepared 9)\<lparr>cai_pii_ref := 6\<rparr>) empty_ledger =
      Inr (res, appended r empty_ledger)" "er_org r = 1" "er_event r = 9" .
  then show thesis using that by (simp add: sample_first_def advanceChain_def)
qed

lemma sample_second_run:
  obtains r s where
    "recordOnce sample_lib sample_codec (snd sample_first) (sample_prepared 10) 8 (snd sample_first) =
      Inr (fst sample_second, snd sample_second)"
    "led_events (snd sample_second) = [r, s]" "er_org r = 1" "er_org s = 1"
proof -
  obtain r where r: "snd sample_first = appended r empty_ledger" "er_org r = 1" "er_event r = 9" by (rule sample_first_run)
  have "10 |\<notin>| led_projected (snd sample_first)" "\<forall>r \<in> set (led_events (snd sample_first)). er_event r \<noteq> 10"
    by (simp_all add: r empty_ledger_def)
  from sample_append [OF this refl, of 8] obtain res s where "appendChainRow sample_lib sample_codec (snd sample_first)
      ((sample_prepared 10)\<lparr>cai_pii_ref := 8\<rparr>) (snd sample_first) = Inr (res, appended s (snd sample_first))" "er_org s = 1" .
  then show thesis using that [of r s] r by (simp add: sample_second_def recordOnce_def empty_ledger_def)
qed

lemma sample_history:
  "ledger_history sample_lib sample_codec [snd sample_second, snd sample_first, empty_ledger]"
proof -
  have prepared: "prepareEvent sample_codec (sample_ledger_event 9) = Inr (sample_prepared 9)"
    by (simp add: prepareEvent_def sample_prepared_input Let_def) (simp add: sample_ledger_event_def legacyEvent_def)
  have first: "advanceChain sample_lib sample_codec empty_ledger ((sample_prepared 9)\<lparr>cai_pii_ref := 6\<rparr>) empty_ledger =
      Inr (fst sample_first, snd sample_first)"
    by (rule sample_first_run)
  have "ledger_history sample_lib sample_codec [snd sample_first, empty_ledger]"
    by (rule history_consume [OF history_start _ _ first, of "sample_ledger_event 9"]) (simp_all add: prepared sample_storable)
  moreover have second: "recordOnce sample_lib sample_codec (snd sample_first) (sample_prepared 10) 8 (snd sample_first) =
      Inr (fst sample_second, snd sample_second)"
    by (rule sample_second_run)
  ultimately show ?thesis
    by (intro history_record [OF _ _ _ second, of _ "sample_ledger_event 10" 7000 12])
      (simp_all add: sample_prepared_input sample_storable)
qed

lemma sample_row_manifest:
  assumes "readAuditRow sample_codec r = Inr row"
  shows "\<not> manifestViolation lib decode (attachManifestParts parts row)"
proof -
  have "ctx_read (row_context row) = None \<and> row_manifest_parts row = []"
    using assms by (auto simp: readAuditRow_def decoded_row_def unmarshalRowPayload_def sample_codec_def
        sample_ledger_event_def legacyEvent_def legacy_context_def empty_context_def err_simps split: if_splits)
  then show ?thesis by (simp add: attachManifestParts_def manifestViolation_def)
qed


definition sample_links :: "chain_link list" where
  "sample_links =
     [\<lparr>link_shard = 1, link_seq = 2, link_event = 6, link_prev_hash = [3], link_row_hash = [4]\<rparr>,
      \<lparr>link_shard = 1, link_seq = 1, link_event = 5, link_prev_hash = [], link_row_hash = [3]\<rparr>,
      \<lparr>link_shard = 2, link_seq = 8, link_event = 7, link_prev_hash = [9], link_row_hash = [8]\<rparr>]"

definition sample_report :: verify_report where
  "sample_report =
     \<lparr>vr_rows_scanned = 3, vr_hash_matches = 3, vr_chain_gaps = 0, vr_chain_breaks = [],
      vr_file_sha256_ok = True, vr_signature_ok = True, vr_manifest_rows = 3, vr_manifest_subject = 7,
      vr_manifest_signer = [], vr_verified_signer = [], vr_signer_set = False, vr_signer_allowed = False\<rparr>"

theorem verifyChainLinks_breaks_iff_witness:
  "vr_chain_breaks (verifyChainLinks sample_report sample_links) = [] \<and> links_joined sample_links"
proof -
  have "int64_seqs sample_links" by (simp add: int64_seqs_def sample_links_def max_int64_def)
  moreover have "vr_chain_breaks sample_report = []" by (simp add: sample_report_def)
  moreover have "distinct (map (\<lambda>l. (link_shard l, link_seq l)) sample_links)" by (simp add: sample_links_def)
  moreover have "links_joined sample_links" by (simp add: links_joined_def sample_links_def)
  ultimately show ?thesis using verifyChainLinks_breaks_iff [of sample_links sample_report] by blast
qed

end
