(* ===== verification/Search_Schedule.thy ===== *)
theory Search_Schedule
  imports Node_Types
begin

text \<open>
  The search scheduling state of the FoundationDB adapter (\<open>search_records.go\<close>,
  \<open>search_schedule.go\<close>, \<open>search_schedule_related.go\<close>, \<open>search_work_records.go\<close>,
  \<open>search_fanout.go\<close>, \<open>search_exclusion.go\<close>, \<open>search_access_rollout_affected.go\<close>): every source
  mutation increments the generation of its node and rewrites the pending work of the node in the
  same transaction.
\<close>

section \<open>Records\<close>

datatype work_class =
    WorkClassLive
  | WorkClassAccess
  | WorkClassCleanup
  | WorkClassRescan
  | WorkClassRollout
  | WorkClassRebuild
  | WorkClassCopy

datatype work_phase = PhasePages | PhaseRefresh | PhaseDependents | PhaseMetadata

record search_work =
  sw_org :: uuid
  sw_node :: uuid
  sw_generation :: int
  sw_revision :: int
  sw_deleted :: bool
  sw_enqueued_at :: timestamp

record search_claim =
  cl_owner :: string
  cl_generation :: int
  cl_lease_until :: timestamp
  cl_target :: string
  cl_mirror :: string

record search_progress =
  pr_revision :: int
  pr_generation :: int
  pr_projection :: string
  pr_cursor :: string
  pr_ordinal :: "64 word"
  pr_phase :: work_phase

record search_access =
  acc_versions :: "string list"
  acc_keys :: "string list"
  acc_generation :: int

record search_access_record =
  ar_access :: search_access
  ar_pages_pending :: bool
  ar_dependents_pending :: bool
  ar_page_access :: "search_access option"
  ar_page_access_tracked :: bool

record search_exclusion_record =
  ex_class :: work_class
  ex_index :: string
  ex_reason :: string
  ex_excluded_at :: timestamp

record pending_write =
  pw_document :: string
  pw_index :: string
  pw_ordinal :: "64 word"
  pw_generation :: int
  pw_abandoned_at :: timestamp
  pw_deadline :: timestamp

record search_rollout =
  ro_authority :: uuid
  ro_active_version :: string
  ro_candidate_version :: string
  ro_previous_version :: string
  ro_write_versions :: "string list"
  ro_phase :: string
  ro_scan_cursor :: string
  ro_verify_cursor :: string
  ro_retire_cursor :: string
  ro_scan_complete :: bool
  ro_affected_pass :: bool
  ro_generation :: int
  ro_permission_event_version :: int
  ro_initiated_operation :: uuid
  ro_initiated_actor :: uuid

text \<open>
  The key families, each keyed by the elements of its tuple after the family name. A JSON record is
  \<open>None\<close> when its text does not decode, a counter when it is not one integer; a key with an empty
  value is an element of a set. The pending writes of a node include the deployed per-node key, whose
  document part is \<open>None\<close>.
\<close>

record search_db =
  sd_generation :: "(uuid \<times> uuid, int option) kv"
  sd_revision :: "(uuid \<times> uuid, int option) kv"
  sd_work :: "(work_class \<times> nat \<times> uuid \<times> uuid, search_work option) kv"
  sd_age :: "(work_class \<times> nat \<times> int \<times> uuid \<times> uuid) fset"
  sd_claim :: "(work_class \<times> nat \<times> uuid \<times> uuid, search_claim option) kv"
  sd_cursor :: "(work_class \<times> uuid \<times> uuid, search_progress option) kv"
  sd_pending :: "(work_class \<times> uuid \<times> uuid \<times> (string \<times> string) option, pending_write option) kv"
  sd_error :: "(work_class \<times> uuid \<times> uuid, string) kv"
  sd_attempt :: "(work_class \<times> uuid \<times> uuid, int option) kv"
  sd_issued :: "(uuid \<times> uuid \<times> int \<times> 64 word \<times> string, string) kv"
  sd_access :: "(uuid \<times> uuid, search_access_record option) kv"
  sd_exclusion :: "(uuid \<times> uuid, search_exclusion_record option) kv"
  sd_rollout :: "(uuid, search_rollout option) kv"
  sd_collect :: "(uuid, int option) kv"
  sd_affected :: "(uuid \<times> int \<times> uuid) fset"
  sd_affected_count :: "(uuid \<times> int, 64 word) kv"
  sd_permission :: "(uuid, 64 word) kv"
  sd_fanout :: "(uuid \<times> uuid \<times> uuid) fset"

definition readSearchRecord :: "('k, 'a option) kv \<Rightarrow> 'k \<Rightarrow> 'a option result" where
  "readSearchRecord m k =
     (case fmlookup m k of
        None \<Rightarrow> Inr None
      | Some None \<Rightarrow> Inl ErrDecode
      | Some (Some x) \<Rightarrow> Inr (Some x))"

text \<open>An integer outside the range of \<open>int64\<close> does not pass the type assertion.\<close>

definition unpackCounter :: "int option \<Rightarrow> int result" where
  "unpackCounter encoded =
     (case encoded of
        None \<Rightarrow> Inl ErrDecode
      | Some n \<Rightarrow> if n < 0 \<or> max_int64 < n then Inl ErrDecode else Inr n)"

definition readSearchCounter :: "('k, int option) kv \<Rightarrow> 'k \<Rightarrow> int result" where
  "readSearchCounter m k = (case fmlookup m k of None \<Rightarrow> Inr 0 | Some encoded \<Rightarrow> unpackCounter encoded)"

definition writeSearchCounter :: "'k \<Rightarrow> int \<Rightarrow> ('k, int option) kv \<Rightarrow> ('k, int option) kv" where
  "writeSearchCounter k n m = fmupd k (Some n) m"

definition incrementSearchCounter :: "('k, int option) kv \<Rightarrow> 'k \<Rightarrow> (int \<times> ('k, int option) kv) result" where
  "incrementSearchCounter m k =
     bindE (readSearchCounter m k) (\<lambda>current.
     if current = max_int64 then Inl ErrOverflow
     else Inr (current + 1, writeSearchCounter k (current + 1) m))"

section \<open>Pending work\<close>

text \<open>The first byte of the digest of the organisation and the node.\<close>

definition searchBucket :: "lib \<Rightarrow> uuid \<Rightarrow> uuid \<Rightarrow> nat" where
  "searchBucket lib orgID nodeID =
     unat (ucast (drop_bit 248 (lib_sha256 lib (uuid_bytes orgID @ uuid_bytes nodeID))) :: 8 word)"

definition earliestSearchTime :: "timestamp \<Rightarrow> timestamp \<Rightarrow> timestamp" where
  "earliestSearchTime first second = (if first = 0 \<or> second < first then second else first)"

definition work_key :: "lib \<Rightarrow> work_class \<Rightarrow> uuid \<Rightarrow> uuid \<Rightarrow> work_class \<times> nat \<times> uuid \<times> uuid" where
  "work_key lib cls orgID nodeID = (cls, searchBucket lib orgID nodeID, orgID, nodeID)"

definition age_key :: "lib \<Rightarrow> work_class \<Rightarrow> search_work \<Rightarrow> work_class \<times> nat \<times> int \<times> uuid \<times> uuid" where
  "age_key lib cls r =
     (cls, searchBucket lib (sw_org r) (sw_node r), unix_nano (sw_enqueued_at r), sw_org r, sw_node r)"

definition readSearchWork :: "lib \<Rightarrow> search_db \<Rightarrow> work_class \<Rightarrow> uuid \<Rightarrow> uuid \<Rightarrow> search_work option result" where
  "readSearchWork lib db cls orgID nodeID = readSearchRecord (sd_work db) (work_key lib cls orgID nodeID)"

definition writeSearchWork ::
  "lib \<Rightarrow> work_class \<Rightarrow> search_work \<Rightarrow> search_work option \<Rightarrow> search_db \<Rightarrow> search_db" where
  "writeSearchWork lib cls r previous db =
     (let r' = (case previous of
            None \<Rightarrow> r
          | Some p \<Rightarrow> r\<lparr>sw_enqueued_at := earliestSearchTime (sw_enqueued_at p) (sw_enqueued_at r)\<rparr>);
          cleared = (case previous of
            None \<Rightarrow> sd_age db
          | Some p \<Rightarrow> sd_age db |-| {|(cls, searchBucket lib (sw_org r) (sw_node r),
              unix_nano (sw_enqueued_at p), sw_org p, sw_node p)|}) in
      db\<lparr>sd_age := finsert (age_key lib cls r') cleared,
         sd_work := fmupd (work_key lib cls (sw_org r') (sw_node r')) (Some r') (sd_work db)\<rparr>)"

definition removeSearchWork :: "lib \<Rightarrow> work_class \<Rightarrow> search_work \<Rightarrow> search_db \<Rightarrow> search_db" where
  "removeSearchWork lib cls r db =
     db\<lparr>sd_work := fmdrop (work_key lib cls (sw_org r) (sw_node r)) (sd_work db),
        sd_age := sd_age db |-| {|age_key lib cls r|}\<rparr>"

definition clearPendingWrites :: "work_class \<Rightarrow> uuid \<Rightarrow> uuid \<Rightarrow> search_db \<Rightarrow> search_db" where
  "clearPendingWrites cls orgID nodeID db =
     db\<lparr>sd_pending := kv_clear_range (\<lambda>(c, o', n, _). c = cls \<and> o' = orgID \<and> n = nodeID) (sd_pending db)\<rparr>"

section \<open>Access rollouts\<close>

definition StableVersion :: string where
  "StableVersion = ''org-scope-v1''"

definition stableRollout :: "uuid \<Rightarrow> search_rollout" where
  "stableRollout authorityID =
     \<lparr>ro_authority = authorityID, ro_active_version = StableVersion, ro_candidate_version = [],
      ro_previous_version = [], ro_write_versions = [StableVersion], ro_phase = ''stable'',
      ro_scan_cursor = [], ro_verify_cursor = [], ro_retire_cursor = [], ro_scan_complete = False,
      ro_affected_pass = False, ro_generation = 0, ro_permission_event_version = 0,
      ro_initiated_operation = uuid_nil, ro_initiated_actor = uuid_nil\<rparr>"

definition readRollout :: "search_db \<Rightarrow> uuid \<Rightarrow> search_rollout result" where
  "readRollout db authorityID =
     bindE (readSearchRecord (sd_rollout db) authorityID) (\<lambda>found.
     Inr (case found of None \<Rightarrow> stableRollout authorityID | Some r \<Rightarrow> r))"

definition addPermissionEvent :: "uuid \<Rightarrow> search_db \<Rightarrow> search_db" where
  "addPermissionEvent authorityID db = db\<lparr>sd_permission := kv_add authorityID 1 (sd_permission db)\<rparr>"

definition recordRolloutAffected :: "uuid \<Rightarrow> uuid \<Rightarrow> search_db \<Rightarrow> search_db result" where
  "recordRolloutAffected orgID nodeID db =
     (case fmlookup (sd_collect db) orgID of
        None \<Rightarrow> Inr db
      | Some encoded \<Rightarrow>
          bindE (unpackCounter encoded) (\<lambda>generation.
          Inr (db\<lparr>sd_affected := finsert (orgID, generation, nodeID) (sd_affected db),
             sd_affected_count := kv_add (orgID, generation) 1 (sd_affected_count db)\<rparr>)))"

definition hasIssuedDocuments :: "search_db \<Rightarrow> uuid \<Rightarrow> uuid \<Rightarrow> bool" where
  "hasIssuedDocuments db orgID nodeID \<longleftrightarrow>
     ffilter (\<lambda>(o', n, _). o' = orgID \<and> n = nodeID) (fmdom (sd_issued db)) \<noteq> {||}"

definition initializeSearchAccess :: "uuid \<Rightarrow> uuid \<Rightarrow> search_db \<Rightarrow> search_db result" where
  "initializeSearchAccess orgID nodeID db =
     bindE (readSearchRecord (sd_access db) (orgID, nodeID)) (\<lambda>found.
     if found \<noteq> None then Inr db
     else bindE (readRollout db orgID) (\<lambda>rollout.
       Inr (db\<lparr>sd_access := fmupd (orgID, nodeID)
         (Some \<lparr>ar_access = \<lparr>acc_versions = ro_write_versions rollout, acc_keys = [], acc_generation = 0\<rparr>,
            ar_pages_pending = False, ar_dependents_pending = False, ar_page_access = None,
            ar_page_access_tracked = (\<not> hasIssuedDocuments db orgID nodeID)\<rparr>) (sd_access db)\<rparr>)))"

section \<open>Scheduling\<close>

datatype search_change =
    searchChangeContent
  | searchChangeAccess
  | searchChangeDeletion
  | searchChangeExclusion
  | searchChangeRepair

datatype search_record_plan =
    searchRecordRewrite
  | searchRecordRestart
  | searchRecordPut
  | searchRecordRemove

definition searchNodeClasses :: "work_class list" where
  "searchNodeClasses = [WorkClassLive, WorkClassAccess, WorkClassCleanup, WorkClassCopy]"

text \<open>The table is defined on the node classes; the loop reads no other class.\<close>

fun searchRecordPlanFor :: "search_change \<Rightarrow> work_class \<Rightarrow> search_record_plan option" where
  "searchRecordPlanFor searchChangeContent WorkClassLive = Some searchRecordPut"
| "searchRecordPlanFor searchChangeContent WorkClassAccess = Some searchRecordRestart"
| "searchRecordPlanFor searchChangeContent WorkClassCleanup = Some searchRecordRewrite"
| "searchRecordPlanFor searchChangeContent WorkClassCopy = Some searchRecordRemove"
| "searchRecordPlanFor searchChangeAccess WorkClassLive = Some searchRecordRewrite"
| "searchRecordPlanFor searchChangeAccess WorkClassAccess = Some searchRecordPut"
| "searchRecordPlanFor searchChangeAccess WorkClassCleanup = Some searchRecordRewrite"
| "searchRecordPlanFor searchChangeAccess WorkClassCopy = Some searchRecordRewrite"
| "searchRecordPlanFor searchChangeDeletion WorkClassLive = Some searchRecordRemove"
| "searchRecordPlanFor searchChangeDeletion WorkClassAccess = Some searchRecordRemove"
| "searchRecordPlanFor searchChangeDeletion WorkClassCleanup = Some searchRecordPut"
| "searchRecordPlanFor searchChangeDeletion WorkClassCopy = Some searchRecordRemove"
| "searchRecordPlanFor searchChangeExclusion WorkClassLive = Some searchRecordRemove"
| "searchRecordPlanFor searchChangeExclusion WorkClassAccess = Some searchRecordRemove"
| "searchRecordPlanFor searchChangeExclusion WorkClassCleanup = Some searchRecordPut"
| "searchRecordPlanFor searchChangeExclusion WorkClassCopy = Some searchRecordRemove"
| "searchRecordPlanFor searchChangeRepair WorkClassLive = Some searchRecordPut"
| "searchRecordPlanFor searchChangeRepair WorkClassAccess = Some searchRecordPut"
| "searchRecordPlanFor searchChangeRepair WorkClassCleanup = Some searchRecordRewrite"
| "searchRecordPlanFor searchChangeRepair WorkClassCopy = Some searchRecordRemove"
| "searchRecordPlanFor _ _ = None"

definition exclusionAdjustedChange ::
  "uuid \<Rightarrow> uuid \<Rightarrow> search_change \<Rightarrow> search_db \<Rightarrow> search_change \<times> search_db" where
  "exclusionAdjustedChange orgID nodeID change db =
     (if change = searchChangeDeletion
      then (change, db\<lparr>sd_exclusion := fmdrop (orgID, nodeID) (sd_exclusion db)\<rparr>)
      else if change \<noteq> searchChangeAccess then (change, db)
      else if fmlookup (sd_exclusion db) (orgID, nodeID) \<noteq> None then (searchChangeRepair, db)
      else (change, db))"

text \<open>A class without an entry has the zero plan, which acts on an existing record as a restart.\<close>

definition applySearchRecordPlan ::
  "lib \<Rightarrow> search_work \<Rightarrow> work_class \<Rightarrow> search_record_plan option \<Rightarrow> search_db \<Rightarrow> search_db result" where
  "applySearchRecordPlan lib current cls plan db =
     (let orgID = sw_org current; nodeID = sw_node current;
          drop_cursor = (\<lambda>db. db\<lparr>sd_cursor := fmdrop (cls, orgID, nodeID) (sd_cursor db)\<rparr>) in
      bindE (readSearchWork lib db cls orgID nodeID) (\<lambda>existing.
      if plan = Some searchRecordRemove then
        let db = (case existing of None \<Rightarrow> db | Some e \<Rightarrow> removeSearchWork lib cls e db);
            db = db\<lparr>sd_claim := fmdrop (work_key lib cls orgID nodeID) (sd_claim db)\<rparr> in
        Inr (clearPendingWrites cls orgID nodeID (drop_cursor db))
      else if existing = None \<and> plan \<noteq> Some searchRecordPut then Inr db
      else if plan = Some searchRecordRewrite then
        Inr (writeSearchWork lib cls
          (current\<lparr>sw_revision := sw_revision (the existing), sw_deleted := sw_deleted (the existing)\<rparr>)
          existing db)
      else Inr (writeSearchWork lib cls current existing (drop_cursor db))))"

definition scheduleSearchChange ::
  "lib \<Rightarrow> timestamp \<Rightarrow> uuid \<Rightarrow> uuid \<Rightarrow> search_change \<Rightarrow> search_db \<Rightarrow> (search_work \<times> search_db) result" where
  "scheduleSearchChange lib now orgID nodeID change db =
     (let (change, db) = exclusionAdjustedChange orgID nodeID change db in
      bindE (incrementSearchCounter (sd_generation db) (orgID, nodeID)) (\<lambda>(generation, counters).
      let db = db\<lparr>sd_generation := counters\<rparr> in
      bindE (readSearchCounter (sd_revision db) (orgID, nodeID)) (\<lambda>stored.
      let fresh = (change = searchChangeContent \<or> change = searchChangeExclusion \<or> change = searchChangeRepair);
          revision = (if fresh then generation else stored);
          db = (if fresh
            then db\<lparr>sd_revision := writeSearchCounter (orgID, nodeID) revision (sd_revision db)\<rparr> else db);
          current = \<lparr>sw_org = orgID, sw_node = nodeID, sw_generation = generation, sw_revision = revision,
            sw_deleted = (change = searchChangeDeletion), sw_enqueued_at = now\<rparr> in
      bindE (foldE (\<lambda>cls. applySearchRecordPlan lib current cls (searchRecordPlanFor change cls))
        searchNodeClasses db) (\<lambda>db.
      bindE (if change = searchChangeAccess \<or> change = searchChangeRepair
             then recordRolloutAffected orgID nodeID db else Inr db) (\<lambda>db.
      bindE (if change = searchChangeDeletion then Inr db
             else initializeSearchAccess orgID nodeID db) (\<lambda>db. Inr (current, db)))))))"

text \<open>
  Scheduling for the endpoints of changed relationships. \<open>resolved\<close> says whether the resolution
  record of a node exists in the transaction; the loop keeps the scheduled nodes and the authorities
  it has recorded.
\<close>

definition scheduleExistingSearchChange ::
  "lib \<Rightarrow> timestamp \<Rightarrow> (uuid \<Rightarrow> bool) \<Rightarrow> uuid \<Rightarrow> uuid \<Rightarrow> search_change \<Rightarrow> search_db \<Rightarrow> search_db result" where
  "scheduleExistingSearchChange lib now resolved orgID nodeID change db =
     (if \<not> resolved nodeID then Inr db
      else bindE (scheduleSearchChange lib now orgID nodeID change db) (\<lambda>(_, db). Inr db))"

type_synonym related_state = "(uuid \<times> uuid) list \<times> uuid list \<times> search_db"

definition schedule_endpoint ::
  "lib \<Rightarrow> timestamp \<Rightarrow> (uuid \<Rightarrow> bool) \<Rightarrow> uuid \<Rightarrow> uuid \<Rightarrow> related_state \<Rightarrow> related_state result" where
  "schedule_endpoint lib now resolved orgID nodeID = (\<lambda>(scheduled, authorities, db).
     if (orgID, nodeID) \<in> set scheduled \<or> nodeID = uuid_nil then Inr (scheduled, authorities, db)
     else bindE (scheduleExistingSearchChange lib now resolved orgID nodeID searchChangeAccess db) (\<lambda>db.
       Inr ((orgID, nodeID) # scheduled, authorities, db)))"

definition schedule_relationship ::
  "lib \<Rightarrow> timestamp \<Rightarrow> (uuid \<Rightarrow> bool) \<Rightarrow> relationship \<Rightarrow> related_state \<Rightarrow> related_state result" where
  "schedule_relationship lib now resolved r = (\<lambda>(scheduled, authorities, db).
     let (authorities, db) =
       (if rel_org r \<in> set authorities then (authorities, db)
        else (rel_org r # authorities, addPermissionEvent (rel_org r) db)) in
     foldE (schedule_endpoint lib now resolved (rel_org r)) [rel_source r, rel_target r]
       (scheduled, authorities, db))"

definition scheduleRelatedSearchWork ::
  "lib \<Rightarrow> timestamp \<Rightarrow> (uuid \<Rightarrow> bool) \<Rightarrow> relationship_changes list \<Rightarrow> search_db \<Rightarrow> search_db result" where
  "scheduleRelatedSearchWork lib now resolved changes db =
     bindE (foldE (schedule_relationship lib now resolved)
       (concat (map (\<lambda>c. rels_add c @ rels_remove c) changes)) ([], [], db)) (\<lambda>(_, _, db). Inr db)"

definition scheduleDeletedFanout :: "lib \<Rightarrow> search_work \<Rightarrow> uuid list \<Rightarrow> search_db \<Rightarrow> search_db result" where
  "scheduleDeletedFanout lib deletion counterparts db =
     (let recorded = filter (\<lambda>c. c \<noteq> sw_node deletion \<and> c \<noteq> uuid_nil) counterparts;
          orgID = sw_org deletion; nodeID = sw_node deletion;
          db = db\<lparr>sd_fanout := fold (\<lambda>c. finsert (orgID, nodeID, c)) recorded (sd_fanout db)\<rparr> in
      if recorded = [] then Inr db
      else
        let db = writeSearchWork lib WorkClassAccess deletion None (addPermissionEvent orgID db) in
        bindE (recordRolloutAffected orgID nodeID db) (\<lambda>db.
        Inr (db\<lparr>sd_cursor := fmupd (WorkClassAccess, orgID, nodeID)
          (Some \<lparr>pr_revision = sw_revision deletion, pr_generation = sw_generation deletion,
             pr_projection = [], pr_cursor = [], pr_ordinal = 0, pr_phase = PhaseDependents\<rparr>)
          (sd_cursor db)\<rparr>)))"

section \<open>Consistency of work records and age entries\<close>

text \<open>
  The age family is the index of the work family: one entry per pending record, at its enqueue time.
  A record fits a key that is its own.
\<close>

definition work_lookup :: "search_db \<Rightarrow> work_class \<times> nat \<times> uuid \<times> uuid \<Rightarrow> search_work option" where
  "work_lookup db k = (case fmlookup (sd_work db) k of Some (Some r) \<Rightarrow> Some r | _ \<Rightarrow> None)"

definition age_set :: "search_db \<Rightarrow> (work_class \<times> nat \<times> int \<times> uuid \<times> uuid) set" where
  "age_set db = fset (sd_age db)"

fun work_entry ::
  "work_class \<times> nat \<times> uuid \<times> uuid \<Rightarrow> search_work \<Rightarrow> work_class \<times> nat \<times> int \<times> uuid \<times> uuid" where
  "work_entry (cls, bucket, orgID, nodeID) r = (cls, bucket, unix_nano (sw_enqueued_at r), orgID, nodeID)"

definition work_fits :: "lib \<Rightarrow> work_class \<times> nat \<times> uuid \<times> uuid \<Rightarrow> search_work \<Rightarrow> bool" where
  "work_fits lib k r \<longleftrightarrow> k = work_key lib (fst k) (sw_org r) (sw_node r)"

definition put_work :: "lib \<Rightarrow> work_class \<times> nat \<times> uuid \<times> uuid \<Rightarrow> search_work \<Rightarrow> search_db \<Rightarrow> search_db" where
  "put_work lib k r db = writeSearchWork lib (fst k) r (work_lookup db k) db"

definition del_work :: "lib \<Rightarrow> work_class \<times> nat \<times> uuid \<times> uuid \<Rightarrow> search_db \<Rightarrow> search_db" where
  "del_work lib k db = (case work_lookup db k of
     Some r \<Rightarrow> removeSearchWork lib (fst k) r db
   | None \<Rightarrow> db\<lparr>sd_work := fmdrop k (sd_work db)\<rparr>)"

lemma work_fits_key [simp]: "work_fits lib (work_key lib cls o' n) r \<longleftrightarrow> sw_org r = o' \<and> sw_node r = n"
  by (auto simp: work_fits_def work_key_def)

lemma work_fits_entry: "work_fits lib k r \<Longrightarrow> work_entry k r = age_key lib (fst k) r"
  by (cases k) (auto simp: work_fits_def work_key_def age_key_def)

lemma work_lookup_fmupd [simp]:
  "work_lookup (db\<lparr>sd_work := fmupd k (Some r) (sd_work db)\<rparr>) = (work_lookup db)(k \<mapsto> r)"
  by (rule ext) (simp add: work_lookup_def)

lemma work_lookup_fmdrop [simp]:
  "work_lookup (db\<lparr>sd_work := fmdrop k (sd_work db)\<rparr>) = (work_lookup db)(k := None)"
  by (rule ext) (simp add: work_lookup_def)

lemma work_lookup_cong: "sd_work db' = sd_work db \<Longrightarrow> work_lookup db' = work_lookup db"
  by (rule ext) (simp add: work_lookup_def)

lemma put_work_law:
  assumes "work_fits lib k r" "index_consistent work_lookup age_set work_entry (work_fits lib) db"
  shows "\<exists>r'. work_fits lib k r' \<and> work_lookup (put_work lib k r db) = (work_lookup db)(k \<mapsto> r') \<and>
    age_set (put_work lib k r db) =
      insert (work_entry k r') (age_set db - work_entry k ` set_option (work_lookup db k))"
proof -
  obtain cls b o' n where k: "k = (cls, b, o', n)" by (cases k)
  have key: "work_key lib cls (sw_org r) (sw_node r) = k" "b = searchBucket lib (sw_org r) (sw_node r)"
    "sw_org r = o'" "sw_node r = n"
    using assms(1) by (auto simp: k work_fits_def work_key_def)
  show ?thesis
  proof (cases "work_lookup db k")
    case None
    have "work_lookup (put_work lib k r db) = (work_lookup db)(k \<mapsto> r)"
      using None key(1) by (intro ext) (simp add: put_work_def writeSearchWork_def k Let_def, simp add: work_lookup_def)
    moreover have "age_set (put_work lib k r db) = insert (work_entry k r) (age_set db)"
      using None work_fits_entry [OF assms(1)] by (simp add: put_work_def writeSearchWork_def age_set_def k)
    ultimately show ?thesis using None assms(1) by auto
  next
    case (Some p)
    let ?r = "r\<lparr>sw_enqueued_at := earliestSearchTime (sw_enqueued_at p) (sw_enqueued_at r)\<rparr>"
    have fits: "work_fits lib k ?r" using assms(1) by (simp add: work_fits_def)
    have p: "sw_org p = o'" "sw_node p = n"
      using assms(2) Some by (auto simp: index_consistent_def work_fits_def work_key_def k)
    have "work_lookup (put_work lib k r db) = (work_lookup db)(k \<mapsto> ?r)"
      using Some key(1) by (intro ext) (simp add: put_work_def writeSearchWork_def k Let_def, simp add: work_lookup_def)
    moreover have "age_set (put_work lib k r db) = insert (work_entry k ?r) (age_set db - {work_entry k p})"
      using Some work_fits_entry [OF fits] key p
      by (simp add: put_work_def writeSearchWork_def age_set_def k Let_def)
    ultimately show ?thesis using Some fits by auto
  qed
qed

lemma del_work_law:
  assumes "index_consistent work_lookup age_set work_entry (work_fits lib) db"
  shows "work_lookup (del_work lib k db) = (work_lookup db)(k := None) \<and>
    age_set (del_work lib k db) = age_set db - work_entry k ` set_option (work_lookup db k)"
proof (cases "work_lookup db k")
  case None
  then show ?thesis by (simp add: del_work_def age_set_def)
next
  case (Some r)
  have fits: "work_fits lib k r" using assms Some unfolding index_consistent_def by blast
  then have "work_key lib (fst k) (sw_org r) (sw_node r) = k" by (simp add: work_fits_def)
  then show ?thesis
    using Some work_fits_entry [OF fits]
    by (auto simp: del_work_def removeSearchWork_def age_set_def work_lookup_def)
qed

interpretation sw: mirrored_index work_lookup age_set work_entry "work_fits lib" "put_work lib" "del_work lib"
  for lib
proof unfold_locales
  fix k v k' v' assume "work_entry k v = work_entry k' v'"
  then show "k = k'" by (cases k; cases k') simp
qed (use put_work_law del_work_law in blast)+

text \<open>
  The invariant of the search state: every work record decodes and is stored under its own key, the
  age entries mirror the records, and the pending record of a node class has the current generation
  of its node, which is the last value of the node's counter.
\<close>

definition work_readable :: "search_db \<Rightarrow> bool" where
  "work_readable db \<longleftrightarrow> (\<forall>k. fmlookup (sd_work db) k \<noteq> Some None)"

definition work_consistent :: "lib \<Rightarrow> search_db \<Rightarrow> bool" where
  "work_consistent lib db \<longleftrightarrow>
     work_readable db \<and> index_consistent work_lookup age_set work_entry (work_fits lib) db"

definition pending_work :: "lib \<Rightarrow> search_db \<Rightarrow> work_class \<Rightarrow> uuid \<Rightarrow> uuid \<Rightarrow> search_work option" where
  "pending_work lib db cls orgID nodeID = work_lookup db (work_key lib cls orgID nodeID)"

definition generations_current :: "lib \<Rightarrow> search_db \<Rightarrow> bool" where
  "generations_current lib db \<longleftrightarrow>
     (\<forall>cls o' n r. cls \<in> set searchNodeClasses \<longrightarrow> pending_work lib db cls o' n = Some r \<longrightarrow>
        readSearchCounter (sd_generation db) (o', n) = Inr (sw_generation r))"

definition search_ok :: "lib \<Rightarrow> search_db \<Rightarrow> bool" where
  "search_ok lib db \<longleftrightarrow> work_consistent lib db \<and> generations_current lib db"

lemma work_readableD: "work_readable db \<Longrightarrow> fmlookup (sd_work db) k \<noteq> Some None"
  unfolding work_readable_def by blast

lemma work_readableI: "(\<And>k. fmlookup (sd_work db) k \<noteq> Some None) \<Longrightarrow> work_readable db"
  unfolding work_readable_def by blast

lemma work_key_inject [simp]:
  "work_key lib c o1 n1 = work_key lib d o2 n2 \<longleftrightarrow> c = d \<and> o1 = o2 \<and> n1 = n2"
  by (auto simp: work_key_def)

lemma fst_work_key [simp]: "fst (work_key lib c o' n) = c"
  by (simp add: work_key_def)

lemma readSearchWork_ok:
  "work_readable db \<Longrightarrow> readSearchWork lib db cls o' n = Inr (pending_work lib db cls o' n)"
  using work_readableD [of db "work_key lib cls o' n"]
  by (simp add: readSearchWork_def readSearchRecord_def work_lookup_def pending_work_def split: option.splits)

lemma work_consistent_frame:
  assumes "sd_work db' = sd_work db" "sd_age db' = sd_age db"
  shows "work_consistent lib db' = work_consistent lib db"
proof -
  have "work_lookup db' = work_lookup db" "age_set db' = age_set db"
    using work_lookup_cong [OF assms(1)] assms(2) by (simp_all add: age_set_def)
  then show ?thesis
    unfolding work_consistent_def work_readable_def index_consistent_def by (simp only: assms(1))
qed

lemma put_work_readable: "work_readable db \<Longrightarrow> work_readable (put_work lib k r db)"
  by (rule work_readableI) (simp add: put_work_def writeSearchWork_def Let_def work_readableD)

lemma del_work_readable: "work_readable db \<Longrightarrow> work_readable (del_work lib k db)"
  by (rule work_readableI) (cases "work_lookup db k"; simp add: del_work_def removeSearchWork_def work_readableD)

lemma put_work_consistent:
  assumes "work_consistent lib db" "sw_org r = o'" "sw_node r = n"
  shows "work_consistent lib (put_work lib (work_key lib cls o' n) r db)"
  using assms put_work_readable sw.consistent_put [of lib db "work_key lib cls o' n" r]
  unfolding work_consistent_def work_fits_key by blast

lemma del_work_consistent:
  assumes "work_consistent lib db" shows "work_consistent lib (del_work lib k db)"
  using assms del_work_readable sw.consistent_del unfolding work_consistent_def by blast

section \<open>The effect of scheduling\<close>

text \<open>The pending record of one class after its plan, from the record it had.\<close>

definition planned_work :: "search_record_plan option \<Rightarrow> search_work \<Rightarrow> search_work option \<Rightarrow> search_work option" where
  "planned_work plan current existing =
     (if plan = Some searchRecordRemove \<or> existing = None \<and> plan \<noteq> Some searchRecordPut then None
      else let r = (if plan = Some searchRecordRewrite
             then current\<lparr>sw_revision := sw_revision (the existing), sw_deleted := sw_deleted (the existing)\<rparr>
             else current) in
        Some (case existing of None \<Rightarrow> r | Some e \<Rightarrow>
          r\<lparr>sw_enqueued_at := earliestSearchTime (sw_enqueued_at e) (sw_enqueued_at r)\<rparr>))"

text \<open>The families other than the work records and what belongs to their attempts.\<close>

definition same_but_work :: "search_db \<Rightarrow> search_db \<Rightarrow> bool" where
  "same_but_work db db' \<longleftrightarrow>
     sd_generation db' = sd_generation db \<and> sd_revision db' = sd_revision db \<and>
     sd_issued db' = sd_issued db \<and> sd_access db' = sd_access db \<and> sd_exclusion db' = sd_exclusion db \<and>
     sd_rollout db' = sd_rollout db \<and> sd_collect db' = sd_collect db \<and> sd_affected db' = sd_affected db \<and>
     sd_affected_count db' = sd_affected_count db \<and> sd_permission db' = sd_permission db \<and>
     sd_fanout db' = sd_fanout db"

lemma same_but_work_refl [simp]: "same_but_work db db"
  by (simp add: same_but_work_def)

lemma same_but_work_trans: "same_but_work a b \<Longrightarrow> same_but_work b c \<Longrightarrow> same_but_work a c"
  by (simp add: same_but_work_def)

lemma writeSearchWork_put:
  "work_lookup db (work_key lib cls (sw_org r) (sw_node r)) = previous \<Longrightarrow>
   writeSearchWork lib cls r previous db = put_work lib (work_key lib cls (sw_org r) (sw_node r)) r db"
  by (simp add: put_work_def)

lemma put_work_lookup:
  "work_lookup (put_work lib (work_key lib cls (sw_org r) (sw_node r)) r db) =
     (work_lookup db)(work_key lib cls (sw_org r) (sw_node r) \<mapsto>
       (case pending_work lib db cls (sw_org r) (sw_node r) of None \<Rightarrow> r | Some e \<Rightarrow>
          r\<lparr>sw_enqueued_at := earliestSearchTime (sw_enqueued_at e) (sw_enqueued_at r)\<rparr>))"
  by (cases "work_lookup db (work_key lib cls (sw_org r) (sw_node r))")
    (auto simp: put_work_def writeSearchWork_def Let_def pending_work_def work_lookup_def)

lemma same_but_work_put [simp]: "same_but_work db (put_work lib k r db)"
  by (simp add: same_but_work_def put_work_def writeSearchWork_def Let_def)

lemma same_but_work_del [simp]: "same_but_work db (del_work lib k db)"
  by (simp add: same_but_work_def del_work_def removeSearchWork_def split: option.splits)

definition plan_effect ::
  "lib \<Rightarrow> search_work \<Rightarrow> work_class \<Rightarrow> search_record_plan option \<Rightarrow> search_db \<Rightarrow> search_db \<Rightarrow> bool" where
  "plan_effect lib current cls plan db db' \<longleftrightarrow>
     work_consistent lib db' \<and> same_but_work db db' \<and>
     work_lookup db' = (work_lookup db)(work_key lib cls (sw_org current) (sw_node current) :=
       planned_work plan current (pending_work lib db cls (sw_org current) (sw_node current)))"

lemma plan_effect_frame:
  assumes "plan_effect lib current cls plan db db'"
    "sd_work db'' = sd_work db'" "sd_age db'' = sd_age db'" "same_but_work db' db''"
  shows "plan_effect lib current cls plan db db''"
  using assms(1) work_consistent_frame [OF assms(2,3)] work_lookup_cong [OF assms(2)]
    same_but_work_trans [OF _ assms(4)]
  unfolding plan_effect_def by metis

lemma plan_effect_del:
  assumes "work_consistent lib db"
  shows "plan_effect lib current cls (Some searchRecordRemove) db
    (del_work lib (work_key lib cls (sw_org current) (sw_node current)) db)"
proof -
  have "work_lookup (del_work lib k db) = (work_lookup db)(k := None)" for k
    using del_work_law assms unfolding work_consistent_def by blast
  then show ?thesis
    using del_work_consistent [OF assms] by (simp add: plan_effect_def planned_work_def)
qed

lemma plan_effect_put:
  assumes "work_consistent lib db" "sw_org r = sw_org current" "sw_node r = sw_node current"
    "planned_work plan current (pending_work lib db cls (sw_org current) (sw_node current)) =
       Some (case pending_work lib db cls (sw_org current) (sw_node current) of None \<Rightarrow> r | Some e \<Rightarrow>
          r\<lparr>sw_enqueued_at := earliestSearchTime (sw_enqueued_at e) (sw_enqueued_at r)\<rparr>)"
  shows "plan_effect lib current cls plan db
    (put_work lib (work_key lib cls (sw_org current) (sw_node current)) r db)"
  using put_work_consistent [where r = r and cls = cls, OF assms(1) refl refl] put_work_lookup [of lib cls r db] assms(2-)
  by (simp add: plan_effect_def)

lemma plan_remove_effect:
  assumes "work_consistent lib db"
  shows "\<exists>db'. applySearchRecordPlan lib current cls (Some searchRecordRemove) db = Inr db' \<and>
    plan_effect lib current cls (Some searchRecordRemove) db db'"
proof -
  let ?o = "sw_org current" and ?n = "sw_node current"
  let ?k = "work_key lib cls ?o ?n"
  let ?d = "del_work lib ?k db"
  let ?r = "clearPendingWrites cls ?o ?n (?d\<lparr>sd_claim := fmdrop ?k (sd_claim ?d),
    sd_cursor := fmdrop (cls, ?o, ?n) (sd_cursor ?d)\<rparr>)"
  have readable: "work_readable db" using assms by (simp add: work_consistent_def)
  have "fmdrop ?k (sd_work db) = sd_work db" if "work_lookup db ?k = None"
    using that work_readableD [OF readable, of ?k]
    by (intro fmap_ext) (auto simp: work_lookup_def split: option.splits)
  then have "?d = (case pending_work lib db cls ?o ?n of None \<Rightarrow> db | Some e \<Rightarrow> removeSearchWork lib cls e db)"
    by (cases "work_lookup db ?k") (simp_all add: del_work_def pending_work_def)
  then have "applySearchRecordPlan lib current cls (Some searchRecordRemove) db = Inr ?r"
    using readSearchWork_ok [OF readable, of lib cls ?o ?n] by (simp add: applySearchRecordPlan_def Let_def)
  moreover have "plan_effect lib current cls (Some searchRecordRemove) db ?r"
    by (rule plan_effect_frame [OF plan_effect_del [OF assms]])
      (simp_all add: clearPendingWrites_def same_but_work_def)
  ultimately show ?thesis by blast
qed

lemma plan_rewrite_effect:
  assumes "work_consistent lib db" "pending_work lib db cls (sw_org current) (sw_node current) = Some e"
  shows "\<exists>db'. applySearchRecordPlan lib current cls (Some searchRecordRewrite) db = Inr db' \<and>
    plan_effect lib current cls (Some searchRecordRewrite) db db'"
proof -
  let ?k = "work_key lib cls (sw_org current) (sw_node current)"
  let ?r = "current\<lparr>sw_revision := sw_revision e, sw_deleted := sw_deleted e\<rparr>"
  have "plan_effect lib current cls (Some searchRecordRewrite) db (put_work lib ?k ?r db)"
    by (rule plan_effect_put [OF assms(1)]) (simp_all add: planned_work_def assms(2))
  moreover have "applySearchRecordPlan lib current cls (Some searchRecordRewrite) db = Inr (put_work lib ?k ?r db)"
    using assms readSearchWork_ok [of db lib cls]
    by (simp add: applySearchRecordPlan_def put_work_def pending_work_def work_consistent_def)
  ultimately show ?thesis by blast
qed

lemma plan_restart_effect:
  assumes "work_consistent lib db" "plan \<noteq> Some searchRecordRemove" "plan \<noteq> Some searchRecordRewrite"
    and e: "pending_work lib db cls (sw_org current) (sw_node current) = existing"
      "existing \<noteq> None \<or> plan = Some searchRecordPut"
  shows "\<exists>db'. applySearchRecordPlan lib current cls plan db = Inr db' \<and> plan_effect lib current cls plan db db'"
proof -
  let ?k = "work_key lib cls (sw_org current) (sw_node current)"
  let ?d = "db\<lparr>sd_cursor := fmdrop (cls, sw_org current, sw_node current) (sd_cursor db)\<rparr>"
  have d: "work_consistent lib ?d" "work_lookup ?d = work_lookup db"
    using assms(1) work_consistent_frame [of ?d db lib] work_lookup_cong [of ?d db] by simp_all
  have "plan_effect lib current cls plan ?d (put_work lib ?k current ?d)"
    by (rule plan_effect_put [OF d(1)]) (use assms(2,3) e in \<open>auto simp: planned_work_def pending_work_def d\<close>)
  moreover have "same_but_work db (put_work lib ?k current ?d)"
    by (rule same_but_work_trans [of _ ?d]) (simp_all add: same_but_work_def [of db])
  ultimately have "plan_effect lib current cls plan db (put_work lib ?k current ?d)"
    by (simp add: plan_effect_def d pending_work_def)
  moreover have "applySearchRecordPlan lib current cls plan db = Inr (put_work lib ?k current ?d)"
    using assms readSearchWork_ok [of db lib cls]
    by (auto simp: applySearchRecordPlan_def put_work_def pending_work_def work_consistent_def d Let_def)
  ultimately show ?thesis by blast
qed

lemma applySearchRecordPlan_effect:
  assumes "work_consistent lib db"
  shows "\<exists>db'. applySearchRecordPlan lib current cls plan db = Inr db' \<and> plan_effect lib current cls plan db db'"
proof -
  let ?e = "pending_work lib db cls (sw_org current) (sw_node current)"
  consider (remove) "plan = Some searchRecordRemove"
    | (skip) "plan \<noteq> Some searchRecordRemove" "?e = None" "plan \<noteq> Some searchRecordPut"
    | (rewrite) e where "plan = Some searchRecordRewrite" "?e = Some e"
    | (restart) "plan \<noteq> Some searchRecordRemove" "plan \<noteq> Some searchRecordRewrite"
        "?e \<noteq> None \<or> plan = Some searchRecordPut"
    by (cases ?e) auto
  then show ?thesis
  proof cases
    case remove
    then show ?thesis using plan_remove_effect [OF assms] by simp
  next
    case skip
    then have "applySearchRecordPlan lib current cls plan db = Inr db"
      using assms readSearchWork_ok [of db lib cls] by (simp add: applySearchRecordPlan_def work_consistent_def)
    then show ?thesis
      using skip assms by (simp add: plan_effect_def planned_work_def pending_work_def fun_upd_idem)
  next
    case rewrite
    then show ?thesis using plan_rewrite_effect [OF assms] by simp
  next
    case restart
    then show ?thesis using plan_restart_effect [OF assms _ _ refl] by simp
  qed
qed

text \<open>The loop over the node classes: each class follows its own plan, and nothing else changes.\<close>

lemma plan_loop_effect:
  assumes "work_consistent lib db" "distinct classes"
  shows "\<exists>db'. foldE (\<lambda>cls. applySearchRecordPlan lib current cls (plan cls)) classes db = Inr db' \<and>
    work_consistent lib db' \<and> same_but_work db db' \<and>
    (\<forall>cls o' n. pending_work lib db' cls o' n =
      (if cls \<in> set classes \<and> o' = sw_org current \<and> n = sw_node current
       then planned_work (plan cls) current (pending_work lib db cls o' n) else pending_work lib db cls o' n))"
  using assms
proof (induction classes arbitrary: db)
  case Nil
  then show ?case by (auto simp: foldE.simps)
next
  case (Cons c classes)
  obtain d where d: "applySearchRecordPlan lib current c (plan c) db = Inr d"
    "plan_effect lib current c (plan c) db d"
    using applySearchRecordPlan_effect [OF Cons.prems(1)] by blast
  have pd: "pending_work lib d cls o' n = (if cls = c \<and> o' = sw_org current \<and> n = sw_node current
      then planned_work (plan c) current (pending_work lib db c o' n) else pending_work lib db cls o' n)" for cls o' n
    using d(2) by (auto simp: plan_effect_def pending_work_def)
  have "work_consistent lib d" "same_but_work db d" using d(2) by (simp_all add: plan_effect_def)
  then obtain e where "foldE (\<lambda>cls. applySearchRecordPlan lib current cls (plan cls)) classes d = Inr e"
    "work_consistent lib e" "same_but_work db e"
    "\<And>cls o' n. pending_work lib e cls o' n =
      (if cls \<in> set classes \<and> o' = sw_org current \<and> n = sw_node current
       then planned_work (plan cls) current (pending_work lib d cls o' n) else pending_work lib d cls o' n)"
    using Cons.IH [of d] Cons.prems(2) same_but_work_trans [of db d] by auto
  then show ?case using d(1) Cons.prems(2) by (auto simp: pd)
qed

lemma distinct_searchNodeClasses: "distinct searchNodeClasses"
  by (simp add: searchNodeClasses_def)

text \<open>The record a change writes, and the change it counts as once an exclusion is taken into account.\<close>

definition adjusted_change :: "uuid \<Rightarrow> uuid \<Rightarrow> search_change \<Rightarrow> search_db \<Rightarrow> search_change" where
  "adjusted_change orgID nodeID change db = fst (exclusionAdjustedChange orgID nodeID change db)"

definition schedule_effect ::
  "lib \<Rightarrow> uuid \<Rightarrow> uuid \<Rightarrow> search_change \<Rightarrow> search_work \<Rightarrow> search_db \<Rightarrow> search_db \<Rightarrow> bool" where
  "schedule_effect lib orgID nodeID change current db db' \<longleftrightarrow>
     sw_org current = orgID \<and> sw_node current = nodeID \<and>
     readSearchCounter (sd_generation db) (orgID, nodeID) = Inr (sw_generation current - 1) \<and>
     sd_generation db' = fmupd (orgID, nodeID) (Some (sw_generation current)) (sd_generation db) \<and>
     0 < sw_generation current \<and> sw_generation current \<le> max_int64 \<and>
     (\<forall>cls o' n. pending_work lib db' cls o' n =
       (if cls \<in> set searchNodeClasses \<and> o' = orgID \<and> n = nodeID
        then planned_work (searchRecordPlanFor change cls) current (pending_work lib db cls o' n)
        else pending_work lib db cls o' n))"

lemma pending_work_cong: "sd_work db' = sd_work db \<Longrightarrow> pending_work lib db' = pending_work lib db"
  using work_lookup_cong [of db' db] by (intro ext) (simp add: pending_work_def)

lemma recordRolloutAffected_frame:
  assumes "recordRolloutAffected orgID nodeID db = Inr db'"
  shows "sd_work db' = sd_work db" "sd_age db' = sd_age db" "sd_generation db' = sd_generation db"
  using assms by (auto simp: recordRolloutAffected_def err_simps split: option.splits)

lemma initializeSearchAccess_frame:
  assumes "initializeSearchAccess orgID nodeID db = Inr db'"
  shows "sd_work db' = sd_work db" "sd_age db' = sd_age db" "sd_generation db' = sd_generation db"
  using assms by (auto simp: initializeSearchAccess_def err_simps split: if_splits)

lemma exclusionAdjustedChange_frame:
  assumes "exclusionAdjustedChange orgID nodeID change db = (change', db')"
  shows "sd_work db' = sd_work db" "sd_age db' = sd_age db" "sd_generation db' = sd_generation db"
    "sd_revision db' = sd_revision db"
  using assms by (auto simp: exclusionAdjustedChange_def split: if_splits)

lemma incrementSearchCounter_Inr:
  assumes "incrementSearchCounter m k = Inr (n, m')"
  shows "readSearchCounter m k = Inr (n - 1)" "0 < n" "m' = fmupd k (Some n) m" "n \<le> max_int64"
proof -
  obtain c where c: "readSearchCounter m k = Inr c" "c \<noteq> max_int64" "n = c + 1" "m' = fmupd k (Some n) m"
    using assms by (auto simp: incrementSearchCounter_def writeSearchCounter_def err_simps split: if_splits)
  moreover have "0 \<le> c \<and> c \<le> max_int64"
    using c(1) by (auto simp: readSearchCounter_def unpackCounter_def max_int64_def split: option.splits if_splits)
  ultimately show "readSearchCounter m k = Inr (n - 1)" "0 < n" "m' = fmupd k (Some n) m" "n \<le> max_int64"
    by auto
qed

lemma scheduleSearchChange_spec:
  assumes run: "scheduleSearchChange lib now orgID nodeID change db = Inr (current, db')"
    and ok: "work_consistent lib db"
  shows "schedule_effect lib orgID nodeID (adjusted_change orgID nodeID change db) current db db'"
    and "work_consistent lib db'"
proof -
  obtain c db1 where adj: "exclusionAdjustedChange orgID nodeID change db = (c, db1)" by fastforce
  note frame1 = exclusionAdjustedChange_frame [OF adj]
  from run [unfolded scheduleSearchChange_def adj Let_def prod.case]
  obtain generation counters stored db2 db3 where
    inc: "incrementSearchCounter (sd_generation db1) (orgID, nodeID) = Inr (generation, counters)"
    and cur: "sw_org current = orgID" "sw_node current = nodeID" "sw_generation current = generation"
    and loop: "foldE (\<lambda>cls. applySearchRecordPlan lib current cls (searchRecordPlanFor c cls))
        searchNodeClasses (if c = searchChangeContent \<or> c = searchChangeExclusion \<or> c = searchChangeRepair
          then db1\<lparr>sd_generation := counters,
            sd_revision := writeSearchCounter (orgID, nodeID)
              (if c = searchChangeContent \<or> c = searchChangeExclusion \<or> c = searchChangeRepair
               then generation else stored) (sd_revision (db1\<lparr>sd_generation := counters\<rparr>))\<rparr>
          else db1\<lparr>sd_generation := counters\<rparr>) = Inr db2"
    and roll: "(if c = searchChangeAccess \<or> c = searchChangeRepair
             then recordRolloutAffected orgID nodeID db2 else Inr db2) = Inr db3"
    and init: "(if c = searchChangeDeletion then Inr db3 else initializeSearchAccess orgID nodeID db3) = Inr db'"
    by (auto simp only: err_simps split_paired_Ex prod.case search_work.simps prod.inject sum.inject)
  let ?s = "if c = searchChangeContent \<or> c = searchChangeExclusion \<or> c = searchChangeRepair
          then db1\<lparr>sd_generation := counters,
            sd_revision := writeSearchCounter (orgID, nodeID)
              (if c = searchChangeContent \<or> c = searchChangeExclusion \<or> c = searchChangeRepair
               then generation else stored) (sd_revision (db1\<lparr>sd_generation := counters\<rparr>))\<rparr>
          else db1\<lparr>sd_generation := counters\<rparr>"
  have s: "sd_work ?s = sd_work db" "sd_age ?s = sd_age db" "sd_generation ?s = counters"
    using frame1 by simp_all
  have start: "work_consistent lib ?s" using ok work_consistent_frame [OF s(1,2)] by simp
  obtain d where d: "foldE (\<lambda>cls. applySearchRecordPlan lib current cls (searchRecordPlanFor c cls))
      searchNodeClasses ?s = Inr d" "work_consistent lib d" "same_but_work ?s d"
    "\<forall>cls o' n. pending_work lib d cls o' n =
      (if cls \<in> set searchNodeClasses \<and> o' = sw_org current \<and> n = sw_node current
       then planned_work (searchRecordPlanFor c cls) current (pending_work lib ?s cls o' n)
       else pending_work lib ?s cls o' n)"
    using plan_loop_effect [OF start distinct_searchNodeClasses, of current "searchRecordPlanFor c"] by blast
  have "d = db2" using d(1) loop by (simp del: foldE.simps)
  have f3: "sd_work db3 = sd_work db2 \<and> sd_age db3 = sd_age db2 \<and> sd_generation db3 = sd_generation db2"
    using roll recordRolloutAffected_frame [of orgID nodeID db2 db3] by (auto split: if_splits)
  have f4: "sd_work db' = sd_work db3 \<and> sd_age db' = sd_age db3 \<and> sd_generation db' = sd_generation db3"
    using init initializeSearchAccess_frame [of orgID nodeID db3 db'] by (auto split: if_splits)
  have fr: "sd_work db' = sd_work d" "sd_age db' = sd_age d" "sd_generation db' = counters"
    using f3 f4 \<open>d = db2\<close> d(3) s(3) by (simp_all add: same_but_work_def)
  show "work_consistent lib db'" using d(2) work_consistent_frame [OF fr(1,2)] by simp
  show "schedule_effect lib orgID nodeID (adjusted_change orgID nodeID change db) current db db'"
    using d(4) [unfolded pending_work_cong [OF s(1)]] incrementSearchCounter_Inr [OF inc] cur fr frame1
    unfolding schedule_effect_def adjusted_change_def adj fst_conv pending_work_cong [OF fr(1)] by simp
qed

lemma planned_work_fields:
  assumes "planned_work plan current existing = Some r"
  shows "sw_generation r = sw_generation current"
  using assms by (auto simp: planned_work_def Let_def split: if_splits option.splits)

lemma schedule_effect_generations:
  assumes "schedule_effect lib orgID nodeID change current db db'" "generations_current lib db"
  shows "generations_current lib db'"
  unfolding generations_current_def
proof (intro allI impI)
  fix cls o' n r
  assume cls: "cls \<in> set searchNodeClasses" and r: "pending_work lib db' cls o' n = Some r"
  note eff = assms(1) [unfolded schedule_effect_def]
  show "readSearchCounter (sd_generation db') (o', n) = Inr (sw_generation r)"
  proof (cases "o' = orgID \<and> n = nodeID")
    case True
    then have "sw_generation r = sw_generation current"
      using eff cls r planned_work_fields by auto
    then show ?thesis using eff True by (simp add: readSearchCounter_def unpackCounter_def)
  next
    case False
    then have "pending_work lib db cls o' n = Some r" using eff r by auto
    then have "readSearchCounter (sd_generation db) (o', n) = Inr (sw_generation r)"
      using assms(2) cls unfolding generations_current_def by blast
    then show ?thesis using eff False by (auto simp: readSearchCounter_def)
  qed
qed

lemma scheduleSearchChange_ok:
  "scheduleSearchChange lib now orgID nodeID change db = Inr (current, db') \<Longrightarrow> search_ok lib db \<Longrightarrow> search_ok lib db'"
  using scheduleSearchChange_spec [of lib now orgID nodeID change db current db'] schedule_effect_generations
  unfolding search_ok_def by blast

lemma addPermissionEvent_ok: "search_ok lib (addPermissionEvent o' db) = search_ok lib db"
proof -
  let ?d = "addPermissionEvent o' db"
  have "sd_work ?d = sd_work db" "sd_age ?d = sd_age db" "sd_generation ?d = sd_generation db"
    by (simp_all add: addPermissionEvent_def)
  then show ?thesis
    using work_consistent_frame [of ?d db lib] pending_work_cong [of ?d db lib]
    by (simp add: search_ok_def generations_current_def)
qed

lemma schedule_endpoint_ok:
  assumes "schedule_endpoint lib now resolved orgID nodeID st = Inr st'" "search_ok lib (snd (snd st))"
  shows "search_ok lib (snd (snd st'))"
  using assms
  by (auto simp: schedule_endpoint_def scheduleExistingSearchChange_def err_simps split: prod.splits if_splits
    dest: scheduleSearchChange_ok)

lemma schedule_relationship_ok:
  assumes "schedule_relationship lib now resolved r st = Inr st'" "search_ok lib (snd (snd st))"
  shows "search_ok lib (snd (snd st'))"
proof -
  obtain sc au db where st: "st = (sc, au, db)" by (cases st)
  define st1 where "st1 = (sc, if rel_org r \<in> set au then (au, db)
    else (rel_org r # au, addPermissionEvent (rel_org r) db))"
  have "foldE (schedule_endpoint lib now resolved (rel_org r)) [rel_source r, rel_target r] st1 = Inr st'"
    using assms(1) by (auto simp: st st1_def schedule_relationship_def simp del: foldE.simps split: if_splits)
  moreover have "search_ok lib (snd (snd st1))"
    using assms(2) by (simp add: st st1_def addPermissionEvent_ok)
  ultimately show ?thesis
    by (rule foldE_invariant [where P = "\<lambda>s. search_ok lib (snd (snd s))"]) (rule schedule_endpoint_ok)
qed

lemma scheduleRelatedSearchWork_ok:
  assumes "scheduleRelatedSearchWork lib now resolved changes db = Inr db'" "search_ok lib db"
  shows "search_ok lib db'"
proof -
  obtain sc au where run: "foldE (schedule_relationship lib now resolved)
       (concat (map (\<lambda>c. rels_add c @ rels_remove c) changes)) ([], [], db) = Inr (sc, au, db')"
    using assms(1) by (auto simp: scheduleRelatedSearchWork_def err_simps split: prod.splits)
  have "search_ok lib (snd (snd (sc, au, db')))"
    by (rule foldE_invariant [OF run, where P = "\<lambda>s. search_ok lib (snd (snd s))"])
      (auto simp: assms(2) intro: schedule_relationship_ok)
  then show ?thesis by simp
qed

text \<open>
  The fan-out of a deletion rests on the deletion change before it: the access class of the node has
  no pending record then, and the deletion carries the generation just counted.
\<close>

lemma generations_current_put:
  assumes "generations_current lib db" "sd_generation db' = sd_generation db"
    "work_lookup db' = (work_lookup db)(work_key lib cls (sw_org r) (sw_node r) \<mapsto> r)"
    "readSearchCounter (sd_generation db) (sw_org r, sw_node r) = Inr (sw_generation r)"
  shows "generations_current lib db'"
  unfolding generations_current_def
proof (intro allI impI)
  fix c o' n w
  assume "c \<in> set searchNodeClasses" "pending_work lib db' c o' n = Some w"
  then show "readSearchCounter (sd_generation db') (o', n) = Inr (sw_generation w)"
    using assms unfolding generations_current_def
    by (cases "c = cls \<and> o' = sw_org r \<and> n = sw_node r") (auto simp: pending_work_def)
qed

lemma search_ok_frame:
  assumes "sd_work db' = sd_work db" "sd_age db' = sd_age db" "sd_generation db' = sd_generation db"
  shows "search_ok lib db' = search_ok lib db"
  using work_consistent_frame [OF assms(1,2)] pending_work_cong [OF assms(1)] assms(3)
  by (simp add: search_ok_def generations_current_def)

lemma scheduleDeletedFanout_ok:
  assumes "scheduleDeletedFanout lib deletion counterparts db = Inr db'" "search_ok lib db"
    and "pending_work lib db WorkClassAccess (sw_org deletion) (sw_node deletion) = None"
    and "readSearchCounter (sd_generation db) (sw_org deletion, sw_node deletion) = Inr (sw_generation deletion)"
  shows "search_ok lib db'"
proof -
  let ?rec = "filter (\<lambda>c. c \<noteq> sw_node deletion \<and> c \<noteq> uuid_nil) counterparts"
  let ?f = "db\<lparr>sd_fanout := fold (\<lambda>c. finsert (sw_org deletion, sw_node deletion, c)) ?rec (sd_fanout db)\<rparr>"
  let ?k = "work_key lib WorkClassAccess (sw_org deletion) (sw_node deletion)"
  let ?p = "addPermissionEvent (sw_org deletion) ?f"
  let ?w = "put_work lib ?k deletion ?p"
  have p: "search_ok lib ?p" "sd_work ?p = sd_work db" "sd_generation ?p = sd_generation db"
    using assms(2) search_ok_frame [of ?f db lib] by (simp_all add: addPermissionEvent_ok, simp_all add: addPermissionEvent_def)
  have none: "work_lookup ?p ?k = None"
    using assms(3) work_lookup_cong [OF p(2)] by (simp add: pending_work_def)
  have w: "writeSearchWork lib WorkClassAccess deletion None ?p = ?w"
    using none by (simp add: put_work_def)
  have "work_lookup ?w = (work_lookup ?p)(?k \<mapsto> deletion)" "sd_generation ?w = sd_generation ?p"
    using put_work_lookup [of lib WorkClassAccess deletion ?p] none same_but_work_put [of ?p lib ?k deletion]
    by (simp_all add: pending_work_def same_but_work_def)
  then have ok: "search_ok lib ?w"
    using p put_work_consistent [where r = deletion and cls = WorkClassAccess, OF _ refl refl] assms(4)
      generations_current_put [of lib ?p ?w WorkClassAccess deletion]
    by (simp add: search_ok_def)
  show ?thesis
  proof (cases "?rec = []")
    case True
    then have "db' = ?f" using assms(1) by (simp add: scheduleDeletedFanout_def Let_def)
    then show ?thesis using assms(2) search_ok_frame [of ?f db lib] by simp
  next
    case False
    then obtain d where "recordRolloutAffected (sw_org deletion) (sw_node deletion) ?w = Inr d"
      "sd_work db' = sd_work d" "sd_age db' = sd_age d" "sd_generation db' = sd_generation d"
      using assms(1) w by (auto simp: scheduleDeletedFanout_def Let_def err_simps)
    then show ?thesis
      using ok recordRolloutAffected_frame [of "sw_org deletion" "sw_node deletion" ?w d] search_ok_frame [of db' ?w lib] by simp
  qed
qed

lemma deletion_fanout_ok:
  assumes "search_ok lib db"
    and run: "scheduleSearchChange lib now orgID nodeID searchChangeDeletion db = Inr (deletion, db')"
    and fan: "scheduleDeletedFanout lib deletion counterparts db' = Inr db''"
  shows "search_ok lib db''"
proof -
  have eff: "schedule_effect lib orgID nodeID searchChangeDeletion deletion db db'"
    using scheduleSearchChange_spec(1) [OF run] assms(1)
    by (simp add: search_ok_def adjusted_change_def exclusionAdjustedChange_def)
  have "pending_work lib db' WorkClassAccess orgID nodeID = None"
    using eff by (simp add: schedule_effect_def planned_work_def searchNodeClasses_def)
  then show ?thesis
    using scheduleDeletedFanout_ok [OF fan scheduleSearchChange_ok [OF run assms(1)]] eff
    by (simp add: schedule_effect_def readSearchCounter_def unpackCounter_def)
qed

section \<open>When scheduling fails\<close>

definition readable :: "('k, 'a option) kv \<Rightarrow> 'k \<Rightarrow> bool" where
  "readable m k \<longleftrightarrow> fmlookup m k \<noteq> Some None"

definition counter_in :: "('k, int option) kv \<Rightarrow> 'k \<Rightarrow> int \<Rightarrow> bool" where
  "counter_in m k bound \<longleftrightarrow>
     (case fmlookup m k of None \<Rightarrow> True | Some None \<Rightarrow> False | Some (Some n) \<Rightarrow> 0 \<le> n \<and> n \<le> bound)"

text \<open>The stored values that a change of the node needs.\<close>

definition schedule_ready :: "uuid \<Rightarrow> uuid \<Rightarrow> search_change \<Rightarrow> search_db \<Rightarrow> bool" where
  "schedule_ready orgID nodeID change db \<longleftrightarrow>
     counter_in (sd_generation db) (orgID, nodeID) (max_int64 - 1) \<and>
     counter_in (sd_revision db) (orgID, nodeID) max_int64 \<and>
     (change = searchChangeAccess \<or> change = searchChangeRepair \<longrightarrow> counter_in (sd_collect db) orgID max_int64) \<and>
     (change \<noteq> searchChangeDeletion \<longrightarrow> readable (sd_access db) (orgID, nodeID) \<and>
       (fmlookup (sd_access db) (orgID, nodeID) = None \<longrightarrow> readable (sd_rollout db) orgID))"

lemma readSearchCounter_iff: "(\<exists>n. readSearchCounter m k = Inr n) \<longleftrightarrow> counter_in m k max_int64"
  by (auto simp: readSearchCounter_def unpackCounter_def counter_in_def split: option.splits)

lemma incrementSearchCounter_iff: "(\<exists>r. incrementSearchCounter m k = Inr r) \<longleftrightarrow> counter_in m k (max_int64 - 1)"
  by (auto simp: incrementSearchCounter_def readSearchCounter_def unpackCounter_def counter_in_def max_int64_def
    split: option.splits)

lemma recordRolloutAffected_iff:
  "(\<exists>r. recordRolloutAffected o' n db = Inr r) \<longleftrightarrow> counter_in (sd_collect db) o' max_int64"
  by (auto simp: recordRolloutAffected_def unpackCounter_def counter_in_def split: option.splits)

lemma initializeSearchAccess_iff:
  "(\<exists>r. initializeSearchAccess o' n db = Inr r) \<longleftrightarrow> readable (sd_access db) (o', n) \<and>
     (fmlookup (sd_access db) (o', n) = None \<longrightarrow> readable (sd_rollout db) o')"
  by (auto simp: initializeSearchAccess_def readRollout_def readSearchRecord_def readable_def split: option.splits)

lemma ex_bindE: "(\<exists>y. bindE m f = Inr y) \<longleftrightarrow> (\<exists>x. m = Inr x \<and> (\<exists>y. f x = Inr y))"
  by (cases m) auto

lemma recordRolloutAffected_access:
  "recordRolloutAffected o' n db = Inr db' \<Longrightarrow> sd_access db' = sd_access db \<and> sd_rollout db' = sd_rollout db"
  by (auto simp: recordRolloutAffected_def err_simps split: option.splits)

lemma schedule_tail_iff:
  "(\<exists>r. bindE (if c = searchChangeAccess \<or> c = searchChangeRepair
             then recordRolloutAffected o' n db else Inr db) (\<lambda>db.
      bindE (if c = searchChangeDeletion then Inr db
             else initializeSearchAccess o' n db) (\<lambda>db. Inr (current, db))) = Inr r) \<longleftrightarrow>
   (c = searchChangeAccess \<or> c = searchChangeRepair \<longrightarrow> counter_in (sd_collect db) o' max_int64) \<and>
   (c \<noteq> searchChangeDeletion \<longrightarrow> readable (sd_access db) (o', n) \<and>
     (fmlookup (sd_access db) (o', n) = None \<longrightarrow> readable (sd_rollout db) o'))"
proof -
  let ?roll = "if c = searchChangeAccess \<or> c = searchChangeRepair then recordRolloutAffected o' n db else Inr db"
  let ?init = "\<lambda>d. if c = searchChangeDeletion then Inr d else initializeSearchAccess o' n d"
  have roll: "(\<exists>d. ?roll = Inr d) \<longleftrightarrow>
      (c = searchChangeAccess \<or> c = searchChangeRepair \<longrightarrow> counter_in (sd_collect db) o' max_int64)"
    using recordRolloutAffected_iff [of o' n db] by simp
  have same: "sd_access d = sd_access db \<and> sd_rollout d = sd_rollout db" if "?roll = Inr d" for d
    using that recordRolloutAffected_access [of o' n db d] by (auto split: if_splits)
  have init: "(\<exists>y. ?init d = Inr y) \<longleftrightarrow> (c \<noteq> searchChangeDeletion \<longrightarrow> readable (sd_access db) (o', n) \<and>
     (fmlookup (sd_access db) (o', n) = None \<longrightarrow> readable (sd_rollout db) o'))" if "?roll = Inr d" for d
    using same [OF that] initializeSearchAccess_iff [of o' n d] by simp
  have tail: "(\<exists>r. bindE (?init d) (\<lambda>db. Inr (current, db)) = Inr r) \<longleftrightarrow> (\<exists>y. ?init d = Inr y)" for d
    by (cases "?init d") simp_all
  show ?thesis
  proof (cases ?roll)
    case (Inl e)
    then show ?thesis using roll unfolding Inl bindE_Inl by blast
  next
    case (Inr d)
    then have "c = searchChangeAccess \<or> c = searchChangeRepair \<longrightarrow> counter_in (sd_collect db) o' max_int64"
      using roll by blast
    then show ?thesis unfolding Inr bindE_Inr tail init [OF Inr] by blast
  qed
qed

lemma scheduleSearchChange_succeeds:
  assumes "work_consistent lib db"
  shows "(\<exists>r. scheduleSearchChange lib now orgID nodeID change db = Inr r) \<longleftrightarrow>
    schedule_ready orgID nodeID (adjusted_change orgID nodeID change db) db"
proof -
  obtain c d where adj: "exclusionAdjustedChange orgID nodeID change db = (c, d)" by fastforce
  have d: "sd_work d = sd_work db" "sd_age d = sd_age db" "sd_generation d = sd_generation db"
    "sd_revision d = sd_revision db" "sd_collect d = sd_collect db" "sd_access d = sd_access db"
    "sd_rollout d = sd_rollout db"
    using adj by (auto simp: exclusionAdjustedChange_def split: if_splits)
  let ?loop = "\<lambda>cur st. foldE (\<lambda>cls. applySearchRecordPlan lib cur cls (searchRecordPlanFor c cls)) searchNodeClasses st"
  have loop: "\<exists>e. ?loop cur st = Inr e \<and> sd_collect e = sd_collect db \<and> sd_access e = sd_access db \<and>
      sd_rollout e = sd_rollout db"
    if "sd_work st = sd_work d" "sd_age st = sd_age d" "sd_collect st = sd_collect db"
      "sd_access st = sd_access db" "sd_rollout st = sd_rollout db" for cur st
  proof -
    have "work_consistent lib st" using work_consistent_frame [of st db lib] assms that d by simp
    from plan_loop_effect [OF this distinct_searchNodeClasses, of cur "searchRecordPlanFor c"] that
    show ?thesis unfolding same_but_work_def by metis
  qed
  have step: "(\<exists>r. bindE (?loop cur st) (\<lambda>db.
      bindE (if c = searchChangeAccess \<or> c = searchChangeRepair
             then recordRolloutAffected orgID nodeID db else Inr db) (\<lambda>db.
      bindE (if c = searchChangeDeletion then Inr db
             else initializeSearchAccess orgID nodeID db) (\<lambda>db. Inr (cur, db)))) = Inr r) \<longleftrightarrow>
      (c = searchChangeAccess \<or> c = searchChangeRepair \<longrightarrow> counter_in (sd_collect db) orgID max_int64) \<and>
      (c \<noteq> searchChangeDeletion \<longrightarrow> readable (sd_access db) (orgID, nodeID) \<and>
        (fmlookup (sd_access db) (orgID, nodeID) = None \<longrightarrow> readable (sd_rollout db) orgID))"
    if "sd_work st = sd_work d" "sd_age st = sd_age d" "sd_collect st = sd_collect db"
      "sd_access st = sd_access db" "sd_rollout st = sd_rollout db" for cur st
  proof -
    note st = that
    obtain e where e: "?loop cur st = Inr e" "sd_collect e = sd_collect db" "sd_access e = sd_access db"
      "sd_rollout e = sd_rollout db" using loop [OF st] by blast
    show ?thesis using schedule_tail_iff [of c orgID nodeID e cur] unfolding e bindE_Inr .
  qed
  show ?thesis
  proof (cases "incrementSearchCounter (sd_generation db) (orgID, nodeID)")
    case (Inl e)
    then show ?thesis
      using incrementSearchCounter_iff [of "sd_generation db" "(orgID, nodeID)"]
      by (simp add: scheduleSearchChange_def adj d adjusted_change_def schedule_ready_def)
  next
    case (Inr gm)
    obtain g m where gm: "gm = (g, m)" by (cases gm)
    have gen: "counter_in (sd_generation db) (orgID, nodeID) (max_int64 - 1)"
      using Inr incrementSearchCounter_iff [of "sd_generation db" "(orgID, nodeID)"] by blast
    show ?thesis
    proof (cases "readSearchCounter (sd_revision db) (orgID, nodeID)")
      case (Inl e)
      then show ?thesis
        using \<open>incrementSearchCounter _ _ = Inr gm\<close> gm readSearchCounter_iff [of "sd_revision db" "(orgID, nodeID)"]
        by (simp add: scheduleSearchChange_def adj d adjusted_change_def schedule_ready_def)
    next
      case (Inr stored)
      have rev: "counter_in (sd_revision db) (orgID, nodeID) max_int64"
        using Inr readSearchCounter_iff [of "sd_revision db" "(orgID, nodeID)"] by blast
      have stored: "readSearchCounter (sd_revision (d\<lparr>sd_generation := m\<rparr>)) (orgID, nodeID) = Inr stored"
        using Inr d by simp
      show ?thesis
        unfolding scheduleSearchChange_def adj d prod.case Let_def adjusted_change_def fst_conv schedule_ready_def
          \<open>incrementSearchCounter _ _ = Inr gm\<close> gm bindE_Inr stored
        by (subst step) (simp_all add: d gen rev)
    qed
  qed
qed

section \<open>Properties\<close>

definition empty_search :: search_db where
  "empty_search =
     \<lparr>sd_generation = fmempty, sd_revision = fmempty, sd_work = fmempty, sd_age = {||}, sd_claim = fmempty,
      sd_cursor = fmempty, sd_pending = fmempty, sd_error = fmempty, sd_attempt = fmempty,
      sd_issued = fmempty, sd_access = fmempty, sd_exclusion = fmempty, sd_rollout = fmempty,
      sd_collect = fmempty, sd_affected = {||}, sd_affected_count = fmempty, sd_permission = fmempty,
      sd_fanout = {||}\<rparr>"

lemma empty_search_ok [simp]: "search_ok lib empty_search"
  by (simp add: search_ok_def work_consistent_def work_readable_def index_consistent_def work_lookup_def
    age_set_def generations_current_def pending_work_def empty_search_def)

lemma empty_search_schedules:
  "\<exists>current db'. scheduleSearchChange lib now orgID nodeID searchChangeContent empty_search = Inr (current, db')"
proof -
  have "schedule_ready orgID nodeID (adjusted_change orgID nodeID searchChangeContent empty_search) empty_search"
    by (simp add: schedule_ready_def adjusted_change_def exclusionAdjustedChange_def empty_search_def
      counter_in_def readable_def)
  then show ?thesis
    using scheduleSearchChange_succeeds [of lib empty_search] empty_search_ok [of lib]
    unfolding search_ok_def by (metis surj_pair)
qed

lemma schedule_effect_class:
  assumes "schedule_effect lib orgID nodeID c current db db'" "cls \<in> set searchNodeClasses"
  shows "pending_work lib db' cls orgID nodeID =
    planned_work (searchRecordPlanFor c cls) current (pending_work lib db cls orgID nodeID)"
  using assms by (simp add: schedule_effect_def)

text \<open>
  C27: One scheduled change of a node raises the node's generation counter by one. Every pending
  record of the node then carries the new generation and is no younger than the record it replaced;
  a class whose plan is Put has one, a class whose plan is Remove has none, and any other class has
  one exactly when it had one before. No other node's pending work or generation changes.
\<close>

theorem schedule_pending_work:
  assumes "scheduleSearchChange lib now orgID nodeID change db = Inr (current, db')" "search_ok lib db"
  defines "plan \<equiv> searchRecordPlanFor (adjusted_change orgID nodeID change db)"
  shows "readSearchCounter (sd_generation db) (orgID, nodeID) = Inr (sw_generation current - 1) \<and>
    readSearchCounter (sd_generation db') (orgID, nodeID) = Inr (sw_generation current) \<and>
    (\<forall>cls \<in> set searchNodeClasses.
      (case pending_work lib db' cls orgID nodeID of
         None \<Rightarrow> plan cls = Some searchRecordRemove \<or>
           plan cls \<noteq> Some searchRecordPut \<and> pending_work lib db cls orgID nodeID = None
       | Some r \<Rightarrow> sw_generation r = sw_generation current \<and> plan cls \<noteq> Some searchRecordRemove \<and>
           (plan cls = Some searchRecordPut \<or> pending_work lib db cls orgID nodeID \<noteq> None) \<and>
           (\<forall>e. pending_work lib db cls orgID nodeID = Some e \<longrightarrow> sw_enqueued_at e \<noteq> 0 \<longrightarrow>
              sw_enqueued_at r \<le> sw_enqueued_at e))) \<and>
    (\<forall>o' n. (o', n) \<noteq> (orgID, nodeID) \<longrightarrow>
      (\<forall>cls. pending_work lib db' cls o' n = pending_work lib db cls o' n) \<and>
      readSearchCounter (sd_generation db') (o', n) = readSearchCounter (sd_generation db) (o', n))"
proof (intro conjI ballI allI impI)
  have eff: "schedule_effect lib orgID nodeID (adjusted_change orgID nodeID change db) current db db'"
    using scheduleSearchChange_spec(1) [OF assms(1)] assms(2) by (simp add: search_ok_def)
  note eff' = eff [unfolded schedule_effect_def]
  show "readSearchCounter (sd_generation db) (orgID, nodeID) = Inr (sw_generation current - 1)"
    "readSearchCounter (sd_generation db') (orgID, nodeID) = Inr (sw_generation current)"
    using eff' by (simp_all add: readSearchCounter_def unpackCounter_def)
  fix o' n cls assume "(o', n) \<noteq> (orgID, nodeID)"
  then show "pending_work lib db' cls o' n = pending_work lib db cls o' n"
    "readSearchCounter (sd_generation db') (o', n) = readSearchCounter (sd_generation db) (o', n)"
    using eff' by (auto simp: readSearchCounter_def)
next
  fix cls assume cls: "cls \<in> set searchNodeClasses"
  have "schedule_effect lib orgID nodeID (adjusted_change orgID nodeID change db) current db db'"
    using scheduleSearchChange_spec(1) [OF assms(1)] assms(2) by (simp add: search_ok_def)
  from schedule_effect_class [OF this cls]
  show "case pending_work lib db' cls orgID nodeID of
         None \<Rightarrow> plan cls = Some searchRecordRemove \<or>
           plan cls \<noteq> Some searchRecordPut \<and> pending_work lib db cls orgID nodeID = None
       | Some r \<Rightarrow> sw_generation r = sw_generation current \<and> plan cls \<noteq> Some searchRecordRemove \<and>
           (plan cls = Some searchRecordPut \<or> pending_work lib db cls orgID nodeID \<noteq> None) \<and>
           (\<forall>e. pending_work lib db cls orgID nodeID = Some e \<longrightarrow> sw_enqueued_at e \<noteq> 0 \<longrightarrow>
              sw_enqueued_at r \<le> sw_enqueued_at e)"
    by (auto simp: plan_def planned_work_def earliestSearchTime_def Let_def split: option.splits if_splits)
qed

theorem schedule_pending_work_witness:
  "\<exists>current db' r. scheduleSearchChange sample_lib 7 1 2 searchChangeContent empty_search = Inr (current, db') \<and>
     sw_generation current = 1 \<and> pending_work sample_lib db' WorkClassLive 1 2 = Some r \<and> sw_generation r = 1"
proof -
  obtain current db' where run: "scheduleSearchChange sample_lib 7 1 2 searchChangeContent empty_search = Inr (current, db')"
    using empty_search_schedules by blast
  note eff = schedule_pending_work [OF run empty_search_ok]
  have "sw_generation current = 1"
    using eff by (simp add: readSearchCounter_def empty_search_def)
  moreover have "\<exists>r. pending_work sample_lib db' WorkClassLive 1 2 = Some r \<and> sw_generation r = sw_generation current"
    using eff [THEN conjunct2, THEN conjunct2, THEN conjunct1, THEN bspec, of WorkClassLive]
    by (simp add: searchNodeClasses_def adjusted_change_def exclusionAdjustedChange_def split: option.splits)
  ultimately show ?thesis using run by auto
qed

text \<open>
  C28: Scheduling keeps the search state well formed: every work record decodes and is stored under
  its own key, the age index holds exactly one entry per record, and every pending record of a node
  class carries the current generation of its node. That holds for a change of one node, for the
  endpoints of changed relationships, and for a deletion with its fan-out.
\<close>

theorem schedule_keeps_search_ok:
  assumes "search_ok lib db"
  shows "(scheduleSearchChange lib now orgID nodeID change db = Inr (current, db1) \<longrightarrow> search_ok lib db1) \<and>
    (scheduleRelatedSearchWork lib now resolved changes db = Inr db2 \<longrightarrow> search_ok lib db2) \<and>
    (scheduleSearchChange lib now orgID nodeID searchChangeDeletion db = Inr (deletion, db3) \<longrightarrow>
      scheduleDeletedFanout lib deletion counterparts db3 = Inr db4 \<longrightarrow> search_ok lib db4)"
  using scheduleSearchChange_ok [OF _ assms] scheduleRelatedSearchWork_ok [OF _ assms]
    deletion_fanout_ok [OF assms] by blast

theorem schedule_keeps_search_ok_witness:
  "\<exists>current db'. scheduleSearchChange sample_lib 7 1 2 searchChangeContent empty_search = Inr (current, db') \<and>
     search_ok sample_lib db'"
  using empty_search_schedules [of sample_lib 7 1 2] schedule_keeps_search_ok [OF empty_search_ok] by blast

text \<open>
  C29: Scheduling a change fails exactly when a stored value it needs is unusable: the generation
  counter does not decode or is at the largest 64-bit integer, the revision counter does not decode,
  the collecting rollout of an access or repair change does not decode, or, unless the node is being
  deleted, its access record or the rollout it would start from does not decode. Work records never
  make it fail when the state is well formed, and the counter never wraps.
\<close>

theorem schedule_fails_iff:
  assumes "search_ok lib db"
  shows "(\<exists>e. scheduleSearchChange lib now orgID nodeID change db = Inl e) \<longleftrightarrow>
    \<not> schedule_ready orgID nodeID (adjusted_change orgID nodeID change db) db"
proof -
  have "(\<exists>r. scheduleSearchChange lib now orgID nodeID change db = Inr r) \<longleftrightarrow>
    schedule_ready orgID nodeID (adjusted_change orgID nodeID change db) db"
    using scheduleSearchChange_succeeds assms by (simp add: search_ok_def)
  then show ?thesis by (cases "scheduleSearchChange lib now orgID nodeID change db") auto
qed

theorem schedule_fails_iff_witness:
  "\<exists>e. scheduleSearchChange sample_lib 7 1 2 searchChangeAccess
     (empty_search\<lparr>sd_generation := fmupd (1, 2) (Some max_int64) fmempty\<rparr>) = Inl e"
proof -
  let ?db = "empty_search\<lparr>sd_generation := fmupd (1, 2) (Some max_int64) fmempty\<rparr>"
  have "search_ok sample_lib ?db"
    by (simp add: search_ok_def work_consistent_def work_readable_def index_consistent_def work_lookup_def
      age_set_def generations_current_def pending_work_def empty_search_def)
  moreover have "\<not> schedule_ready 1 2 (adjusted_change 1 2 searchChangeAccess ?db) ?db"
    by (simp add: schedule_ready_def counter_in_def)
  ultimately show ?thesis using schedule_fails_iff by blast
qed

end
