(* ===== verification/Store.thy ===== *)
theory Store
  imports Search_Schedule Audit_Transport Property_Schema
begin

text \<open>
  The stored state of the FoundationDB adapter and what every product write shares: the encoding of
  records, reads of one node and of the schema, node records, property indexes, reference claims,
  relationships and the change events of a transaction. A transaction attempt is a function of the
  stored state: it returns an error and changes nothing, or the new state.
\<close>

declare split_paired_All [simp del] split_paired_Ex [simp del]

section \<open>Environment\<close>

text \<open>
  The texts that \<open>json.Marshal\<close> produces for the record types, without the opening brace, and the
  functions of the other libraries.
\<close>

record strict_activation =
  sa_active :: bool
  sa_activated_at :: timestamp
  sa_scan :: uuid
  sa_records_validated :: int

record env =
  env_lib :: lib
  env_wire :: wire
  env_node_text :: "node \<Rightarrow> bytes"
  env_view_text :: "node_view \<Rightarrow> bytes"
  env_resolve_text :: "node_resolve \<Rightarrow> bytes"
  env_relationship_text :: "relationship \<Rightarrow> bytes"
  env_idempotency_text :: "idempotency_record \<Rightarrow> bytes"
  env_checkpoint_text :: "repair_checkpoint \<Rightarrow> bytes"
  env_activation_text :: "strict_activation \<Rightarrow> bytes"
  env_claims_text :: "(string, string) fmap \<Rightarrow> bytes"

text \<open>
  The fields of \<open>NodeStore\<close> and \<open>RelationshipStore\<close> that decide what a write does: whether search
  work is scheduled, and whether the write fence is set. The clock readings of one attempt: for the
  written record, for the scheduled search work, and for the appended change events.
\<close>

record store_config =
  cfg_search_work :: bool
  cfg_write_fence :: bool

record instants =
  at_write :: timestamp
  at_schedule :: timestamp
  at_append :: timestamp

section \<open>Stored state\<close>

text \<open>
  One field per key family, keyed by the elements of the tuple after the family name. A family
  without values is a set. The write fence epochs are the stored bytes, and the outbox is the list
  of its entries in versionstamp order.
\<close>

record db =
  db_nodes :: "(uuid \<times> string \<times> uuid, node encoded) kv"
  db_views :: "(uuid \<times> string \<times> uuid, node_view encoded) kv"
  db_resolves :: "(uuid, node_resolve encoded) kv"
  db_rels :: "(uuid \<times> uuid \<times> string \<times> uuid, relationship encoded) kv"
  db_rels_rev :: "(uuid \<times> uuid \<times> string \<times> uuid) fset"
  db_ref_keys :: "(uuid \<times> string \<times> string, string) kv"
  db_ref_owned :: "(uuid \<times> uuid \<times> string, string) kv"
  db_props :: "(uuid \<times> string \<times> string \<times> bytes \<times> uuid) fset"
  db_idempotency :: "(uuid \<times> string, idempotency_record encoded) kv"
  db_checkpoints :: "(string, repair_checkpoint encoded) kv"
  db_fence :: "(nat, bytes) kv"
  db_activation :: "strict_activation encoded option"
  db_types :: "(uuid \<times> uuid, node_type encoded) kv"
  db_types_by_key :: "(uuid \<times> string \<times> uuid) fset"
  db_defs :: "(uuid \<times> uuid, property_def encoded) kv"
  db_epochs :: "(uuid, int option) kv"
  db_outbox :: "bytes list"
  db_search :: search_db

text \<open>\<open>json.Unmarshal\<close> of a stored value; the empty text is no JSON.\<close>

definition decode :: "'a encoded \<Rightarrow> 'a option" where
  "decode e = (if enc_text e = [] then None else enc_value e)"

lemma fmupd_SomeE:
  assumes "fmlookup (fmupd a b m) k = Some d"
  obtains "k = a" "d = b" | "fmlookup m k = Some d"
  using assms by (cases "k = a") auto

section \<open>Encoding records\<close>

text \<open>
  A \<open>json.RawMessage\<close> inside a marshalled record is written compacted, with the characters that
  HTML reads escaped; a nil message is written as \<open>null\<close> and a message that is no JSON fails the
  record. The value of the message stays the same. Strings are valid UTF-8, as the decoders of
  requests deliver them, so that \<open>json.Marshal\<close> keeps them.
\<close>

fun html_escape :: "bytes \<Rightarrow> bytes" where
  "html_escape [] = []"
| "html_escape (c # cs) =
     (if c = 0x3C then [0x5C, 0x75, 0x30, 0x30, 0x33, 0x63] @ html_escape cs
      else if c = 0x3E then [0x5C, 0x75, 0x30, 0x30, 0x33, 0x65] @ html_escape cs
      else if c = 0x26 then [0x5C, 0x75, 0x30, 0x30, 0x32, 0x36] @ html_escape cs
      else if c = 0xE2 \<and> take 2 cs = [0x80, 0xA8] then [0x5C, 0x75, 0x32, 0x30, 0x32, 0x38] @ html_escape (drop 2 cs)
      else if c = 0xE2 \<and> take 2 cs = [0x80, 0xA9] then [0x5C, 0x75, 0x32, 0x30, 0x32, 0x39] @ html_escape (drop 2 cs)
      else c # html_escape cs)"

definition json_null :: bytes where
  "json_null = [0x6E, 0x75, 0x6C, 0x6C]"

definition raw_stored :: "raw \<Rightarrow> raw" where
  "raw_stored r =
     (if raw_empty r then Enc json_null (Some JNull)
      else Enc (html_escape (compact_text False False (enc_text r))) (enc_value r))"

text \<open>A message is JSON when it has a value, and then its text is not white space alone.\<close>

definition raw_ok :: "raw \<Rightarrow> bool" where
  "raw_ok r \<longleftrightarrow> raw_empty r \<or> enc_value r \<noteq> None \<and> compact_text False False (enc_text r) \<noteq> []"

definition marshal_props :: "props \<Rightarrow> props result" where
  "marshal_props p = (if fmpred (\<lambda>_. raw_ok) p then Inr (fmmap raw_stored p) else Inl ErrInternal)"

text \<open>\<open>time.Time.MarshalJSON\<close> accepts the years 0 to 9999.\<close>

definition time_json_ok :: "timestamp \<Rightarrow> bool" where
  "time_json_ok t \<longleftrightarrow> - (366 * 86400 * 1000000000) \<le> t \<and> t < 3652059 * 86400 * 1000000000"

definition json_object :: "bytes \<Rightarrow> 'a \<Rightarrow> 'a encoded" where
  "json_object body v = Enc (0x7B # body) (Some v)"

definition marshal_node :: "(node \<Rightarrow> bytes) \<Rightarrow> node \<Rightarrow> node encoded result" where
  "marshal_node body n =
     bindE (guardE (time_json_ok (created_at n) \<and> time_json_ok (updated_at n)) ErrInternal) (\<lambda>_.
     bindE (marshal_props (node_props n)) (\<lambda>p.
     let n' = n\<lparr>node_props := p\<rparr> in Inr (json_object (body n') n')))"

definition marshal_relationship :: "env \<Rightarrow> relationship \<Rightarrow> relationship encoded result" where
  "marshal_relationship env r =
     bindE (guardE (time_json_ok (rel_created_at r)) ErrInternal) (\<lambda>_.
     bindE (marshal_props (rel_props r)) (\<lambda>p.
     let r' = r\<lparr>rel_props := p\<rparr> in Inr (json_object (env_relationship_text env r') r')))"

text \<open>The key is not a member of the stored idempotency record.\<close>

definition marshal_idempotency :: "env \<Rightarrow> idempotency_record \<Rightarrow> idempotency_record encoded result" where
  "marshal_idempotency env r =
     bindE (guardE (time_json_ok (idem_created_at r)) ErrInternal) (\<lambda>_.
     let r' = r\<lparr>idem_key := []\<rparr> in Inr (json_object (env_idempotency_text env r') r'))"

definition marshal_checkpoint :: "env \<Rightarrow> repair_checkpoint \<Rightarrow> repair_checkpoint encoded result" where
  "marshal_checkpoint env c =
     bindE (guardE (time_json_ok (cp_updated_at c)) ErrInternal) (\<lambda>_.
     Inr (json_object (env_checkpoint_text env c) c))"

section \<open>Reads\<close>

text \<open>The primary record of one node that a transaction read.\<close>

record mutation_source =
  ms_exists :: bool
  ms_kind :: string
  ms_encoding :: bytes
  ms_node :: node

definition absentNode :: node where
  "absentNode =
     \<lparr>node_id = uuid_nil, node_org = uuid_nil, node_kind = [], node_name = [], node_props = fmempty,
      created_by = uuid_nil, updated_by = uuid_nil, created_at = 0, updated_at = 0\<rparr>"

definition absent_source :: mutation_source where
  "absent_source = \<lparr>ms_exists = False, ms_kind = [], ms_encoding = [], ms_node = absentNode\<rparr>"

definition readMutationSource :: "db \<Rightarrow> uuid \<Rightarrow> uuid \<Rightarrow> mutation_source result" where
  "readMutationSource db orgID nodeID =
     (case kv_get (db_resolves db) nodeID of
        None \<Rightarrow> Inr absent_source
      | Some resolved \<Rightarrow>
          (case enc_value resolved of
             None \<Rightarrow> Inl ErrDecode
           | Some resolve \<Rightarrow>
               if resolve_org resolve \<noteq> orgID then Inr absent_source
               else (case kv_get (db_nodes db) (orgID, resolve_kind resolve, nodeID) of
                  None \<Rightarrow> Inr absent_source
                | Some e \<Rightarrow>
                    (case enc_value e of
                       None \<Rightarrow> Inl ErrDecode
                     | Some current \<Rightarrow>
                         Inr \<lparr>ms_exists = True, ms_kind = resolve_kind resolve, ms_encoding = enc_text e,
                           ms_node = current\<rparr>))))"

definition storedUUID :: "lib \<Rightarrow> raw \<Rightarrow> uuid" where
  "storedUUID lib raw =
     (case if raw_empty raw then None else unmarshal json_string raw of
        None \<Rightarrow> uuid_nil
      | Some t \<Rightarrow> (case lib_uuid_parse lib t of None \<Rightarrow> uuid_nil | Some parsed \<Rightarrow> parsed))"

definition decodeEpochValue :: "db \<Rightarrow> uuid \<Rightarrow> int result" where
  "decodeEpochValue db orgID = readSearchCounter (db_epochs db) orgID"

definition readMetadataEpoch :: "db \<Rightarrow> uuid \<Rightarrow> int result" where
  "readMetadataEpoch db orgID = decodeEpochValue db orgID"

text \<open>The records of an organisation under a schema prefix, in key order.\<close>

definition readSchemaRecords :: "(uuid \<times> uuid, 'a encoded) kv \<Rightarrow> uuid \<Rightarrow> 'a list result" where
  "readSchemaRecords family orgID =
     mapE (\<lambda>(_, e). case decode e of None \<Rightarrow> Inl ErrDecode | Some x \<Rightarrow> Inr x)
       (kv_range (\<lambda>(o', _). o' = orgID) family)"

definition maxIndexedMatches :: nat where
  "maxIndexedMatches = 2"

definition indexedIDs :: "(uuid \<times> string \<times> uuid) fset \<Rightarrow> uuid \<Rightarrow> string \<Rightarrow> uuid list" where
  "indexedIDs index orgID key =
     take maxIndexedMatches (map (snd \<circ> snd)
       (sorted_list_of_fset (ffilter (\<lambda>(o', k, _). o' = orgID \<and> k = key) index)))"

text \<open>
  The cache of \<open>cachedNodeTypeByKey\<close> lives for one read of the transaction and returns what the read
  itself returns; it is left out.
\<close>

definition cachedNodeTypeByKey :: "db \<Rightarrow> uuid \<Rightarrow> string \<Rightarrow> node_type option result" where
  "cachedNodeTypeByKey db orgID typeKey =
     (case indexedIDs (db_types_by_key db) orgID typeKey of
        [] \<Rightarrow> Inr None
      | [typeID] \<Rightarrow>
          (case kv_get (db_types db) (orgID, typeID) of
             None \<Rightarrow> Inr None
           | Some e \<Rightarrow>
               (case enc_value e of
                  None \<Rightarrow> Inl ErrDecode
                | Some kind \<Rightarrow> Inr (if type_key kind \<noteq> typeKey then None else Some kind)))
      | _ \<Rightarrow> Inl ErrInternal)"

section \<open>Change events\<close>

text \<open>
  \<open>mutationAudit\<close>: the operation and the base event ID of one write. The recorded changes are
  threaded through the attempt beside the stored state, and start empty in every attempt.
\<close>

record mutation_audit =
  ma_operation :: audit_event
  ma_base :: uuid

type_synonym txn = "db \<times> audit_change list"

definition lift_unit :: "unit + 'a \<Rightarrow> 'a result" where
  "lift_unit m = (case m of Inl _ \<Rightarrow> Inl ErrInternal | Inr x \<Rightarrow> Inr x)"

definition beginMutationAudit :: "audit_event option \<Rightarrow> uuid \<Rightarrow> uuid \<Rightarrow> mutation_audit result" where
  "beginMutationAudit operation base orgID =
     (case operation of
        None \<Rightarrow> Inl ErrInternal
      | Some op \<Rightarrow>
          if \<not> mutation_operation_ok op then Inl ErrInternal
          else Inr \<lparr>ma_operation = op\<lparr>ev_context := (ev_context op)\<lparr>ctx_org := orgID\<rparr>\<rparr>, ma_base = base\<rparr>)"

definition targetKey :: "lib \<Rightarrow> audit_target \<Rightarrow> string" where
  "targetKey lib target =
     (if tgt_kind target = TargetKindRelationship
      then tgt_kind target @ '':'' @ lib_uuid_string lib (tgt_source target) @ '':'' @
        tgt_relation_type target @ '':'' @ lib_uuid_string lib (tgt_target target)
      else tgt_kind target @ '':'' @ tgt_node_type target @ '':'' @ lib_uuid_string lib (tgt_id target))"

definition eventID :: "lib \<Rightarrow> uuid \<Rightarrow> audit_target \<Rightarrow> bytes \<Rightarrow> bytes \<Rightarrow> uuid" where
  "eventID lib base target before after =
     (let kind = (if before = [] then ''create'' else if after = [] then ''delete'' else ''update'') in
      lib_uuid_sha1 lib base (kind @ '':'' @ targetKey lib target))"

definition record_change ::
  "env \<Rightarrow> mutation_audit \<Rightarrow> audit_target \<Rightarrow> bytes \<Rightarrow> bytes \<Rightarrow> audit_change list \<Rightarrow> audit_change list result" where
  "record_change env m target before after changes =
     (if before = after then Inr changes
      else bindE (lift_unit (NewChange (env_lib env) (eventID (env_lib env) (ma_base m) target before after)
        target before after)) (\<lambda>change. Inr (changes @ [change])))"

definition encodeChangeEvent ::
  "env \<Rightarrow> audit_event \<Rightarrow> audit_change \<Rightarrow> timestamp \<Rightarrow> encoded_event result" where
  "encodeChangeEvent env operation change completedAt =
     bindE (lift_unit (ChangeEvent (env_lib env) operation change completedAt)) (\<lambda>event.
     lift_unit (EncodeEvent (env_lib env) (env_wire env) event []))"

definition outboxEntriesPerTransaction :: nat where
  "outboxEntriesPerTransaction = 65536"

text \<open>An \<open>OutboxWriter\<close>: the entries written so far in the transaction, in user version order.\<close>

definition WriteEncodedEvent :: "env \<Rightarrow> encoded_event \<Rightarrow> bytes list \<Rightarrow> bytes list result" where
  "WriteEncodedEvent env encoded written =
     bindE (lift_unit (Records (env_wire env) encoded)) (\<lambda>values.
     if outboxEntriesPerTransaction < length written + length values then Inl ErrInternal
     else Inr (written @ values))"

definition AppendChanges :: "env \<Rightarrow> audit_event \<Rightarrow> timestamp \<Rightarrow> audit_change list \<Rightarrow> db \<Rightarrow> db result" where
  "AppendChanges env operation completedAt changes db =
     (if changes = [] then Inr db
      else bindE (foldE (\<lambda>change written.
          bindE (encodeChangeEvent env operation change completedAt) (\<lambda>encoded.
          WriteEncodedEvent env encoded written)) changes []) (\<lambda>written.
        Inr (db\<lparr>db_outbox := db_outbox db @ written\<rparr>)))"

definition nodeIdentityTarget :: "uuid \<Rightarrow> string \<Rightarrow> string \<Rightarrow> audit_target" where
  "nodeIdentityTarget nodeID nodeType name =
     \<lparr>tgt_kind = TargetKindNode, tgt_node_type = nodeType, tgt_reference = [], tgt_name = name, tgt_uri = [],
      tgt_relation_type = [], tgt_id = nodeID, tgt_source = uuid_nil, tgt_target = uuid_nil,
      tgt_owner = uuid_nil\<rparr>"

definition nodeTarget :: "node \<Rightarrow> audit_target" where
  "nodeTarget current = nodeIdentityTarget (node_id current) (node_kind current) (node_name current)"

definition relationshipTarget :: "uuid \<Rightarrow> string \<Rightarrow> uuid \<Rightarrow> audit_target" where
  "relationshipTarget sourceID relationType targetID =
     \<lparr>tgt_kind = TargetKindRelationship, tgt_node_type = [], tgt_reference = [], tgt_name = [], tgt_uri = [],
      tgt_relation_type = relationType, tgt_id = uuid_nil, tgt_source = sourceID, tgt_target = targetID,
      tgt_owner = uuid_nil\<rparr>"

section \<open>Node records and property indexes\<close>

definition writeNodeRecords :: "env \<Rightarrow> node \<Rightarrow> node_view option \<Rightarrow> db \<Rightarrow> (bytes \<times> db) result" where
  "writeNodeRecords env current view db =
     bindE (marshal_node (env_node_text env) current) (\<lambda>encodedNode.
     let db = db\<lparr>db_nodes := fmupd (node_org current, node_kind current, node_id current) encodedNode (db_nodes db)\<rparr>;
         resolve = \<lparr>resolve_org = node_org current, resolve_kind = node_kind current\<rparr>;
         db = db\<lparr>db_resolves := fmupd (node_id current)
           (json_object (env_resolve_text env resolve) resolve) (db_resolves db)\<rparr> in
     case view of
       None \<Rightarrow> Inr (enc_text encodedNode, db)
     | Some v \<Rightarrow>
         bindE (marshal_node (env_view_text env) v) (\<lambda>encodedView.
         Inr (enc_text encodedNode, db\<lparr>db_views :=
           fmupd (node_org current, node_kind current, node_id current) encodedView (db_views db)\<rparr>)))"

definition encodePropertyValue :: "raw \<Rightarrow> bytes" where
  "encodePropertyValue raw = enc_text raw"

definition property_entry :: "node \<Rightarrow> string \<Rightarrow> raw \<Rightarrow> uuid \<times> string \<times> string \<times> bytes \<times> uuid" where
  "property_entry current name value =
     (node_org current, node_kind current, name, encodePropertyValue value, node_id current)"

definition writeCreatePropertyIndexes :: "node \<Rightarrow> string list \<Rightarrow> db \<Rightarrow> db" where
  "writeCreatePropertyIndexes current indexedProps db =
     db\<lparr>db_props := fold (\<lambda>name index.
       case fmlookup (node_props current) name of
         None \<Rightarrow> index
       | Some value \<Rightarrow> if raw_empty value then index else finsert (property_entry current name value) index)
       indexedProps (db_props db)\<rparr>"

definition reconcile_step ::
  "node \<Rightarrow> props \<Rightarrow> string \<Rightarrow> (uuid \<times> string \<times> string \<times> bytes \<times> uuid) fset \<Rightarrow>
    (uuid \<times> string \<times> string \<times> bytes \<times> uuid) fset" where
  "reconcile_step current oldProps name index =
     (let oldValue = prop_of oldProps name; newValue = prop_of (node_props current) name in
      if enc_text oldValue = enc_text newValue then index
      else
        let cleared = (if raw_empty oldValue then index else index |-| {|property_entry current name oldValue|}) in
        if raw_empty newValue then cleared else finsert (property_entry current name newValue) cleared)"

definition reconcilePropertyIndexes :: "node \<Rightarrow> props \<Rightarrow> string list \<Rightarrow> db \<Rightarrow> db" where
  "reconcilePropertyIndexes current oldProps indexedProps db =
     db\<lparr>db_props := fold (reconcile_step current oldProps) indexedProps (db_props db)\<rparr>"

definition indexedPropertyNames :: "schema \<Rightarrow> node_type \<Rightarrow> string list" where
  "indexedPropertyNames schema kind =
     map def_name (filter (\<lambda>definition. indexed definition \<and> PropertyAppliesTo definition kind)
       (present_definitions (schema_definitions schema)))"

section \<open>Reference claims\<close>

text \<open>
  The forward claim of a reference stores the ID of its holder as text, the reverse entry of a node
  the reference it holds for a template.
\<close>

definition clearReferenceKeys :: "uuid \<Rightarrow> uuid \<Rightarrow> db \<Rightarrow> db" where
  "clearReferenceKeys orgID nodeID db =
     (let owned = kv_range (\<lambda>(o', n, _). o' = orgID \<and> n = nodeID) (db_ref_owned db) in
      db\<lparr>db_ref_keys := fold fmdrop (map (\<lambda>((_, _, template), encoded). (orgID, template, encoded)) owned)
           (db_ref_keys db),
         db_ref_owned := kv_clear_range (\<lambda>(o', n, _). o' = orgID \<and> n = nodeID) (db_ref_owned db)\<rparr>)"

definition claim_reference :: "lib \<Rightarrow> uuid \<Rightarrow> uuid \<Rightarrow> reference_key \<Rightarrow> db \<Rightarrow> db result" where
  "claim_reference lib orgID nodeID key db =
     (let forward = (orgID, ref_template key, ref_encoded key);
          claimed = db\<lparr>db_ref_keys := fmupd forward (lib_uuid_string lib nodeID) (db_ref_keys db),
            db_ref_owned := fmupd (orgID, nodeID, ref_template key) (ref_encoded key) (db_ref_owned db)\<rparr> in
      case fmlookup (db_ref_keys db) forward of
        None \<Rightarrow> Inr claimed
      | Some existing \<Rightarrow>
          if existing = [] then Inr claimed
          else (case lib_uuid_parse lib existing of
             None \<Rightarrow> Inl ErrInternal
           | Some ownerID \<Rightarrow> if ownerID = nodeID then Inr db else Inl ErrConflict))"

definition writeReferenceKeys :: "lib \<Rightarrow> uuid \<Rightarrow> uuid \<Rightarrow> reference_key list \<Rightarrow> db \<Rightarrow> db result" where
  "writeReferenceKeys lib orgID nodeID keys db =
     foldE (claim_reference lib orgID nodeID) keys (clearReferenceKeys orgID nodeID db)"

definition claimReferenceKeys :: "lib \<Rightarrow> uuid \<Rightarrow> uuid \<Rightarrow> reference_key list \<Rightarrow> db \<Rightarrow> db result" where
  "claimReferenceKeys lib orgID nodeID keys db =
     (if keys = [] then Inr db else writeReferenceKeys lib orgID nodeID keys db)"

definition LookupReference :: "lib \<Rightarrow> db \<Rightarrow> uuid \<Rightarrow> string \<Rightarrow> string \<Rightarrow> uuid result" where
  "LookupReference lib db orgID templateName encoded =
     (case fmlookup (db_ref_keys db) (orgID, templateName, encoded) of
        None \<Rightarrow> Inr uuid_nil
      | Some owner \<Rightarrow>
          if owner = [] then Inr uuid_nil
          else (case lib_uuid_parse lib owner of None \<Rightarrow> Inl ErrInternal | Some nodeID \<Rightarrow> Inr nodeID))"

definition readOwnedReferences :: "db \<Rightarrow> uuid \<Rightarrow> uuid \<Rightarrow> (string, string) fmap" where
  "readOwnedReferences db orgID nodeID =
     fold (\<lambda>((_, _, template), encoded). fmupd template encoded)
       (kv_range (\<lambda>(o', n, _). o' = orgID \<and> n = nodeID) (db_ref_owned db)) fmempty"

definition recordReferenceChange ::
  "env \<Rightarrow> mutation_audit \<Rightarrow> uuid \<Rightarrow> uuid \<Rightarrow> (string, string) fmap \<Rightarrow> reference_key list \<Rightarrow> txn \<Rightarrow> txn result" where
  "recordReferenceChange env m orgID nodeID before keys = (\<lambda>(db, changes).
     let after = fold (\<lambda>key. fmupd (ref_template key) (ref_encoded key)) keys fmempty in
     case kv_get (db_resolves db) nodeID of
       None \<Rightarrow> Inl ErrDecode
     | Some e \<Rightarrow>
         (case enc_value e of
            None \<Rightarrow> Inl ErrDecode
          | Some resolve \<Rightarrow>
              if resolve_org resolve \<noteq> orgID then Inl ErrInternal
              else bindE (record_change env m (nodeIdentityTarget nodeID (resolve_kind resolve) [])
                (0x7B # env_claims_text env before) (0x7B # env_claims_text env after) changes) (\<lambda>changes.
                Inr (db, changes))))"

section \<open>Relationships\<close>

definition rel_key :: "relationship \<Rightarrow> uuid \<times> uuid \<times> string \<times> uuid" where
  "rel_key r = (rel_org r, rel_source r, rel_type r, rel_target r)"

fun reverse_key :: "uuid \<times> uuid \<times> string \<times> uuid \<Rightarrow> uuid \<times> uuid \<times> string \<times> uuid" where
  "reverse_key (orgID, sourceID, relationType, targetID) = (orgID, targetID, relationType, sourceID)"

text \<open>The stored forward values of a group, all read before the group is written.\<close>

definition readRelationshipValues :: "db \<Rightarrow> relationship list \<Rightarrow> bytes list" where
  "readRelationshipValues db rels =
     map (\<lambda>r. case fmlookup (db_rels db) (rel_key r) of None \<Rightarrow> [] | Some e \<Rightarrow> enc_text e) rels"

definition clear_relationship :: "uuid \<times> uuid \<times> string \<times> uuid \<Rightarrow> db \<Rightarrow> db" where
  "clear_relationship k db =
     db\<lparr>db_rels := fmdrop k (db_rels db), db_rels_rev := db_rels_rev db |-| {|reverse_key k|}\<rparr>"

definition set_relationship :: "uuid \<times> uuid \<times> string \<times> uuid \<Rightarrow> relationship encoded \<Rightarrow> db \<Rightarrow> db" where
  "set_relationship k e db =
     db\<lparr>db_rels := fmupd k e (db_rels db), db_rels_rev := finsert (reverse_key k) (db_rels_rev db)\<rparr>"

definition rel_target_of :: "relationship \<Rightarrow> audit_target" where
  "rel_target_of r = relationshipTarget (rel_source r) (rel_type r) (rel_target r)"

definition remove_relationship :: "env \<Rightarrow> mutation_audit \<Rightarrow> relationship \<times> bytes \<Rightarrow> txn \<Rightarrow> txn result" where
  "remove_relationship env m = (\<lambda>(r, stored) (db, changes).
     bindE (record_change env m (rel_target_of r) stored [] changes) (\<lambda>changes.
     Inr (clear_relationship (rel_key r) db, changes)))"

definition removeRelationships :: "env \<Rightarrow> mutation_audit \<Rightarrow> relationship list \<Rightarrow> txn \<Rightarrow> txn result" where
  "removeRelationships env m removed t =
     foldE (remove_relationship env m) (zip removed (readRelationshipValues (fst t) removed)) t"

definition add_relationship :: "env \<Rightarrow> mutation_audit \<Rightarrow> relationship \<times> bytes \<Rightarrow> txn \<Rightarrow> txn result" where
  "add_relationship env m = (\<lambda>(r, stored) (db, changes).
     bindE (marshal_relationship env r) (\<lambda>metadata.
     bindE (record_change env m (rel_target_of r) stored (enc_text metadata) changes) (\<lambda>changes.
     Inr (set_relationship (rel_key r) metadata db, changes))))"

definition addRelationships :: "env \<Rightarrow> mutation_audit \<Rightarrow> relationship list \<Rightarrow> txn \<Rightarrow> txn result" where
  "addRelationships env m added t =
     foldE (add_relationship env m) (zip added (readRelationshipValues (fst t) added)) t"

definition apply_change_set :: "env \<Rightarrow> mutation_audit \<Rightarrow> relationship_changes \<Rightarrow> txn \<Rightarrow> txn result" where
  "apply_change_set env m changes t =
     bindE (removeRelationships env m (rels_remove changes) t) (addRelationships env m (rels_add changes))"

definition applyRelationshipChanges :: "env \<Rightarrow> mutation_audit \<Rightarrow> relationship_changes list \<Rightarrow> txn \<Rightarrow> txn result" where
  "applyRelationshipChanges env m changesList = foldE (apply_change_set env m) changesList"

text \<open>The edges of a node, in key order: from the node by type, and to the node by type.\<close>

definition outgoing_range ::
  "db \<Rightarrow> uuid \<Rightarrow> uuid \<Rightarrow> string \<Rightarrow> ((uuid \<times> uuid \<times> string \<times> uuid) \<times> relationship encoded) list" where
  "outgoing_range db orgID sourceID relationType =
     kv_range (\<lambda>(o', s, t, _). o' = orgID \<and> s = sourceID \<and> (relationType = [] \<or> t = relationType)) (db_rels db)"

definition incoming_range :: "db \<Rightarrow> uuid \<Rightarrow> uuid \<Rightarrow> string \<Rightarrow> (uuid \<times> uuid \<times> string \<times> uuid) list" where
  "incoming_range db orgID targetID relationType =
     sorted_list_of_fset (ffilter (\<lambda>(o', d, t, _). o' = orgID \<and> d = targetID \<and>
       (relationType = [] \<or> t = relationType)) (db_rels_rev db))"

definition decodeRelationshipSnapshot :: "lib \<Rightarrow> relationship encoded \<Rightarrow> relationship_snapshot result" where
  "decodeRelationshipSnapshot lib metadata =
     (case decode metadata of
        None \<Rightarrow> Inl ErrDecode
      | Some r \<Rightarrow> Inr \<lparr>snap_relationship = r, snap_digest = RelationshipDigest lib (enc_text metadata)\<rparr>)"

definition readOutgoingSnapshots ::
  "lib \<Rightarrow> db \<Rightarrow> uuid \<Rightarrow> uuid \<Rightarrow> string \<Rightarrow> relationship_snapshot list result" where
  "readOutgoingSnapshots lib db orgID nodeID relationType =
     mapE (\<lambda>(_, metadata). decodeRelationshipSnapshot lib metadata) (outgoing_range db orgID nodeID relationType)"

record delete_edge =
  de_source :: uuid
  de_type :: string
  de_target :: uuid

definition maxDeleteEdgePage :: nat where
  "maxDeleteEdgePage = 100"

definition readDeleteEdges :: "db \<Rightarrow> uuid \<Rightarrow> uuid \<Rightarrow> string \<Rightarrow> bool \<Rightarrow> delete_edge list" where
  "readDeleteEdges db orgID nodeID relationType incoming =
     (if incoming
      then map (\<lambda>(_, _, t, s). \<lparr>de_source = s, de_type = t, de_target = nodeID\<rparr>)
        (take (maxDeleteEdgePage + 1) (incoming_range db orgID nodeID relationType))
      else map (\<lambda>((_, _, t, d), _). \<lparr>de_source = nodeID, de_type = t, de_target = d\<rparr>)
        (take (maxDeleteEdgePage + 1) (outgoing_range db orgID nodeID relationType)))"

definition readIncomingSnapshots ::
  "lib \<Rightarrow> db \<Rightarrow> uuid \<Rightarrow> uuid \<Rightarrow> (relationship_snapshot list \<times> bool) result" where
  "readIncomingSnapshots lib db orgID nodeID =
     (let edges = readDeleteEdges db orgID nodeID [] True in
      if MutationEdgeLimit < length edges then Inr ([], True)
      else bindE (mapE (\<lambda>edge.
          case fmlookup (db_rels db) (orgID, de_source edge, de_type edge, de_target edge) of
            None \<Rightarrow> Inl ErrDecode
          | Some metadata \<Rightarrow> decodeRelationshipSnapshot lib metadata) edges) (\<lambda>snapshots.
        Inr (snapshots, False)))"

definition decodeRelationships :: "relationship encoded list \<Rightarrow> relationship list" where
  "decodeRelationships values = List.map_filter decode values"

definition ListBySource :: "db \<Rightarrow> uuid \<Rightarrow> uuid \<Rightarrow> string \<Rightarrow> relationship list" where
  "ListBySource db orgID sourceID relationType =
     decodeRelationships (map snd (outgoing_range db orgID sourceID relationType))"

definition ListByTarget :: "db \<Rightarrow> uuid \<Rightarrow> uuid \<Rightarrow> string \<Rightarrow> relationship list" where
  "ListByTarget db orgID targetID relationType =
     List.map_filter (\<lambda>(_, _, t, s). Option.bind (fmlookup (db_rels db) (orgID, s, t, targetID)) decode)
       (incoming_range db orgID targetID relationType)"

section \<open>Consistency of relationships\<close>

text \<open>
  A stored relationship decodes to a relationship with the key it is stored under, and the reverse
  family holds exactly one entry per stored relationship.
\<close>

definition rel_lookup :: "db \<Rightarrow> uuid \<times> uuid \<times> string \<times> uuid \<Rightarrow> relationship encoded option" where
  "rel_lookup db = fmlookup (db_rels db)"

definition rel_index :: "db \<Rightarrow> (uuid \<times> uuid \<times> string \<times> uuid) set" where
  "rel_index db = fset (db_rels_rev db)"

definition rel_entry ::
  "uuid \<times> uuid \<times> string \<times> uuid \<Rightarrow> relationship encoded \<Rightarrow> uuid \<times> uuid \<times> string \<times> uuid" where
  "rel_entry k e = reverse_key k"

definition rel_fits :: "uuid \<times> uuid \<times> string \<times> uuid \<Rightarrow> relationship encoded \<Rightarrow> bool" where
  "rel_fits k e \<longleftrightarrow> (\<exists>r. decode e = Some r \<and> rel_key r = k)"

definition rels_ok :: "db \<Rightarrow> bool" where
  "rels_ok db \<longleftrightarrow> index_consistent rel_lookup rel_index rel_entry rel_fits db"

lemma reverse_key_reverse [simp]: "reverse_key (reverse_key k) = k"
  by (cases k) simp

lemma reverse_key_inject [simp]: "reverse_key k = reverse_key k' \<longleftrightarrow> k = k'"
  by (metis reverse_key_reverse)

interpretation rel: mirrored_index rel_lookup rel_index rel_entry rel_fits set_relationship clear_relationship
proof unfold_locales
  fix k e s
  assume fits: "rel_fits k e"
  show "\<exists>v'. rel_fits k v' \<and> rel_lookup (set_relationship k e s) = (rel_lookup s)(k \<mapsto> v') \<and>
    rel_index (set_relationship k e s) =
      insert (rel_entry k v') (rel_index s - rel_entry k ` set_option (rel_lookup s k))"
    using fits
    by (intro exI [of _ e])
      (auto simp: rel_lookup_def rel_index_def rel_entry_def set_relationship_def)
next
  fix k s
  assume "index_consistent rel_lookup rel_index rel_entry rel_fits s"
  then have "rel_index s = {a. \<exists>k v. rel_lookup s k = Some v \<and> a = reverse_key k}"
    by (simp only: index_consistent_def rel_entry_def)
  then have "rel_lookup s k = None \<Longrightarrow> reverse_key k \<notin> rel_index s"
    by (simp del: split_paired_Ex)
  then show "rel_lookup (clear_relationship k s) = (rel_lookup s)(k := None) \<and>
    rel_index (clear_relationship k s) = rel_index s - rel_entry k ` set_option (rel_lookup s k)"
    by (cases "rel_lookup s k")
      (auto simp: rel_lookup_def rel_index_def rel_entry_def clear_relationship_def)
qed (simp add: rel_entry_def)

text \<open>What relationship operations leave alone: every family but the two of relationships.\<close>

definition only_rels :: "db \<Rightarrow> db \<Rightarrow> bool" where
  "only_rels db db' \<longleftrightarrow> db' = db\<lparr>db_rels := db_rels db', db_rels_rev := db_rels_rev db'\<rparr>"

lemma only_rels_refl [simp]: "only_rels db db"
  by (simp add: only_rels_def)

lemma only_rels_trans: "only_rels a b \<Longrightarrow> only_rels b c \<Longrightarrow> only_rels a c"
  by (cases a; cases b; cases c) (simp add: only_rels_def)

lemma only_relsD:
  assumes "only_rels db db'"
  shows "db_nodes db' = db_nodes db" "db_views db' = db_views db" "db_resolves db' = db_resolves db"
    "db_ref_keys db' = db_ref_keys db" "db_ref_owned db' = db_ref_owned db" "db_props db' = db_props db"
    "db_idempotency db' = db_idempotency db" "db_checkpoints db' = db_checkpoints db"
    "db_fence db' = db_fence db" "db_activation db' = db_activation db" "db_types db' = db_types db"
    "db_types_by_key db' = db_types_by_key db" "db_defs db' = db_defs db" "db_epochs db' = db_epochs db"
    "db_outbox db' = db_outbox db" "db_search db' = db_search db"
  using assms by (cases db; cases db'; simp add: only_rels_def)+

lemma only_rels_set [simp]: "only_rels db (set_relationship k e db)"
  by (simp add: only_rels_def set_relationship_def)

lemma only_rels_clear [simp]: "only_rels db (clear_relationship k db)"
  by (simp add: only_rels_def clear_relationship_def)

lemma decode_json_object [simp]: "decode (json_object body v) = Some v"
  by (simp add: decode_def json_object_def)

lemma enc_json_object [simp]: "enc_text (json_object body v) \<noteq> []" "enc_value (json_object body v) = Some v"
  by (simp_all add: json_object_def)

lemma marshal_relationship_fits: "marshal_relationship env r = Inr e \<Longrightarrow> rel_fits (rel_key r) e"
  by (auto simp: marshal_relationship_def rel_fits_def rel_key_def Let_def err_simps)

lemma remove_relationship_Inr:
  assumes "remove_relationship env m x (db, cs) = Inr (db', cs')"
  shows "db' = clear_relationship (rel_key (fst x)) db"
  using assms by (auto simp: remove_relationship_def err_simps split: prod.splits)

lemma add_relationship_Inr:
  assumes "add_relationship env m x (db, cs) = Inr (db', cs')"
  obtains e where "marshal_relationship env (fst x) = Inr e" "db' = set_relationship (rel_key (fst x)) e db"
  using assms by (auto simp: add_relationship_def err_simps split: prod.splits)

lemma rels_ok_set: "rels_ok db \<Longrightarrow> rel_fits k e \<Longrightarrow> rels_ok (set_relationship k e db)"
  unfolding rels_ok_def by (rule rel.consistent_put)

lemma rels_ok_clear: "rels_ok db \<Longrightarrow> rels_ok (clear_relationship k db)"
  unfolding rels_ok_def by (rule rel.consistent_del)

lemma rels_ok_cong:
  "db_rels db' = db_rels db \<Longrightarrow> db_rels_rev db' = db_rels_rev db \<Longrightarrow> rels_ok db' = rels_ok db"
  unfolding rels_ok_def by (rule rel.consistent_frame) (simp_all add: rel_lookup_def rel_index_def)

text \<open>A step invariant over the stored state lifts to the loops over relationships.\<close>

lemma removeRelationships_invariant:
  assumes run: "removeRelationships env m removed t = Inr t'" and "P (fst t)"
    and step: "\<And>r db. r \<in> set removed \<Longrightarrow> P db \<Longrightarrow> P (clear_relationship (rel_key r) db)"
  shows "P (fst t')"
proof -
  have "P (fst u')" if "x \<in> set (zip removed (readRelationshipValues (fst t) removed))" "P (fst u)"
    "remove_relationship env m x u = Inr u'" for x u u'
    using that step remove_relationship_Inr [of env m x "fst u" "snd u" "fst u'" "snd u'"]
    by (metis in_set_zipE prod.collapse)
  then show ?thesis
    using foldE_invariant [OF run [unfolded removeRelationships_def], where P = "\<lambda>u. P (fst u)"] assms(2) by blast
qed

lemma addRelationships_invariant:
  assumes run: "addRelationships env m added t = Inr t'" and "P (fst t)"
    and step: "\<And>r db e. r \<in> set added \<Longrightarrow> P db \<Longrightarrow> marshal_relationship env r = Inr e \<Longrightarrow>
      P (set_relationship (rel_key r) e db)"
  shows "P (fst t')"
proof -
  have "P (fst u')" if "x \<in> set (zip added (readRelationshipValues (fst t) added))" "P (fst u)"
    "add_relationship env m x u = Inr u'" for x u u'
    using that step add_relationship_Inr [of env m x "fst u" "snd u" "fst u'" "snd u'"]
    by (metis in_set_zipE prod.collapse)
  then show ?thesis
    using foldE_invariant [OF run [unfolded addRelationships_def], where P = "\<lambda>u. P (fst u)"] assms(2) by blast
qed

lemma applyRelationshipChanges_invariant:
  assumes run: "applyRelationshipChanges env m changesList t = Inr t'" and "P (fst t)"
    and clear: "\<And>c r db. c \<in> set changesList \<Longrightarrow> r \<in> set (rels_remove c) \<Longrightarrow> P db \<Longrightarrow> P (clear_relationship (rel_key r) db)"
    and set: "\<And>c r db e. c \<in> set changesList \<Longrightarrow> r \<in> set (rels_add c) \<Longrightarrow> P db \<Longrightarrow>
      marshal_relationship env r = Inr e \<Longrightarrow> P (set_relationship (rel_key r) e db)"
  shows "P (fst t')"
proof -
  have step: "P (fst u')" if c: "c \<in> set changesList" and u: "P (fst u)" and run': "apply_change_set env m c u = Inr u'" for c u u'
  proof -
    obtain v where v: "removeRelationships env m (rels_remove c) u = Inr v" "addRelationships env m (rels_add c) v = Inr u'"
      using run' by (auto simp: apply_change_set_def err_simps)
    have "P (fst v)" by (rule removeRelationships_invariant [OF v(1), where P = P]) (use u c clear in auto)
    then show ?thesis by (rule addRelationships_invariant [OF v(2), where P = P]) (use set c in auto)
  qed
  show ?thesis
    using foldE_invariant [OF run [unfolded applyRelationshipChanges_def], where P = "\<lambda>u. P (fst u)"] assms(2) step by blast
qed

lemma applyRelationshipChanges_ok:
  assumes "applyRelationshipChanges env m changesList t = Inr t'" "rels_ok (fst t)"
  shows "rels_ok (fst t') \<and> only_rels (fst t) (fst t')"
proof -
  have "rels_ok (fst t') \<and> only_rels (fst t) (fst t')"
    by (rule applyRelationshipChanges_invariant [OF assms(1), where P = "\<lambda>d. rels_ok d \<and> only_rels (fst t) d"])
      (use assms(2) in \<open>auto intro: rels_ok_clear rels_ok_set marshal_relationship_fits only_rels_trans\<close>)
  then show ?thesis .
qed

section \<open>Consistency of reference claims\<close>

text \<open>
  What the code relies on of the UUID package: \<open>uuid.Parse\<close> reads back what \<open>UUID.String\<close> prints and
  rejects the empty string, and a printed UUID is not empty.
\<close>

definition uuid_law :: "lib \<Rightarrow> bool" where
  "uuid_law lib \<longleftrightarrow>
     lib_uuid_parse lib [] = None \<and>
     (\<forall>u. lib_uuid_parse lib (lib_uuid_string lib u) = Some u \<and> lib_uuid_string lib u \<noteq> [])"

text \<open>The forward claims and the reverse entries of nodes describe each other.\<close>

definition refs_ok :: "lib \<Rightarrow> db \<Rightarrow> bool" where
  "refs_ok lib db \<longleftrightarrow>
     (\<forall>o' n t e. fmlookup (db_ref_owned db) (o', n, t) = Some e \<longrightarrow>
        fmlookup (db_ref_keys db) (o', t, e) = Some (lib_uuid_string lib n)) \<and>
     (\<forall>o' t e owner. fmlookup (db_ref_keys db) (o', t, e) = Some owner \<longrightarrow>
        (\<exists>n. owner = lib_uuid_string lib n \<and> fmlookup (db_ref_owned db) (o', n, t) = Some e))"

lemma uuid_lawD:
  "uuid_law lib \<Longrightarrow> lib_uuid_parse lib (lib_uuid_string lib u) = Some u"
  "uuid_law lib \<Longrightarrow> lib_uuid_string lib u \<noteq> []"
  "uuid_law lib \<Longrightarrow> lib_uuid_parse lib [] = None"
  unfolding uuid_law_def by blast+

lemma uuid_string_inject:
  "uuid_law lib \<Longrightarrow> lib_uuid_string lib a = lib_uuid_string lib b \<longleftrightarrow> a = b"
  by (metis option.inject uuid_lawD(1))

lemma refs_ok_owned:
  "refs_ok lib db \<Longrightarrow> fmlookup (db_ref_owned db) (o', n, t) = Some e \<Longrightarrow>
    fmlookup (db_ref_keys db) (o', t, e) = Some (lib_uuid_string lib n)"
  unfolding refs_ok_def by blast

lemma refs_ok_forward:
  "refs_ok lib db \<Longrightarrow> fmlookup (db_ref_keys db) (o', t, e) = Some owner \<Longrightarrow>
    \<exists>n. owner = lib_uuid_string lib n \<and> fmlookup (db_ref_owned db) (o', n, t) = Some e"
  unfolding refs_ok_def by blast

lemma refs_okI:
  assumes "\<And>o' n t e. fmlookup (db_ref_owned db) (o', n, t) = Some e \<Longrightarrow>
      fmlookup (db_ref_keys db) (o', t, e) = Some (lib_uuid_string lib n)"
    and "\<And>o' t e owner. fmlookup (db_ref_keys db) (o', t, e) = Some owner \<Longrightarrow>
      \<exists>n. owner = lib_uuid_string lib n \<and> fmlookup (db_ref_owned db) (o', n, t) = Some e"
  shows "refs_ok lib db"
  using assms unfolding refs_ok_def by blast

lemma refs_ok_cong:
  "db_ref_keys db' = db_ref_keys db \<Longrightarrow> db_ref_owned db' = db_ref_owned db \<Longrightarrow> refs_ok lib db' = refs_ok lib db"
  by (simp add: refs_ok_def)

lemma clearReferenceKeys_owned [simp]:
  "fmlookup (db_ref_owned (clearReferenceKeys orgID nodeID db)) (o', n, t) =
     (if o' = orgID \<and> n = nodeID then None else fmlookup (db_ref_owned db) (o', n, t))"
  by (simp add: clearReferenceKeys_def)

lemma clearReferenceKeys_keys:
  "fmlookup (db_ref_keys (clearReferenceKeys orgID nodeID db)) (o', t, e) =
     (if o' = orgID \<and> fmlookup (db_ref_owned db) (orgID, nodeID, t) = Some e then None
      else fmlookup (db_ref_keys db) (o', t, e))"
proof -
  let ?f = "\<lambda>((_, _, template), encoded). (orgID, template, encoded)"
  let ?owned = "kv_range (\<lambda>(o', n, _). o' = orgID \<and> n = nodeID) (db_ref_owned db)"
  have "fmlookup (db_ref_keys (clearReferenceKeys orgID nodeID db)) (o', t, e) =
      (if (o', t, e) \<in> ?f ` set ?owned then None else fmlookup (db_ref_keys db) (o', t, e))"
    unfolding clearReferenceKeys_def Let_def by (simp add: fold_fmdrop_lookup)
  moreover have "(o', t, e) \<in> ?f ` set ?owned \<longleftrightarrow> o' = orgID \<and> fmlookup (db_ref_owned db) (orgID, nodeID, t) = Some e"
  proof
    assume "(o', t, e) \<in> ?f ` set ?owned"
    then obtain a b c d where "((a, b, c), d) \<in> set ?owned" "(o', t, e) = (orgID, c, d)" by auto
    then show "o' = orgID \<and> fmlookup (db_ref_owned db) (orgID, nodeID, t) = Some e"
      by (auto simp: kv_simps)
  next
    assume "o' = orgID \<and> fmlookup (db_ref_owned db) (orgID, nodeID, t) = Some e"
    then have "((orgID, nodeID, t), e) \<in> set ?owned" "o' = orgID" by (auto simp: kv_simps)
    then show "(o', t, e) \<in> ?f ` set ?owned" by force
  qed
  ultimately show ?thesis by simp
qed

lemma clearReferenceKeys_ok:
  assumes "refs_ok lib db" "uuid_law lib" shows "refs_ok lib (clearReferenceKeys orgID nodeID db)"
proof (rule refs_okI)
  fix o' n t e
  assume "fmlookup (db_ref_owned (clearReferenceKeys orgID nodeID db)) (o', n, t) = Some e"
  then have own: "fmlookup (db_ref_owned db) (o', n, t) = Some e" "\<not> (o' = orgID \<and> n = nodeID)"
    by (simp_all split: if_splits)
  have "\<not> (o' = orgID \<and> fmlookup (db_ref_owned db) (orgID, nodeID, t) = Some e)"
  proof
    assume "o' = orgID \<and> fmlookup (db_ref_owned db) (orgID, nodeID, t) = Some e"
    then have "lib_uuid_string lib n = lib_uuid_string lib nodeID"
      using refs_ok_owned [OF assms(1) own(1)] refs_ok_owned [OF assms(1), of orgID nodeID t e] by simp
    then show False
      using own(2) \<open>o' = orgID \<and> _\<close> uuid_string_inject [OF assms(2)] by blast
  qed
  then show "fmlookup (db_ref_keys (clearReferenceKeys orgID nodeID db)) (o', t, e) = Some (lib_uuid_string lib n)"
    using refs_ok_owned [OF assms(1) own(1)] by (simp add: clearReferenceKeys_keys)
next
  fix o' t e owner
  assume "fmlookup (db_ref_keys (clearReferenceKeys orgID nodeID db)) (o', t, e) = Some owner"
  then have k: "fmlookup (db_ref_keys db) (o', t, e) = Some owner"
    "\<not> (o' = orgID \<and> fmlookup (db_ref_owned db) (orgID, nodeID, t) = Some e)"
    by (simp_all add: clearReferenceKeys_keys split: if_splits)
  then obtain n where n: "owner = lib_uuid_string lib n" "fmlookup (db_ref_owned db) (o', n, t) = Some e"
    using refs_ok_forward [OF assms(1)] by blast
  then have "\<not> (o' = orgID \<and> n = nodeID)" using k(2) by blast
  then show "\<exists>n. owner = lib_uuid_string lib n \<and>
      fmlookup (db_ref_owned (clearReferenceKeys orgID nodeID db)) (o', n, t) = Some e"
    using n by (intro exI [of _ n]) simp
qed

text \<open>Claiming one reference for a template that the node holds nothing for yet.\<close>

lemma claim_reference_cases:
  assumes "refs_ok lib db" "uuid_law lib" "fmlookup (db_ref_owned db) (orgID, nodeID, ref_template key) = None"
  shows "claim_reference lib orgID nodeID key db =
    (if fmlookup (db_ref_keys db) (orgID, ref_template key, ref_encoded key) = None
     then Inr (db\<lparr>db_ref_keys := fmupd (orgID, ref_template key, ref_encoded key) (lib_uuid_string lib nodeID) (db_ref_keys db),
            db_ref_owned := fmupd (orgID, nodeID, ref_template key) (ref_encoded key) (db_ref_owned db)\<rparr>)
     else Inl ErrConflict)"
proof (cases "fmlookup (db_ref_keys db) (orgID, ref_template key, ref_encoded key)")
  case None
  then show ?thesis by (simp add: claim_reference_def)
next
  case (Some owner)
  then obtain n where n: "owner = lib_uuid_string lib n"
    "fmlookup (db_ref_owned db) (orgID, n, ref_template key) = Some (ref_encoded key)"
    using refs_ok_forward [OF assms(1)] by blast
  then have "n \<noteq> nodeID" using assms(3) by auto
  then show ?thesis using Some n uuid_lawD [OF assms(2)] by (simp add: claim_reference_def)
qed

lemma claim_reference_ok:
  assumes "refs_ok lib db" "uuid_law lib" "fmlookup (db_ref_owned db) (orgID, nodeID, ref_template key) = None"
    and "claim_reference lib orgID nodeID key db = Inr db'"
  shows "refs_ok lib db'"
    "db_ref_owned db' = fmupd (orgID, nodeID, ref_template key) (ref_encoded key) (db_ref_owned db)"
    "db' = db\<lparr>db_ref_keys := db_ref_keys db', db_ref_owned := db_ref_owned db'\<rparr>"
proof -
  have free: "fmlookup (db_ref_keys db) (orgID, ref_template key, ref_encoded key) = None"
    and db': "db' = db\<lparr>db_ref_keys := fmupd (orgID, ref_template key, ref_encoded key) (lib_uuid_string lib nodeID) (db_ref_keys db),
            db_ref_owned := fmupd (orgID, nodeID, ref_template key) (ref_encoded key) (db_ref_owned db)\<rparr>"
    using assms(4) claim_reference_cases [OF assms(1-3)] by (auto split: if_splits)
  show "db_ref_owned db' = fmupd (orgID, nodeID, ref_template key) (ref_encoded key) (db_ref_owned db)"
    "db' = db\<lparr>db_ref_keys := db_ref_keys db', db_ref_owned := db_ref_owned db'\<rparr>"
    by (simp_all add: db')
  show "refs_ok lib db'"
  proof (rule refs_okI)
    fix o' n t e assume "fmlookup (db_ref_owned db') (o', n, t) = Some e"
    then show "fmlookup (db_ref_keys db') (o', t, e) = Some (lib_uuid_string lib n)"
      using free refs_ok_owned [OF assms(1), of o' n t e] by (auto simp: db' split: if_splits)
  next
    fix o' t e owner assume "fmlookup (db_ref_keys db') (o', t, e) = Some owner"
    then consider "(o', t, e) = (orgID, ref_template key, ref_encoded key)" "owner = lib_uuid_string lib nodeID"
      | "fmlookup (db_ref_keys db) (o', t, e) = Some owner"
      unfolding db' by (cases "(o', t, e) = (orgID, ref_template key, ref_encoded key)") (auto simp: eq_commute)
    then show "\<exists>n. owner = lib_uuid_string lib n \<and> fmlookup (db_ref_owned db') (o', n, t) = Some e"
    proof cases
      case 1
      then show ?thesis by (auto simp: db')
    next
      case 2
      then obtain n where "owner = lib_uuid_string lib n" "fmlookup (db_ref_owned db) (o', n, t) = Some e"
        using refs_ok_forward [OF assms(1)] by blast
      then show ?thesis using assms(3) by (intro exI [of _ n]) (auto simp: db')
    qed
  qed
qed

definition only_refs :: "db \<Rightarrow> db \<Rightarrow> bool" where
  "only_refs db db' \<longleftrightarrow> db' = db\<lparr>db_ref_keys := db_ref_keys db', db_ref_owned := db_ref_owned db'\<rparr>"

lemma only_refs_refl [simp]: "only_refs db db"
  by (simp add: only_refs_def)

lemma only_refs_trans: "only_refs a b \<Longrightarrow> only_refs b c \<Longrightarrow> only_refs a c"
  by (cases a; cases b; cases c) (simp add: only_refs_def)

lemma only_refsD:
  assumes "only_refs db db'"
  shows "db_nodes db' = db_nodes db" "db_views db' = db_views db" "db_resolves db' = db_resolves db"
    "db_rels db' = db_rels db" "db_rels_rev db' = db_rels_rev db" "db_props db' = db_props db"
    "db_idempotency db' = db_idempotency db" "db_checkpoints db' = db_checkpoints db"
    "db_fence db' = db_fence db" "db_activation db' = db_activation db" "db_types db' = db_types db"
    "db_types_by_key db' = db_types_by_key db" "db_defs db' = db_defs db" "db_epochs db' = db_epochs db"
    "db_outbox db' = db_outbox db" "db_search db' = db_search db"
  using assms by (cases db; cases db'; simp add: only_refs_def)+

lemma claim_reference_frame: "claim_reference lib orgID nodeID key db = Inr db' \<Longrightarrow> only_refs db db'"
  by (auto simp: claim_reference_def only_refs_def Let_def split: option.splits if_splits)

lemma clearReferenceKeys_frame [simp]: "only_refs db (clearReferenceKeys orgID nodeID db)"
  by (simp add: clearReferenceKeys_def only_refs_def Let_def)

lemma writeReferenceKeys_frame:
  assumes "writeReferenceKeys lib orgID nodeID keys db = Inr db'" shows "only_refs db db'"
  by (rule foldE_invariant [OF assms [unfolded writeReferenceKeys_def], where P = "only_refs db"])
    (auto intro: only_refs_trans claim_reference_frame)

lemma claimReferenceKeys_frame:
  "claimReferenceKeys lib orgID nodeID keys db = Inr db' \<Longrightarrow> only_refs db db'"
  using writeReferenceKeys_frame by (auto simp: claimReferenceKeys_def split: if_splits)

definition claims_of :: "reference_key list \<Rightarrow> string \<Rightarrow> string option" where
  "claims_of keys = map_of (map (\<lambda>k. (ref_template k, ref_encoded k)) keys)"

lemma claim_loop:
  assumes "foldE (claim_reference lib orgID nodeID) keys db = Inr db'"
    and "refs_ok lib db" "uuid_law lib" "distinct (map ref_template keys)"
    and "\<And>k. k \<in> set keys \<Longrightarrow> fmlookup (db_ref_owned db) (orgID, nodeID, ref_template k) = None"
  shows "refs_ok lib db' \<and>
    (\<forall>o' n t. fmlookup (db_ref_owned db') (o', n, t) =
      (if o' = orgID \<and> n = nodeID \<and> t \<in> ref_template ` set keys then claims_of keys t
       else fmlookup (db_ref_owned db) (o', n, t)))"
  using assms
proof (induction keys arbitrary: db)
  case Nil
  then show ?case by simp
next
  case (Cons key keys)
  obtain d where d: "claim_reference lib orgID nodeID key db = Inr d"
    "foldE (claim_reference lib orgID nodeID) keys d = Inr db'"
    using Cons.prems(1) by (auto simp: err_simps)
  note step = claim_reference_ok [OF Cons.prems(2,3) Cons.prems(5) [of key] d(1), simplified]
  have own: "fmlookup (db_ref_owned d) (orgID, nodeID, ref_template k) = None" if "k \<in> set keys" for k
  proof -
    have "ref_template key \<notin> ref_template ` set keys" using Cons.prems(4) by simp
    then have "ref_template k \<noteq> ref_template key" using that by (metis imageI)
    then show ?thesis using Cons.prems(5) [of k] that step(2) by simp
  qed
  have ih: "refs_ok lib db' \<and> (\<forall>o' n t. fmlookup (db_ref_owned db') (o', n, t) =
      (if o' = orgID \<and> n = nodeID \<and> t \<in> ref_template ` set keys then claims_of keys t
       else fmlookup (db_ref_owned d) (o', n, t)))"
    using Cons.IH [OF d(2) step(1) Cons.prems(3)] Cons.prems(4) own by simp
  have "ref_template key \<notin> ref_template ` set keys" using Cons.prems(4) by simp
  then show ?case using ih step(2) by (auto simp: claims_of_def)
qed

lemma writeReferenceKeys_ok:
  assumes "writeReferenceKeys lib orgID nodeID keys db = Inr db'"
    and "refs_ok lib db" "uuid_law lib" "distinct (map ref_template keys)"
  shows "refs_ok lib db'"
    "fmlookup (db_ref_owned db') (o', n, t) =
      (if o' = orgID \<and> n = nodeID then claims_of keys t else fmlookup (db_ref_owned db) (o', n, t))"
proof -
  have claims: "claims_of keys t = None" if "t \<notin> ref_template ` set keys" for t
    using that by (auto simp: claims_of_def map_of_eq_None_iff image_image)
  have loop: "refs_ok lib db' \<and> (\<forall>o' n t. fmlookup (db_ref_owned db') (o', n, t) =
      (if o' = orgID \<and> n = nodeID \<and> t \<in> ref_template ` set keys then claims_of keys t
       else fmlookup (db_ref_owned (clearReferenceKeys orgID nodeID db)) (o', n, t)))"
    by (rule claim_loop [OF assms(1) [unfolded writeReferenceKeys_def] clearReferenceKeys_ok [OF assms(2,3)] assms(3,4)])
      simp
  then show "refs_ok lib db'" by blast
  show "fmlookup (db_ref_owned db') (o', n, t) =
      (if o' = orgID \<and> n = nodeID then claims_of keys t else fmlookup (db_ref_owned db) (o', n, t))"
    using loop claims by simp
qed

section \<open>Node records\<close>

text \<open>
  A stored node record decodes to a node with the key it is stored under, whose properties are
  messages as the encoder writes them; a resolution record decodes.
\<close>

definition node_key :: "node \<Rightarrow> uuid \<times> string \<times> uuid" where
  "node_key n = (node_org n, node_kind n, node_id n)"

definition stored_raw :: "raw \<Rightarrow> bool" where
  "stored_raw r \<longleftrightarrow> \<not> raw_empty r \<and> enc_value r \<noteq> None"

definition nodes_ok :: "db \<Rightarrow> bool" where
  "nodes_ok db \<longleftrightarrow>
     (\<forall>k e. fmlookup (db_nodes db) k = Some e \<longrightarrow>
        (\<exists>n. decode e = Some n \<and> k = node_key n \<and> fmpred (\<lambda>_. stored_raw) (node_props n))) \<and>
     (\<forall>u e. fmlookup (db_resolves db) u = Some e \<longrightarrow> (\<exists>r. decode e = Some r))"

definition store_ok :: "lib \<Rightarrow> db \<Rightarrow> bool" where
  "store_ok lib db \<longleftrightarrow> nodes_ok db \<and> rels_ok db \<and> refs_ok lib db \<and> search_ok lib (db_search db)"

lemma html_escape_Nil_iff [simp]: "html_escape cs = [] \<longleftrightarrow> cs = []"
  by (cases cs) auto

lemma stored_raw_stored: "raw_ok r \<Longrightarrow> stored_raw (raw_stored r)"
  by (auto simp: raw_ok_def raw_stored_def stored_raw_def json_null_def)

lemma storedUUID_raw_stored: "uuid_law lib \<Longrightarrow> raw_ok r \<Longrightarrow> storedUUID lib (raw_stored r) = storedUUID lib r"
  using uuid_lawD(3) [of lib]
  by (auto simp: storedUUID_def raw_stored_def raw_ok_def unmarshal_def json_null_def)

lemma storedUUID_nil [simp]: "storedUUID lib raw_nil = uuid_nil"
  by (simp add: storedUUID_def)

lemma marshal_node_Inr:
  assumes "marshal_node body n = Inr e"
  shows "decode e = Some (n\<lparr>node_props := fmmap raw_stored (node_props n)\<rparr>)"
    "enc_value e = Some (n\<lparr>node_props := fmmap raw_stored (node_props n)\<rparr>)"
    "enc_text e \<noteq> []" "fmpred (\<lambda>_. raw_ok) (node_props n)"
  using assms by (auto simp: marshal_node_def marshal_props_def Let_def err_simps split: if_splits)

lemma prop_of_fmmap_raw_stored:
  assumes "uuid_law lib" "fmpred (\<lambda>_. raw_ok) p"
  shows "storedUUID lib (prop_of (fmmap raw_stored p) name) = storedUUID lib (prop_of p name)"
  using assms(2) storedUUID_raw_stored [OF assms(1)]
  by (cases "fmlookup p name") (auto simp: prop_of_def intro: fmpredD)

definition only_nodes :: "db \<Rightarrow> db \<Rightarrow> bool" where
  "only_nodes db db' \<longleftrightarrow>
     db' = db\<lparr>db_nodes := db_nodes db', db_views := db_views db', db_resolves := db_resolves db'\<rparr>"

lemma only_nodesD:
  assumes "only_nodes db db'"
  shows "db_rels db' = db_rels db" "db_rels_rev db' = db_rels_rev db"
    "db_ref_keys db' = db_ref_keys db" "db_ref_owned db' = db_ref_owned db" "db_props db' = db_props db"
    "db_idempotency db' = db_idempotency db" "db_checkpoints db' = db_checkpoints db"
    "db_fence db' = db_fence db" "db_activation db' = db_activation db" "db_types db' = db_types db"
    "db_types_by_key db' = db_types_by_key db" "db_defs db' = db_defs db" "db_epochs db' = db_epochs db"
    "db_outbox db' = db_outbox db" "db_search db' = db_search db"
  using assms by (cases db; cases db'; simp add: only_nodes_def)+

lemma writeNodeRecords_Inr:
  assumes "writeNodeRecords env n view db = Inr (encoded, db')"
  obtains e where "marshal_node (env_node_text env) n = Inr e" "encoded = enc_text e"
    "db_nodes db' = fmupd (node_key n) e (db_nodes db)"
    "db_resolves db' = fmupd (node_id n) (json_object
       (env_resolve_text env \<lparr>resolve_org = node_org n, resolve_kind = node_kind n\<rparr>)
       \<lparr>resolve_org = node_org n, resolve_kind = node_kind n\<rparr>) (db_resolves db)"
    "only_nodes db db'"
  using assms
  by (cases view) (auto simp: writeNodeRecords_def Let_def err_simps node_key_def only_nodes_def)

lemma nodes_ok_node:
  "nodes_ok db \<Longrightarrow> fmlookup (db_nodes db) k = Some e \<Longrightarrow>
    \<exists>n. decode e = Some n \<and> k = node_key n \<and> fmpred (\<lambda>_. stored_raw) (node_props n)"
  unfolding nodes_ok_def by blast

lemma nodes_ok_resolve:
  "nodes_ok db \<Longrightarrow> fmlookup (db_resolves db) u = Some e \<Longrightarrow> \<exists>r. decode e = Some r"
  unfolding nodes_ok_def by blast

lemma nodes_okI:
  assumes "\<And>k e. fmlookup (db_nodes db) k = Some e \<Longrightarrow>
      \<exists>n. decode e = Some n \<and> k = node_key n \<and> fmpred (\<lambda>_. stored_raw) (node_props n)"
    and "\<And>u e. fmlookup (db_resolves db) u = Some e \<Longrightarrow> \<exists>r. decode e = Some r"
  shows "nodes_ok db"
  using assms unfolding nodes_ok_def by blast

lemma nodes_ok_cong:
  "db_nodes db' = db_nodes db \<Longrightarrow> db_resolves db' = db_resolves db \<Longrightarrow> nodes_ok db' = nodes_ok db"
  by (simp add: nodes_ok_def)

lemma writeNodeRecords_ok:
  assumes "writeNodeRecords env n view db = Inr (encoded, db')" "nodes_ok db"
  shows "nodes_ok db'"
proof -
  obtain e where e: "marshal_node (env_node_text env) n = Inr e"
    "db_nodes db' = fmupd (node_key n) e (db_nodes db)"
    "db_resolves db' = fmupd (node_id n) (json_object
       (env_resolve_text env \<lparr>resolve_org = node_org n, resolve_kind = node_kind n\<rparr>)
       \<lparr>resolve_org = node_org n, resolve_kind = node_kind n\<rparr>) (db_resolves db)"
    using writeNodeRecords_Inr [OF assms(1)] by metis
  have stored: "fmpred (\<lambda>_. stored_raw) (fmmap raw_stored (node_props n))"
    using marshal_node_Inr(4) [OF e(1)] by (auto simp: fmpred_iff intro: stored_raw_stored)
  show ?thesis
  proof (rule nodes_okI)
    fix k d assume "fmlookup (db_nodes db') k = Some d"
    then consider "k = node_key n" "d = e" | "fmlookup (db_nodes db) k = Some d"
      unfolding e(2) by (rule fmupd_SomeE)
    then show "\<exists>m. decode d = Some m \<and> k = node_key m \<and> fmpred (\<lambda>_. stored_raw) (node_props m)"
    proof cases
      case 1
      then show ?thesis using marshal_node_Inr(1) [OF e(1)] stored by (simp add: node_key_def)
    next
      case 2
      then show ?thesis by (rule nodes_ok_node [OF assms(2)])
    qed
  next
    fix u d assume "fmlookup (db_resolves db') u = Some d"
    then show "\<exists>r. decode d = Some r"
      using nodes_ok_resolve [OF assms(2)] by (auto simp: e(3) split: if_splits)
  qed
qed

lemma readMutationSource_cong:
  "db_nodes db' = db_nodes db \<Longrightarrow> db_resolves db' = db_resolves db \<Longrightarrow>
    readMutationSource db' = readMutationSource db"
  by (intro ext) (simp only: readMutationSource_def)

lemma decode_Some: "decode e = Some x \<longleftrightarrow> enc_text e \<noteq> [] \<and> enc_value e = Some x"
  by (simp add: decode_def)

lemma readMutationSource_total:
  assumes "nodes_ok db"
  shows "\<exists>s. readMutationSource db orgID nodeID = Inr s"
proof -
  have "\<exists>r. enc_value e = Some r" if "kv_get (db_resolves db) nodeID = Some e" for e
    using that nodes_ok_resolve [OF assms, of nodeID e] by (auto simp: kv_get_Some decode_Some)
  moreover have "\<exists>n. enc_value e = Some n" if "kv_get (db_nodes db) k = Some e" for k e
    using that nodes_ok_node [OF assms, of k e] by (auto simp: kv_get_Some decode_Some)
  ultimately show ?thesis
    by (fastforce simp: readMutationSource_def split: option.splits)
qed

lemma readMutationSource_exists:
  assumes "readMutationSource db orgID nodeID = Inr s" "ms_exists s" "nodes_ok db"
  shows "node_key (ms_node s) = (orgID, ms_kind s, nodeID)" "fmpred (\<lambda>_. stored_raw) (node_props (ms_node s))"
    "\<exists>e. fmlookup (db_nodes db) (orgID, ms_kind s, nodeID) = Some e \<and> enc_text e = ms_encoding s \<and>
      decode e = Some (ms_node s)"
proof -
  obtain kind e where e: "kv_get (db_nodes db) (orgID, kind, nodeID) = Some e" "enc_value e = Some (ms_node s)"
    "ms_kind s = kind" "ms_encoding s = enc_text e"
    using assms(1,2) by (auto simp: readMutationSource_def absent_source_def split: option.splits if_splits)
  have look: "fmlookup (db_nodes db) (orgID, kind, nodeID) = Some e" "decode e = Some (ms_node s)"
    using e by (auto simp: kv_get_Some decode_Some)
  obtain n where n: "decode e = Some n" "(orgID, kind, nodeID) = node_key n" "fmpred (\<lambda>_. stored_raw) (node_props n)"
    using nodes_ok_node [OF assms(3) look(1)] by blast
  have "n = ms_node s" using n(1) look(2) by simp
  then show "node_key (ms_node s) = (orgID, ms_kind s, nodeID)" "fmpred (\<lambda>_. stored_raw) (node_props (ms_node s))"
    using n e(3) by auto
  show "\<exists>e. fmlookup (db_nodes db) (orgID, ms_kind s, nodeID) = Some e \<and> enc_text e = ms_encoding s \<and>
      decode e = Some (ms_node s)"
    using look e(3,4) by auto
qed

lemma readMutationSource_absent:
  "readMutationSource db orgID nodeID = Inr s \<Longrightarrow> \<not> ms_exists s \<Longrightarrow> s = absent_source"
  by (auto simp: readMutationSource_def split: option.splits if_splits)

lemma readMutationSource_write:
  assumes "writeNodeRecords env n view db = Inr (encoded, db')"
  shows "readMutationSource db' orgID nodeID =
    (if nodeID = node_id n
     then (if orgID = node_org n
       then Inr \<lparr>ms_exists = True, ms_kind = node_kind n, ms_encoding = encoded,
         ms_node = n\<lparr>node_props := fmmap raw_stored (node_props n)\<rparr>\<rparr>
       else Inr absent_source)
     else readMutationSource db orgID nodeID)"
proof -
  obtain e where e: "marshal_node (env_node_text env) n = Inr e" "encoded = enc_text e"
    "db_nodes db' = fmupd (node_key n) e (db_nodes db)"
    "db_resolves db' = fmupd (node_id n) (json_object
       (env_resolve_text env \<lparr>resolve_org = node_org n, resolve_kind = node_kind n\<rparr>)
       \<lparr>resolve_org = node_org n, resolve_kind = node_kind n\<rparr>) (db_resolves db)"
    using writeNodeRecords_Inr [OF assms(1)] by metis
  show ?thesis
  proof (cases "nodeID = node_id n")
    case True
    then show ?thesis
      using marshal_node_Inr [OF e(1)] e by (auto simp: readMutationSource_def node_key_def)
  next
    case False
    then have "kv_get (db_nodes db') (o', kind, nodeID) = kv_get (db_nodes db) (o', kind, nodeID)" for o' kind
      using e(3) by (simp add: node_key_def)
    then show ?thesis using False e(4) by (simp add: readMutationSource_def split: option.split)
  qed
qed

section \<open>Property indexes\<close>

lemma reconcile_other_entry:
  "(o', k, p, v, i) \<noteq> property_entry current name (prop_of oldProps name) \<Longrightarrow>
   (o', k, p, v, i) \<noteq> property_entry current name (prop_of (node_props current) name) \<Longrightarrow>
   (o', k, p, v, i) |\<in>| reconcile_step current oldProps name index \<longleftrightarrow> (o', k, p, v, i) |\<in>| index"
  by (auto simp: reconcile_step_def Let_def)

lemma reconcile_own_entry:
  "property_entry current name value |\<in>| reconcile_step current oldProps name index \<longleftrightarrow>
    (if enc_text (prop_of oldProps name) = enc_text (prop_of (node_props current) name)
     then property_entry current name value |\<in>| index
     else \<not> raw_empty value \<and> enc_text value = enc_text (prop_of (node_props current) name) \<or>
       property_entry current name value |\<in>| index \<and>
       (enc_text value \<noteq> enc_text (prop_of oldProps name) \<or> raw_empty value))"
  by (auto simp: reconcile_step_def property_entry_def encodePropertyValue_def Let_def)

definition in_sync :: "node \<Rightarrow> props \<Rightarrow> string \<Rightarrow> (uuid \<times> string \<times> string \<times> bytes \<times> uuid) fset \<Rightarrow> bool" where
  "in_sync current p name index \<longleftrightarrow>
     (\<forall>value. property_entry current name value |\<in>| index \<longleftrightarrow>
        \<not> raw_empty value \<and> enc_text value = enc_text (prop_of p name))"

lemma in_syncD:
  "in_sync current p name index \<Longrightarrow>
    property_entry current name value |\<in>| index \<longleftrightarrow> \<not> raw_empty value \<and> enc_text value = enc_text (prop_of p name)"
  unfolding in_sync_def by blast

lemma in_syncI:
  "(\<And>value. property_entry current name value |\<in>| index \<longleftrightarrow>
      \<not> raw_empty value \<and> enc_text value = enc_text (prop_of p name)) \<Longrightarrow> in_sync current p name index"
  unfolding in_sync_def by blast

lemma reconcile_step_sync:
  assumes "in_sync current oldProps name index"
  shows "in_sync current (node_props current) name (reconcile_step current oldProps name index)"
  by (rule in_syncI) (auto simp: reconcile_own_entry in_syncD [OF assms])

lemma reconcile_step_synced:
  assumes "in_sync current (node_props current) name index"
  shows "in_sync current (node_props current) name (reconcile_step current oldProps name index)"
  by (rule in_syncI) (auto simp: reconcile_own_entry in_syncD [OF assms])

lemma reconcile_step_other:
  assumes "p \<noteq> name \<or> (o', k, i) \<noteq> node_key current"
  shows "(o', k, p, v, i) |\<in>| reconcile_step current oldProps name index \<longleftrightarrow> (o', k, p, v, i) |\<in>| index"
  by (rule reconcile_other_entry) (use assms in \<open>auto simp: property_entry_def node_key_def\<close>)

lemma reconcile_fold_other:
  assumes "p \<notin> set names \<or> (o', k, i) \<noteq> node_key current"
  shows "(o', k, p, v, i) |\<in>| fold (reconcile_step current oldProps) names index \<longleftrightarrow> (o', k, p, v, i) |\<in>| index"
  using assms
proof (induction names arbitrary: index)
  case (Cons name names)
  have "p \<notin> set names \<or> (o', k, i) \<noteq> node_key current" "p \<noteq> name \<or> (o', k, i) \<noteq> node_key current"
    using Cons.prems by auto
  then show ?case using Cons.IH reconcile_step_other by simp
qed simp

lemma reconcile_step_sync_other:
  "p \<noteq> name \<Longrightarrow> in_sync current q p (reconcile_step current oldProps name index) = in_sync current q p index"
  unfolding in_sync_def property_entry_def by (simp add: reconcile_step_other)

lemma reconcile_fold_synced:
  "in_sync current (node_props current) name index \<Longrightarrow>
    in_sync current (node_props current) name (fold (reconcile_step current oldProps) names index)"
proof (induction names arbitrary: index)
  case (Cons x names)
  then show ?case
    by (cases "x = name") (simp_all add: reconcile_step_synced reconcile_step_sync_other)
qed simp

lemma reconcile_fold_sync:
  "name \<in> set names \<Longrightarrow> in_sync current oldProps name index \<Longrightarrow>
    in_sync current (node_props current) name (fold (reconcile_step current oldProps) names index)"
proof (induction names arbitrary: index)
  case (Cons x names)
  show ?case
  proof (cases "x = name")
    case True
    then show ?thesis using reconcile_fold_synced reconcile_step_sync Cons.prems(2) by simp
  next
    case False
    then show ?thesis using Cons by (simp add: reconcile_step_sync_other)
  qed
qed simp

section \<open>Properties\<close>

text \<open>A library whose UUIDs are printed in unary, and an empty store.\<close>

definition unary_lib :: lib where
  "unary_lib = sample_lib
     \<lparr>lib_uuid_parse := (\<lambda>s. if s = [] then None else Some (of_nat (length s - 1))),
      lib_uuid_string := (\<lambda>u. replicate (Suc (unat u)) CHR ''u'')\<rparr>"

definition empty_db :: db where
  "empty_db =
     \<lparr>db_nodes = fmempty, db_views = fmempty, db_resolves = fmempty, db_rels = fmempty, db_rels_rev = {||},
      db_ref_keys = fmempty, db_ref_owned = fmempty, db_props = {||}, db_idempotency = fmempty,
      db_checkpoints = fmempty, db_fence = fmempty, db_activation = None, db_types = fmempty,
      db_types_by_key = {||}, db_defs = fmempty, db_epochs = fmempty, db_outbox = [],
      db_search = empty_search\<rparr>"

lemma unary_lib_law [simp]: "uuid_law unary_lib"
  by (simp add: uuid_law_def unary_lib_def)

lemma empty_db_ok [simp]: "store_ok lib empty_db"
  by (simp add: store_ok_def nodes_ok_def rels_ok_def refs_ok_def index_consistent_def rel_lookup_def rel_index_def
    empty_db_def)

lemma LookupReference_iff:
  assumes "refs_ok lib db" "uuid_law lib" "n \<noteq> uuid_nil"
  shows "LookupReference lib db o' t e = Inr n \<longleftrightarrow> fmlookup (db_ref_owned db) (o', n, t) = Some e"
proof
  assume "LookupReference lib db o' t e = Inr n"
  then obtain owner where owner: "fmlookup (db_ref_keys db) (o', t, e) = Some owner" "lib_uuid_parse lib owner = Some n"
    using assms(3) by (auto simp: LookupReference_def split: option.splits if_splits)
  then obtain m where "owner = lib_uuid_string lib m" "fmlookup (db_ref_owned db) (o', m, t) = Some e"
    using refs_ok_forward [OF assms(1)] by blast
  then show "fmlookup (db_ref_owned db) (o', n, t) = Some e"
    using owner(2) uuid_lawD(1) [OF assms(2)] by simp
next
  assume "fmlookup (db_ref_owned db) (o', n, t) = Some e"
  then have "fmlookup (db_ref_keys db) (o', t, e) = Some (lib_uuid_string lib n)"
    by (rule refs_ok_owned [OF assms(1)])
  then show "LookupReference lib db o' t e = Inr n"
    using uuid_lawD [OF assms(2)] by (simp add: LookupReference_def)
qed

lemma LookupReference_total:
  assumes "refs_ok lib db" "uuid_law lib"
  shows "\<exists>n. LookupReference lib db o' t e = Inr n"
proof (cases "fmlookup (db_ref_keys db) (o', t, e)")
  case (Some owner)
  then obtain n where "owner = lib_uuid_string lib n" using refs_ok_forward [OF assms(1)] by blast
  then show ?thesis using Some uuid_lawD [OF assms(2)] by (simp add: LookupReference_def)
qed (simp add: LookupReference_def)

text \<open>
  C23: Reference claims. When the plan's references have distinct templates, writing them leaves the
  node with exactly those references: looking one up finds the node, every other node keeps what it
  held, a reference of the node that is not rewritten becomes free, and the forward and reverse
  families still describe each other.
\<close>

theorem writeReferenceKeys_claims:
  assumes "writeReferenceKeys lib orgID nodeID keys db = Inr db'"
    and "refs_ok lib db" "uuid_law lib" "distinct (map ref_template keys)"
  shows "refs_ok lib db' \<and>
    (\<forall>key \<in> set keys. LookupReference lib db' orgID (ref_template key) (ref_encoded key) = Inr nodeID) \<and>
    (\<forall>t e. LookupReference lib db orgID t e = Inr nodeID \<longrightarrow> claims_of keys t \<noteq> Some e \<longrightarrow> nodeID \<noteq> uuid_nil \<longrightarrow>
       LookupReference lib db' orgID t e = Inr uuid_nil) \<and>
    (\<forall>o' t e n. LookupReference lib db o' t e = Inr n \<longrightarrow> n \<noteq> uuid_nil \<longrightarrow> (o', n) \<noteq> (orgID, nodeID) \<longrightarrow>
       LookupReference lib db' o' t e = Inr n)"
proof -
  note ok = writeReferenceKeys_ok [OF assms]
  note look = LookupReference_iff [OF _ assms(3)]
  have held: "LookupReference lib db' orgID (ref_template key) (ref_encoded key) = Inr nodeID" if "key \<in> set keys" for key
  proof -
    have "claims_of keys (ref_template key) = Some (ref_encoded key)"
      using that assms(4) by (auto simp: claims_of_def comp_def intro!: map_of_is_SomeI)
    then have "fmlookup (db_ref_owned db') (orgID, nodeID, ref_template key) = Some (ref_encoded key)"
      using ok(2) by simp
    then show ?thesis using refs_ok_owned [OF ok(1)] uuid_lawD [OF assms(3)] by (simp add: LookupReference_def)
  qed
  have freed: "LookupReference lib db' orgID t e = Inr uuid_nil"
    if own: "fmlookup (db_ref_owned db) (orgID, nodeID, t) = Some e" and new: "claims_of keys t \<noteq> Some e" for t e
  proof -
    have "fmlookup (db_ref_keys db') (orgID, t, e) = None"
    proof (rule ccontr)
      assume "fmlookup (db_ref_keys db') (orgID, t, e) \<noteq> None"
      then obtain m where m: "fmlookup (db_ref_owned db') (orgID, m, t) = Some e"
        using refs_ok_forward [OF ok(1)] by blast
      have "m \<noteq> nodeID" using m new ok(2) [of orgID m t] by auto
      then have "fmlookup (db_ref_owned db) (orgID, m, t) = Some e" using m ok(2) [of orgID m t] by simp
      then have "lib_uuid_string lib m = lib_uuid_string lib nodeID"
        using refs_ok_owned [OF assms(2) own] refs_ok_owned [OF assms(2), of orgID m t e] by simp
      then show False using \<open>m \<noteq> nodeID\<close> uuid_string_inject [OF assms(3)] by blast
    qed
    then show ?thesis by (simp add: LookupReference_def)
  qed
  have kept: "LookupReference lib db' o' t e = Inr n"
    if "LookupReference lib db o' t e = Inr n" "n \<noteq> uuid_nil" "(o', n) \<noteq> (orgID, nodeID)" for o' t e n
    using that look [OF assms(2) that(2)] look [OF ok(1) that(2)] ok(2) [of o' n t] by (auto split: if_splits)
  show ?thesis
    using ok(1) held freed kept look [OF assms(2)] by blast
qed

theorem writeReferenceKeys_claims_witness:
  "\<exists>db'. writeReferenceKeys unary_lib 1 2 [\<lparr>ref_template = ''t'', ref_encoded = ''A-1''\<rparr>] empty_db = Inr db' \<and>
     LookupReference unary_lib db' 1 ''t'' ''A-1'' = Inr 2"
proof -
  let ?keys = "[\<lparr>ref_template = ''t'', ref_encoded = ''A-1''\<rparr>]"
  have "\<exists>db'. writeReferenceKeys unary_lib 1 2 ?keys empty_db = Inr db'"
    by (simp add: writeReferenceKeys_def claim_reference_def clearReferenceKeys_def empty_db_def)
  then obtain db' where run: "writeReferenceKeys unary_lib 1 2 ?keys empty_db = Inr db'" by blast
  have "refs_ok unary_lib empty_db" using empty_db_ok by (simp add: store_ok_def)
  from writeReferenceKeys_claims [OF run this] run show ?thesis by auto
qed

text \<open>
  C25: Property index reconciliation. For every indexed property whose entries were exactly the old
  value, the index holds exactly the new value afterwards (nothing for an absent value); entries of
  other nodes and of other properties stay as they were.
\<close>

theorem reconcilePropertyIndexes_sync:
  assumes "name \<in> set indexedProps" "in_sync current oldProps name (db_props db)"
  shows "in_sync current (node_props current) name
      (db_props (reconcilePropertyIndexes current oldProps indexedProps db)) \<and>
    (\<forall>o' k p v i. p \<notin> set indexedProps \<or> (o', k, i) \<noteq> node_key current \<longrightarrow>
      ((o', k, p, v, i) |\<in>| db_props (reconcilePropertyIndexes current oldProps indexedProps db) \<longleftrightarrow>
       (o', k, p, v, i) |\<in>| db_props db))"
  using reconcile_fold_sync [OF assms] reconcile_fold_other
  by (simp add: reconcilePropertyIndexes_def)

text \<open>A node with one property, whose text the encoder keeps or compacts.\<close>

definition sample_node :: "raw \<Rightarrow> node" where
  "sample_node value = absentNode\<lparr>node_id := 2, node_org := 1, node_kind := ''task'',
     node_props := fmupd ''title'' value fmempty\<rparr>"

theorem reconcilePropertyIndexes_sync_witness:
  "in_sync (sample_node (Enc [0x31] (Some (JNum ''1'')))) fmempty ''title'' (db_props empty_db) \<and>
   property_entry (sample_node (Enc [0x31] (Some (JNum ''1'')))) ''title'' (Enc [0x31] (Some (JNum ''1''))) |\<in>|
     db_props (reconcilePropertyIndexes (sample_node (Enc [0x31] (Some (JNum ''1'')))) fmempty [''title''] empty_db)"
proof -
  let ?n = "sample_node (Enc [0x31] (Some (JNum ''1'')))"
  have sync: "in_sync ?n fmempty ''title'' (db_props empty_db)"
    by (rule in_syncI) (simp add: empty_db_def)
  have "in_sync ?n (node_props ?n) ''title'' (db_props (reconcilePropertyIndexes ?n fmempty [''title''] empty_db))"
    using reconcilePropertyIndexes_sync [OF _ sync, of "[''title'']"] by simp
  from in_syncD [OF this, of "Enc [0x31] (Some (JNum ''1''))"] sync show ?thesis
    by (simp add: sample_node_def)
qed

text \<open>
  C26: A property value that the encoder rewrites leaves a stale index entry. The index entry is
  written under the bytes of the value as it was sent, the record under the compacted and escaped
  bytes; a later update takes the old value from the record, so it does not clear the entry of the
  value as sent.
\<close>

theorem reconcile_leaves_stale_entry:
  assumes "enc_text (raw_stored value) \<noteq> enc_text value" "\<not> raw_empty value"
    and "node_props created = fmupd name value p"
    and "node_key updated = node_key created" "enc_text (prop_of (node_props updated) name) \<noteq> enc_text value"
  shows "property_entry created name value |\<in>|
    db_props (reconcilePropertyIndexes updated (fmmap raw_stored (node_props created)) [name]
      (writeCreatePropertyIndexes created [name] db))"
proof -
  have entry: "property_entry created name value = property_entry updated name value"
    using assms(4) by (simp add: property_entry_def node_key_def)
  have "prop_of (fmmap raw_stored (node_props created)) name = raw_stored value"
    by (simp add: assms(3) prop_of_def)
  then show ?thesis
    using assms by (simp add: reconcilePropertyIndexes_def writeCreatePropertyIndexes_def entry reconcile_own_entry)
qed

theorem reconcile_leaves_stale_entry_witness:
  "property_entry (sample_node (Enc [0x20, 0x31] (Some (JNum ''1'')))) ''title'' (Enc [0x20, 0x31] (Some (JNum ''1''))) |\<in>|
     db_props (reconcilePropertyIndexes (sample_node (Enc [0x32] (Some (JNum ''2''))))
       (fmmap raw_stored (node_props (sample_node (Enc [0x20, 0x31] (Some (JNum ''1'')))))) [''title'']
       (writeCreatePropertyIndexes (sample_node (Enc [0x20, 0x31] (Some (JNum ''1'')))) [''title''] empty_db))"
  by (rule reconcile_leaves_stale_entry [of _ _ _ fmempty])
    (simp_all add: raw_stored_def sample_node_def node_key_def)

lemma set_map_filter: "set (List.map_filter f xs) = {y. \<exists>x \<in> set xs. f x = Some y}"
  by (induction xs) (auto simp: List.map_filter_simps split: option.splits)

lemma distinct_map_filter:
  "distinct xs \<Longrightarrow> (\<And>x y r. x \<in> set xs \<Longrightarrow> y \<in> set xs \<Longrightarrow> f x = Some r \<Longrightarrow> f y = Some r \<Longrightarrow> x = y) \<Longrightarrow>
    distinct (List.map_filter f xs)"
proof (induction xs)
  case (Cons x xs)
  have "distinct (List.map_filter f xs)" using Cons by simp
  moreover have "r \<notin> set (List.map_filter f xs)" if "f x = Some r" for r
    using that Cons.prems by (fastforce simp: set_map_filter)
  ultimately show ?case by (simp add: List.map_filter_simps split: option.splits)
qed (simp add: List.map_filter_simps)

lemma rels_ok_lookup:
  "rels_ok db \<Longrightarrow> fmlookup (db_rels db) k = Some e \<Longrightarrow> \<exists>r. decode e = Some r \<and> rel_key r = k"
  using rel.consistent_fits [of db k e] by (simp add: rels_ok_def rel_lookup_def rel_fits_def)

lemma rels_ok_reverse:
  "rels_ok db \<Longrightarrow> k |\<in>| db_rels_rev db \<longleftrightarrow> fmlookup (db_rels db) (reverse_key k) \<noteq> None"
  using rel.consistent_index [of db k] reverse_key_reverse
  unfolding rels_ok_def rel_lookup_def rel_index_def rel_entry_def
  by (metis option.exhaust option.simps(3))

lemma outgoing_range_iff:
  "((o', s, t, d), e) \<in> set (outgoing_range db orgID sourceID relationType) \<longleftrightarrow>
    fmlookup (db_rels db) (o', s, t, d) = Some e \<and> o' = orgID \<and> s = sourceID \<and> (relationType = [] \<or> t = relationType)"
  by (auto simp: outgoing_range_def kv_simps)

lemma incoming_range_iff:
  "(o', d, t, s) \<in> set (incoming_range db orgID targetID relationType) \<longleftrightarrow>
    (o', d, t, s) |\<in>| db_rels_rev db \<and> o' = orgID \<and> d = targetID \<and> (relationType = [] \<or> t = relationType)"
  by (auto simp: incoming_range_def)

lemma ListBySource_map_filter:
  "ListBySource db orgID sourceID relationType =
    List.map_filter (\<lambda>(_, e). decode e) (outgoing_range db orgID sourceID relationType)"
  by (simp add: ListBySource_def decodeRelationships_def List.map_filter_def filter_map comp_def case_prod_unfold)

lemma ListBySource_spec:
  assumes "rels_ok db"
  shows "set (ListBySource db orgID nodeID relationType) =
      {r. rel_org r = orgID \<and> rel_source r = nodeID \<and> (relationType = [] \<or> rel_type r = relationType) \<and>
        Option.bind (fmlookup (db_rels db) (rel_key r)) decode = Some r}"
    "distinct (ListBySource db orgID nodeID relationType)"
proof -
  let ?range = "outgoing_range db orgID nodeID relationType"
  have key: "rel_key r = k" if "(k, e) \<in> set ?range" "decode e = Some r" for k e r
  proof -
    obtain o' s t d where k: "k = (o', s, t, d)" by (cases k)
    have "fmlookup (db_rels db) k = Some e" using that(1) unfolding k outgoing_range_iff by blast
    then show ?thesis using rels_ok_lookup [OF assms, of k e] that(2) by simp
  qed
  show "set (ListBySource db orgID nodeID relationType) =
      {r. rel_org r = orgID \<and> rel_source r = nodeID \<and> (relationType = [] \<or> rel_type r = relationType) \<and>
        Option.bind (fmlookup (db_rels db) (rel_key r)) decode = Some r}" (is "_ = ?S")
  proof (intro subset_antisym subsetI)
    fix r assume "r \<in> set (ListBySource db orgID nodeID relationType)"
    then obtain k e where ke: "(k, e) \<in> set ?range" "decode e = Some r"
      by (auto simp: ListBySource_map_filter set_map_filter)
    then show "r \<in> ?S" using key [OF ke] by (auto simp: rel_key_def outgoing_range_iff)
  next
    fix r assume "r \<in> ?S"
    then obtain e where e: "fmlookup (db_rels db) (rel_key r) = Some e" "decode e = Some r" "rel_org r = orgID"
      "rel_source r = nodeID" "relationType = [] \<or> rel_type r = relationType"
      by (auto simp: Option.bind_eq_Some_conv)
    then have "(rel_key r, e) \<in> set ?range" by (simp add: rel_key_def outgoing_range_iff)
    then show "r \<in> set (ListBySource db orgID nodeID relationType)"
      using e(2) by (force simp: ListBySource_map_filter set_map_filter)
  qed
  have "distinct (map fst ?range)" by (simp add: outgoing_range_def)
  then have "distinct ?range" by (simp add: distinct_map)
  moreover have "x = y" if "x \<in> set ?range" "y \<in> set ?range" "snd x = e1" "snd y = e2"
    "decode e1 = Some r" "decode e2 = Some r" for x y e1 e2 r
    using that key [of "fst x" e1 r] key [of "fst y" e2 r] \<open>distinct (map fst ?range)\<close>
    by (metis eq_key_imp_eq_value prod.collapse)
  ultimately show "distinct (ListBySource db orgID nodeID relationType)"
    unfolding ListBySource_map_filter by (intro distinct_map_filter) (auto simp: case_prod_unfold)
qed

lemma ListByTarget_spec:
  assumes "rels_ok db"
  shows "set (ListByTarget db orgID nodeID relationType) =
      {r. rel_org r = orgID \<and> rel_target r = nodeID \<and> (relationType = [] \<or> rel_type r = relationType) \<and>
        Option.bind (fmlookup (db_rels db) (rel_key r)) decode = Some r}"
    "distinct (ListByTarget db orgID nodeID relationType)"
proof -
  let ?range = "incoming_range db orgID nodeID relationType"
  let ?f = "\<lambda>(_, _, t, s). Option.bind (fmlookup (db_rels db) (orgID, s, t, nodeID)) decode"
  have key: "rel_key r = (orgID, s, t, nodeID)" if "?f (o', d, t, s) = Some r" for o' d t s r
    using that rels_ok_lookup [OF assms, of "(orgID, s, t, nodeID)"] by (auto simp: Option.bind_eq_Some_conv)
  show "set (ListByTarget db orgID nodeID relationType) =
      {r. rel_org r = orgID \<and> rel_target r = nodeID \<and> (relationType = [] \<or> rel_type r = relationType) \<and>
        Option.bind (fmlookup (db_rels db) (rel_key r)) decode = Some r}" (is "_ = ?S")
  proof (intro subset_antisym subsetI)
    fix r assume "r \<in> set (ListByTarget db orgID nodeID relationType)"
    then obtain y where y: "y \<in> set ?range" "?f y = Some r"
      unfolding ListByTarget_def set_map_filter by blast
    obtain o' d t s where "y = (o', d, t, s)" by (cases y)
    then have x: "(o', d, t, s) \<in> set ?range" "?f (o', d, t, s) = Some r"
      using y by simp_all
    then show "r \<in> ?S" using key [OF x(2)] by (auto simp: rel_key_def incoming_range_iff)
  next
    fix r assume r: "r \<in> ?S"
    then have "(orgID, nodeID, rel_type r, rel_source r) \<in> set ?range"
      using rels_ok_reverse [OF assms] by (auto simp: incoming_range_iff rel_key_def Option.bind_eq_Some_conv)
    moreover have "?f (orgID, nodeID, rel_type r, rel_source r) = Some r"
      using r by (auto simp: rel_key_def)
    ultimately show "r \<in> set (ListByTarget db orgID nodeID relationType)"
      unfolding ListByTarget_def set_map_filter by blast
  qed
  have "x = y" if "x \<in> set ?range" "y \<in> set ?range" "?f x = Some r" "?f y = Some r" for x y r
  proof -
    obtain o1 d1 t1 s1 where x: "x = (o1, d1, t1, s1)" by (cases x)
    obtain o2 d2 t2 s2 where y: "y = (o2, d2, t2, s2)" by (cases y)
    have "rel_key r = (orgID, s1, t1, nodeID)" "rel_key r = (orgID, s2, t2, nodeID)"
      using key [OF that(3) [unfolded x]] key [OF that(4) [unfolded y]] by simp_all
    then show ?thesis using that(1,2) unfolding x y incoming_range_iff by simp
  qed
  then show "distinct (ListByTarget db orgID nodeID relationType)"
    unfolding ListByTarget_def by (intro distinct_map_filter) (simp_all add: incoming_range_def)
qed



end
