(* ===== verification/Strict.thy ===== *)
theory Strict
  imports Store
begin

text \<open>
  The write fence and strict validation: the epoch that every product write increments, the evidence
  that a scan captures and the activation record that is written only while the evidence stands, and
  the checks that an active strict validation adds to a write.
\<close>

unbundle bit_operations_syntax

section \<open>Write fence\<close>

text \<open>
  \<open>binary.LittleEndian.Uint64\<close> and its inverse. \<open>tr.Add\<close> reads an absent value as zero, extends a
  shorter value with zero bytes, cuts a longer one to the length of the operand, and adds modulo the
  width of the operand.
\<close>

fun le_word :: "bytes \<Rightarrow> 64 word" where
  "le_word [] = 0"
| "le_word (b # bs) = ucast b OR push_bit 8 (le_word bs)"

definition le_bytes :: "64 word \<Rightarrow> bytes" where
  "le_bytes w = map (\<lambda>i. ucast (drop_bit (8 * i) w)) [0..<8]"

definition fenceIncrement :: bytes where
  "fenceIncrement = [1, 0, 0, 0, 0, 0, 0, 0]"

definition add_bytes :: "bytes option \<Rightarrow> bytes \<Rightarrow> bytes" where
  "add_bytes stored operand =
     le_bytes (le_word (take (length operand) (case stored of None \<Rightarrow> [] | Some bs \<Rightarrow> bs)) + le_word operand)"

definition bump_fence :: "uuid \<Rightarrow> uuid \<Rightarrow> db \<Rightarrow> db" where
  "bump_fence orgID nodeID db =
     (let bucket = WriteFenceBucket orgID nodeID in
      db\<lparr>db_fence := fmupd bucket (add_bytes (fmlookup (db_fence db) bucket) fenceIncrement) (db_fence db)\<rparr>)"

definition inactive :: strict_activation where
  "inactive = \<lparr>sa_active = False, sa_activated_at = 0, sa_scan = uuid_nil, sa_records_validated = 0\<rparr>"

definition readStrictActivation :: "db \<Rightarrow> strict_activation result" where
  "readStrictActivation db =
     (case db_activation db of
        None \<Rightarrow> Inr inactive
      | Some e \<Rightarrow>
          if enc_text e = [] then Inr inactive
          else (case enc_value e of None \<Rightarrow> Inl ErrDecode | Some activation \<Rightarrow> Inr activation))"

definition fenceNodeMutation :: "uuid \<Rightarrow> uuid \<Rightarrow> db \<Rightarrow> (bool \<times> db) result" where
  "fenceNodeMutation orgID nodeID db =
     bindE (readStrictActivation db) (\<lambda>activation. Inr (sa_active activation, bump_fence orgID nodeID db))"

definition callFence :: "store_config \<Rightarrow> uuid \<Rightarrow> uuid \<Rightarrow> db \<Rightarrow> (bool \<times> db) result" where
  "callFence cfg orgID nodeID db =
     (if \<not> cfg_write_fence cfg then Inr (False, db) else fenceNodeMutation orgID nodeID db)"

definition decodeFenceEpoch :: "bytes \<Rightarrow> int result" where
  "decodeFenceEpoch encoded =
     (if encoded = [] then Inr 0
      else if length encoded \<noteq> length fenceIncrement then Inl ErrDecode
      else let v = uint (le_word encoded) in if max_int64 < v then Inl ErrDecode else Inr v)"

section \<open>Evidence\<close>

record strict_evidence =
  se_buckets :: "int list"
  se_epochs :: "(uuid, int) fmap"

record strict_evidence_change =
  sc_buckets :: "nat list"
  sc_organizations :: "uuid list"

definition change_empty :: "strict_evidence_change \<Rightarrow> bool" where
  "change_empty c \<longleftrightarrow> sc_buckets c = [] \<and> sc_organizations c = []"

definition evidenceAt :: "int list \<Rightarrow> nat \<Rightarrow> int" where
  "evidenceAt values position = (if length values \<le> position then 0 else values ! position)"

text \<open>The two loops range over maps in any order; the organisations are sorted at the end.\<close>

definition Compare :: "strict_evidence \<Rightarrow> strict_evidence \<Rightarrow> strict_evidence_change" where
  "Compare e later =
     \<lparr>sc_buckets = filter (\<lambda>bucket. evidenceAt (se_buckets e) bucket \<noteq> evidenceAt (se_buckets later) bucket)
        [0..<max (length (se_buckets e)) (length (se_buckets later))],
      sc_organizations = sort (
        map fst (filter (\<lambda>(orgID, epoch).
            (case fmlookup (se_epochs later) orgID of None \<Rightarrow> 0 | Some n \<Rightarrow> n) \<noteq> epoch)
          (sorted_list_of_fmap (se_epochs e))) @
        map fst (filter (\<lambda>(orgID, epoch). fmlookup (se_epochs e) orgID = None \<and> epoch \<noteq> 0)
          (sorted_list_of_fmap (se_epochs later))))\<rparr>"

definition readStrictEvidence :: "db \<Rightarrow> strict_evidence result" where
  "readStrictEvidence db =
     bindE (mapE (\<lambda>bucket. decodeFenceEpoch (case fmlookup (db_fence db) bucket of None \<Rightarrow> [] | Some bs \<Rightarrow> bs))
       [0..<WriteFenceBuckets]) (\<lambda>buckets.
     bindE (foldE (\<lambda>(orgID, encoded) epochs. bindE (unpackCounter encoded) (\<lambda>n. Inr (fmupd orgID n epochs)))
       (sorted_list_of_fmap (db_epochs db)) fmempty) (\<lambda>epochs.
     Inr \<lparr>se_buckets = buckets, se_epochs = epochs\<rparr>))"

definition CaptureStrictEvidence :: "db \<Rightarrow> strict_evidence result" where
  "CaptureStrictEvidence db = readStrictEvidence db"

section \<open>Activation\<close>

definition StrictActivation :: "db \<Rightarrow> strict_activation result" where
  "StrictActivation db = readStrictActivation db"

text \<open>The change is returned beside the error.\<close>

definition no_change :: strict_evidence_change where
  "no_change = \<lparr>sc_buckets = [], sc_organizations = []\<rparr>"

definition marshal_activation :: "env \<Rightarrow> strict_activation \<Rightarrow> strict_activation encoded result" where
  "marshal_activation env activation =
     bindE (guardE (time_json_ok (sa_activated_at activation)) ErrInternal) (\<lambda>_.
     Inr (json_object (env_activation_text env activation) activation))"

definition ActivateStrict ::
  "env \<Rightarrow> strict_evidence \<Rightarrow> strict_activation \<Rightarrow> db \<Rightarrow> strict_evidence_change \<times> db result" where
  "ActivateStrict env evidence activation db =
     (case marshal_activation env activation of
        Inl e \<Rightarrow> (no_change, Inl e)
      | Inr encoded \<Rightarrow>
          (case readStrictActivation db of
             Inl e \<Rightarrow> (no_change, Inl e)
           | Inr current \<Rightarrow>
               if sa_active current then (no_change, Inl ErrConflict)
               else (case readStrictEvidence db of
                  Inl e \<Rightarrow> (no_change, Inl e)
                | Inr later \<Rightarrow>
                    let change = Compare evidence later in
                    if \<not> change_empty change then (change, Inl ErrStrictEvidenceChanged)
                    else (change, Inr (db\<lparr>db_activation := Some encoded\<rparr>)))))"

section \<open>The graph of a record\<close>

definition strictChildOfLimit :: nat where
  "strictChildOfLimit = 2"

definition readResultTarget :: "db \<Rightarrow> uuid \<Rightarrow> result_target result" where
  "readResultTarget db targetID =
     (case kv_get (db_resolves db) targetID of
        None \<Rightarrow> Inr \<lparr>target_found = False, target_org = uuid_nil, target_kind = []\<rparr>
      | Some e \<Rightarrow>
          (case enc_value e of
             None \<Rightarrow> Inl ErrDecode
           | Some resolve \<Rightarrow>
               Inr \<lparr>target_found = True, target_org = resolve_org resolve, target_kind = resolve_kind resolve\<rparr>))"

definition readStrictGraph :: "lib \<Rightarrow> db \<Rightarrow> property_def list \<Rightarrow> node \<Rightarrow> result_graph result" where
  "readStrictGraph lib db definitions current =
     (let childOf = map (\<lambda>((_, _, _, targetID), _). targetID)
            (take strictChildOfLimit (outgoing_range db (node_org current) (node_id current) RelChildOf));
          targetIDs = storedUUID lib (prop_of (node_props current) parentIDName) #
            map (\<lambda>definition. storedUUID lib (prop_of (node_props current) (def_name definition)))
              (filter (\<lambda>definition. def_type definition = PropertyTypeUUID \<and>
                 reference_target_type_key definition \<noteq> []) definitions) in
      bindE (foldE (\<lambda>targetID targets.
          if targetID = uuid_nil then Inr targets
          else bindE (readResultTarget db targetID) (\<lambda>target. Inr (fmupd targetID target targets)))
        targetIDs fmempty) (\<lambda>targets.
      Inr \<lparr>rg_org = node_org current, rg_child_of = childOf, rg_targets = targets\<rparr>))"

definition readStrictSchema :: "lib \<Rightarrow> db \<Rightarrow> node \<Rightarrow> (schema \<times> result_graph) option result" where
  "readStrictSchema lib db current =
     bindE (cachedNodeTypeByKey db (node_org current) (node_kind current)) (\<lambda>kind.
     case kind of
       None \<Rightarrow> Inr None
     | Some k \<Rightarrow>
         bindE (readSchemaRecords (db_defs db) (node_org current)) (\<lambda>definitions.
         bindE (readStrictGraph lib db definitions current) (\<lambda>graph.
         let types = fmupd (type_key k) k fmempty;
             found = (\<lambda>types. \<lparr>schema_org = node_org current, schema_types = types,
               schema_definitions = map Some definitions\<rparr>);
             parent = target_of graph (storedUUID lib (prop_of (node_props current) parentIDName)) in
         if \<not> target_found parent \<or> target_org parent \<noteq> node_org current then Inr (Some (found types, graph))
         else bindE (cachedNodeTypeByKey db (node_org current) (target_kind parent)) (\<lambda>parentKind.
           case parentKind of
             None \<Rightarrow> Inr (Some (found types, graph))
           | Some p \<Rightarrow> Inr (Some (found (fmupd (type_key p) p types), graph))))))"

section \<open>Scan pages\<close>

record strict_record =
  sr_node :: node
  sr_graph :: result_graph

definition maxStrictScanNodes :: nat where
  "maxStrictScanNodes = 100"

definition readStrictRecords ::
  "lib \<Rightarrow> db \<Rightarrow> ((uuid \<times> string \<times> uuid) \<times> node encoded) list \<Rightarrow> strict_record list result" where
  "readStrictRecords lib db items =
     mapE (\<lambda>(_, e). case decode e of
         None \<Rightarrow> Inl ErrDecode
       | Some current \<Rightarrow>
           bindE (readSchemaRecords (db_defs db) (node_org current)) (\<lambda>definitions.
           bindE (readStrictGraph lib db definitions current) (\<lambda>graph.
           Inr \<lparr>sr_node = current, sr_graph = graph\<rparr>))) items"

text \<open>A cursor is the last key of the page before; the empty cursor is \<open>None\<close>.\<close>

definition StrictScanPage ::
  "lib \<Rightarrow> db \<Rightarrow> (uuid \<times> string \<times> uuid) option \<Rightarrow> int \<Rightarrow>
    (strict_record list \<times> (uuid \<times> string \<times> uuid) option) result" where
  "StrictScanPage lib db cursor limit =
     (if limit \<le> 0 \<or> int maxStrictScanNodes < limit then Inl ErrInvalidArgument
      else
        let items = take (nat limit + 1) (kv_range (\<lambda>k. case cursor of None \<Rightarrow> True | Some l \<Rightarrow> l < k) (db_nodes db));
            page = take (nat limit) items;
            following = (if nat limit < length items then Some (fst (items ! (nat limit - 1))) else None) in
        bindE (readStrictRecords lib db page) (\<lambda>records. Inr (records, following)))"

section \<open>Checks of a write\<close>

definition strictResultError :: "unit result \<Rightarrow> unit result" where
  "strictResultError resultErr =
     (case resultErr of
        Inr _ \<Rightarrow> Inr ()
      | Inl e \<Rightarrow> if e = ErrSchemaRead then Inl ErrSchemaRead else Inl ErrInvalidArgument)"

definition checkStrictMutation :: "lib \<Rightarrow> db \<Rightarrow> bool \<Rightarrow> node \<Rightarrow> uuid option \<Rightarrow> unit result" where
  "checkStrictMutation lib db strict result parent =
     (if \<not> strict then Inr ()
      else bindE (readStrictSchema lib db result) (\<lambda>found.
        case found of
          None \<Rightarrow> Inl ErrInvalidArgument
        | Some (schema, graph) \<Rightarrow>
            let graph = (case parent of None \<Rightarrow> graph | Some targetID \<Rightarrow> graph\<lparr>rg_child_of := [targetID]\<rparr>) in
            strictResultError (property_result_err
              (ValidateResult lib schema (node_kind result) (node_props result) graph))))"

definition checkStrictRecord :: "lib \<Rightarrow> db \<Rightarrow> bool \<Rightarrow> node \<Rightarrow> unit result" where
  "checkStrictRecord lib db strict current = checkStrictMutation lib db strict current None"

definition checkStrictRelationship :: "db \<Rightarrow> bool \<Rightarrow> relationship \<Rightarrow> bool \<Rightarrow> unit result" where
  "checkStrictRelationship db strict rel memberTarget =
     (if \<not> strict then Inr ()
      else if rel_type rel = RelChildOf then Inl ErrReservedParentRelation
      else bindE (readResultTarget db (rel_source rel)) (\<lambda>source.
        bindE (readResultTarget db (rel_target rel)) (\<lambda>target.
        if \<not> target_found source \<or> target_org source \<noteq> rel_org rel then Inl ErrInvalidArgument
        else if target_found target \<and> target_org target \<noteq> rel_org rel then Inl ErrInvalidArgument
        else if \<not> target_found target \<and> \<not> memberTarget then Inl ErrInvalidArgument
        else Inr ())))"

definition checkStrictRelationshipAdds :: "db \<Rightarrow> bool \<Rightarrow> relationship_changes list \<Rightarrow> unit result" where
  "checkStrictRelationshipAdds db strict changesList =
     (if \<not> strict then Inr ()
      else foldE (\<lambda>rel _. if rel_type rel = RelChildOf then Inr () else checkStrictRelationship db strict rel False)
        (concat (map rels_add changesList)) ())"

definition checkStrictWrite :: "lib \<Rightarrow> db \<Rightarrow> bool \<Rightarrow> node \<Rightarrow> relationship_changes list \<Rightarrow> unit result" where
  "checkStrictWrite lib db strict current changesList =
     bindE (checkStrictRelationshipAdds db strict changesList) (\<lambda>_. checkStrictRecord lib db strict current)"
section \<open>Facts about the write fence\<close>

lemma bit_le_word:
  "length bs \<le> 8 \<Longrightarrow> bit (le_word bs) n \<longleftrightarrow> n < 8 * length bs \<and> bit (bs ! (n div 8)) (n mod 8)"
proof (induction bs arbitrary: n)
  case (Cons b bs)
  have small: "bit b n \<Longrightarrow> n < 8" using bit_imp_le_length [of b n] by simp
  have low: "n < 8 \<Longrightarrow> n mod 8 = n \<and> n div 8 = 0" by simp
  have high: "\<not> n < 8 \<Longrightarrow> (n - 8) mod 8 = n mod 8 \<and> n div 8 = Suc ((n - 8) div 8)"
    by (simp add: le_mod_geq div_if)
  have "bit (le_word (b # bs)) n \<longleftrightarrow> (n < 64 \<and> bit b n) \<or> (8 \<le> n \<and> n < 64 \<and> bit (le_word bs) (n - 8))"
    by (auto simp: bit_simps)
  also have "\<dots> \<longleftrightarrow> n < 8 * length (b # bs) \<and> bit ((b # bs) ! (n div 8)) (n mod 8)"
  proof (cases "n < 8")
    case True
    then show ?thesis using low by auto
  next
    case False
    then show ?thesis using small high Cons.IH [of "n - 8"] Cons.prems by auto
  qed
  finally show ?case .
qed simp

lemma length_le_bytes [simp]: "length (le_bytes w) = 8"
  by (simp add: le_bytes_def)

lemma le_word_le_bytes [simp]: "le_word (le_bytes w) = w"
proof (rule bit_word_eqI)
  fix n assume "n < LENGTH(64)"
  then have n: "n < 64" by simp
  then have "n div 8 < 8" by (simp add: less_mult_imp_div_less)
  with n show "bit (le_word (le_bytes w)) n = bit w n"
    by (simp add: bit_le_word le_bytes_def bit_simps)
qed

lemma le_word_fenceIncrement [simp]: "le_word fenceIncrement = 1"
  by (simp add: fenceIncrement_def)

lemma length_fenceIncrement [simp]: "length fenceIncrement = 8"
  by (simp add: fenceIncrement_def)

text \<open>The epoch of a bucket as the 64-bit number that its bytes hold.\<close>

definition fence_bytes :: "db \<Rightarrow> nat \<Rightarrow> bytes" where
  "fence_bytes db bucket = (case fmlookup (db_fence db) bucket of None \<Rightarrow> [] | Some bs \<Rightarrow> bs)"

definition fence_word :: "db \<Rightarrow> nat \<Rightarrow> 64 word" where
  "fence_word db bucket = le_word (take 8 (fence_bytes db bucket))"

lemma fence_word_bump:
  "fence_word (bump_fence orgID nodeID db) bucket =
     (if bucket = WriteFenceBucket orgID nodeID then fence_word db bucket + 1 else fence_word db bucket)"
  by (simp add: fence_word_def fence_bytes_def bump_fence_def add_bytes_def Let_def)

lemma fence_word_cong: "db_fence db' = db_fence db \<Longrightarrow> fence_word db' = fence_word db"
  by (simp add: fence_word_def fence_bytes_def fun_eq_iff)

lemma decodeFenceEpoch_Inr:
  "decodeFenceEpoch bs = Inr n \<Longrightarrow> n = uint (le_word (take 8 bs)) \<and> 0 \<le> n \<and> n \<le> max_int64"
  by (auto simp: decodeFenceEpoch_def Let_def max_int64_def split: if_splits)

text \<open>Writes in a row, each for the node it writes.\<close>

definition bump_all :: "(uuid \<times> uuid) list \<Rightarrow> db \<Rightarrow> db" where
  "bump_all writes db = fold (\<lambda>(orgID, nodeID). bump_fence orgID nodeID) writes db"

definition writes_in :: "nat \<Rightarrow> (uuid \<times> uuid) list \<Rightarrow> nat" where
  "writes_in bucket writes = length (filter (\<lambda>(orgID, nodeID). WriteFenceBucket orgID nodeID = bucket) writes)"

lemma fence_word_bump_all:
  "fence_word (bump_all writes db) bucket = fence_word db bucket + of_nat (writes_in bucket writes)"
  by (induction writes arbitrary: db) (auto simp: bump_all_def writes_in_def fence_word_bump)

lemma readStrictEvidence_Inr:
  assumes "readStrictEvidence db = Inr ev"
  shows "length (se_buckets ev) = WriteFenceBuckets"
    and "bucket < WriteFenceBuckets \<Longrightarrow> se_buckets ev ! bucket = uint (fence_word db bucket)"
proof -
  obtain buckets where b: "mapE (\<lambda>bucket. decodeFenceEpoch (fence_bytes db bucket)) [0..<WriteFenceBuckets] = Inr buckets"
    "se_buckets ev = buckets"
    using assms by (auto simp: readStrictEvidence_def err_simps fence_bytes_def)
  show "length (se_buckets ev) = WriteFenceBuckets"
    using mapE_length [OF b(1)] b(2) by simp
  show "se_buckets ev ! bucket = uint (fence_word db bucket)" if "bucket < WriteFenceBuckets"
    using mapE_nth [OF b(1), of bucket] that b(2) decodeFenceEpoch_Inr by (simp add: fence_word_def)
qed

section \<open>Facts about evidence\<close>

lemma Compare_buckets:
  assumes "length (se_buckets e) = length (se_buckets later)" "bucket < length (se_buckets e)"
    "sc_buckets (Compare e later) = []"
  shows "se_buckets e ! bucket = se_buckets later ! bucket"
proof -
  have "bucket \<notin> set (sc_buckets (Compare e later))" using assms(3) by simp
  then show ?thesis using assms(1,2) by (simp add: Compare_def evidenceAt_def)
qed

definition epoch_in :: "strict_evidence \<Rightarrow> uuid \<Rightarrow> int" where
  "epoch_in e orgID = (case fmlookup (se_epochs e) orgID of None \<Rightarrow> 0 | Some n \<Rightarrow> n)"

lemma fst_filter_iff: "x \<in> set (map fst (filter P xs)) \<longleftrightarrow> (\<exists>y. (x, y) \<in> set xs \<and> P (x, y))"
  by (induction xs) auto

lemma Compare_organizations: "orgID \<in> set (sc_organizations (Compare e later)) \<longleftrightarrow> epoch_in e orgID \<noteq> epoch_in later orgID"
proof -
  have "orgID \<in> set (sc_organizations (Compare e later)) \<longleftrightarrow>
    (\<exists>n. fmlookup (se_epochs e) orgID = Some n \<and> epoch_in later orgID \<noteq> n) \<or>
    (\<exists>n. fmlookup (se_epochs later) orgID = Some n \<and> fmlookup (se_epochs e) orgID = None \<and> n \<noteq> 0)"
    unfolding Compare_def by (simp only: strict_evidence_change.simps set_sort set_append Un_iff fst_filter_iff)
      (simp add: epoch_in_def)
  then show ?thesis by (auto simp: epoch_in_def split: option.splits)
qed

lemma Compare_bucket_iff: "bucket \<in> set (sc_buckets (Compare e later)) \<longleftrightarrow>
    evidenceAt (se_buckets e) bucket \<noteq> evidenceAt (se_buckets later) bucket"
  by (auto simp: Compare_def evidenceAt_def)

text \<open>No change is listed when and only when every bucket and every organisation has the same epoch.\<close>

lemma change_empty_iff:
  "change_empty (Compare e later) \<longleftrightarrow>
    (\<forall>bucket. evidenceAt (se_buckets e) bucket = evidenceAt (se_buckets later) bucket) \<and> epoch_in e = epoch_in later"
proof -
  have "change_empty (Compare e later) \<longleftrightarrow> (\<forall>bucket. bucket \<notin> set (sc_buckets (Compare e later))) \<and>
    (\<forall>orgID. orgID \<notin> set (sc_organizations (Compare e later)))"
    unfolding change_empty_def by (metis empty_iff empty_set equals0I set_empty)
  then show ?thesis by (simp add: Compare_bucket_iff Compare_organizations fun_eq_iff)
qed

lemma ActivateStrict_Inr:
  "snd (ActivateStrict env ev activation db) = Inr db' \<longleftrightarrow>
    (\<exists>encoded current later. marshal_activation env activation = Inr encoded \<and> readStrictActivation db = Inr current \<and>
      \<not> sa_active current \<and> readStrictEvidence db = Inr later \<and> change_empty (Compare ev later) \<and>
      db' = db\<lparr>db_activation := Some encoded\<rparr>)"
  by (auto simp: ActivateStrict_def Let_def split: sum.splits)

lemma readStrictActivation_marshal:
  "marshal_activation env activation = Inr encoded \<Longrightarrow>
    readStrictActivation (db\<lparr>db_activation := Some encoded\<rparr>) = Inr activation"
  by (auto simp: marshal_activation_def readStrictActivation_def err_simps)

text \<open>A product write increments the epoch of its bucket, so a capture before it no longer compares equal.\<close>

lemma evidence_differs:
  assumes "readStrictEvidence db = Inr ev" "readStrictEvidence db' = Inr later" "bucket < WriteFenceBuckets"
    and "fence_word db' bucket = fence_word db bucket + of_nat n" "0 < n" "n < 2 ^ 64"
  shows "\<not> change_empty (Compare ev later)"
proof
  assume "change_empty (Compare ev later)"
  then have "sc_buckets (Compare ev later) = []" by (simp add: change_empty_def)
  then have "se_buckets ev ! bucket = se_buckets later ! bucket"
    using Compare_buckets readStrictEvidence_Inr(1) assms(1-3) by metis
  then have "fence_word db bucket = fence_word db bucket + of_nat n"
    using readStrictEvidence_Inr(2) assms(1-4) by (metis word_uint_eqI)
  then have "(of_nat n :: 64 word) = 0" by simp
  then have "2 ^ 64 dvd n" by (simp add: word_of_nat_eq_0_iff)
  then show False using assms(5,6) by (simp add: nat_dvd_not_less)
qed

lemma writes_in_le: "writes_in bucket writes \<le> length writes"
  by (simp add: writes_in_def)

section \<open>Properties\<close>

lemma activation_refused_bumps:
  assumes "readStrictEvidence db = Inr ev" "writes \<noteq> []" "length writes < 2 ^ 64"
    and "db_fence db' = db_fence (bump_all writes db)"
  shows "\<exists>e. snd (ActivateStrict env ev activation db') = Inl e"
proof (rule ccontr)
  assume "\<not> ?thesis"
  then obtain later where later: "readStrictEvidence db' = Inr later" "change_empty (Compare ev later)"
    using ActivateStrict_Inr [of env ev activation db'] by (metis obj_sumE)
  obtain orgID nodeID where w: "(orgID, nodeID) \<in> set writes" using assms(2) by (cases writes) auto
  let ?b = "WriteFenceBucket orgID nodeID"
  have "0 < writes_in ?b writes" using w by (auto simp: writes_in_def filter_empty_conv)
  moreover have "writes_in ?b writes < 2 ^ 64" using writes_in_le assms(3) by (rule le_less_trans)
  moreover have "fence_word db' ?b = fence_word db ?b + of_nat (writes_in ?b writes)"
    using fence_word_cong [OF assms(4)] fence_word_bump_all by simp
  ultimately show False
    using evidence_differs [OF assms(1) later(1) WriteFenceBucket_less] later(2) by blast
qed

text \<open>
  C4: A strict validation is not activated over a write it has not seen. If at least one product
  write incremented its bucket after the evidence was captured, and fewer than \<open>2 ^ 64\<close> did,
  \<open>ActivateStrict\<close> fails on every later state, whatever the writes were.
\<close>

theorem activation_refused_after_write:
  assumes "readStrictEvidence db = Inr ev" "writes \<noteq> []" "length writes < 2 ^ 64"
    and "db_fence db' = db_fence (bump_all writes db)"
  shows "\<exists>e. snd (ActivateStrict env ev activation db') = Inl e"
  using assms by (rule activation_refused_bumps)

text \<open>An environment in which every record decodes, and the evidence of the empty store.\<close>

definition demo_lib :: lib where
  "demo_lib = unary_lib\<lparr>lib_uuid_sha1 := (\<lambda>_ _. 9)\<rparr>"

definition sample_env :: env where
  "sample_env = \<lparr>env_lib = demo_lib, env_wire = sample_wire, env_node_text = (\<lambda>_. []), env_view_text = (\<lambda>_. []),
     env_resolve_text = (\<lambda>_. []), env_relationship_text = (\<lambda>_. []), env_idempotency_text = (\<lambda>_. []),
     env_checkpoint_text = (\<lambda>_. []), env_activation_text = (\<lambda>_. []), env_claims_text = (\<lambda>_. [])\<rparr>"

lemma mapE_const: "(\<And>x. x \<in> set xs \<Longrightarrow> f x = Inr c) \<Longrightarrow> mapE f xs = Inr (replicate (length xs) c)"
  by (induction xs) auto

lemma sorted_list_of_fmap_empty [simp]: "sorted_list_of_fmap fmempty = []"
  by (simp add: sorted_list_of_fmap_def sorted_list_of_fset.rep_eq)

lemma empty_db_evidence:
  "readStrictEvidence empty_db = Inr \<lparr>se_buckets = replicate WriteFenceBuckets 0, se_epochs = fmempty\<rparr>"
  by (simp add: readStrictEvidence_def empty_db_def mapE_const decodeFenceEpoch_def)

theorem activation_refused_after_write_witness:
  "readStrictEvidence empty_db = Inr \<lparr>se_buckets = replicate WriteFenceBuckets 0, se_epochs = fmempty\<rparr> \<and>
   (\<exists>e. snd (ActivateStrict sample_env \<lparr>se_buckets = replicate WriteFenceBuckets 0, se_epochs = fmempty\<rparr> inactive
     (bump_all [(1, 2)] empty_db)) = Inl e)"
  using activation_refused_after_write [OF empty_db_evidence, of "[(1, 2)]"] empty_db_evidence by simp

text \<open>
  C22: Activation. \<open>ActivateStrict\<close> succeeds exactly when the record encodes, strict validation is not
  active, the present epochs can be read and none of them differs from the evidence, an absent
  metadata epoch counting as zero; it then changes nothing but the activation record, which reads back
  as the record it was given, and every later fenced write learns that strict validation is active.
\<close>

theorem activation_succeeds_iff:
  "snd (ActivateStrict env ev activation db) = Inr db' \<longleftrightarrow>
    time_json_ok (sa_activated_at activation) \<and>
    (\<exists>current later. readStrictActivation db = Inr current \<and> \<not> sa_active current \<and> readStrictEvidence db = Inr later \<and>
      (\<forall>bucket. evidenceAt (se_buckets ev) bucket = evidenceAt (se_buckets later) bucket) \<and>
      epoch_in ev = epoch_in later) \<and>
    db' = db\<lparr>db_activation := db_activation db'\<rparr> \<and>
    db_activation db' = Some (json_object (env_activation_text env activation) activation) \<and>
    (\<forall>orgID nodeID. fenceNodeMutation orgID nodeID db' = Inr (sa_active activation, bump_fence orgID nodeID db'))"
proof -
  have m: "marshal_activation env activation = Inr encoded \<longleftrightarrow> time_json_ok (sa_activated_at activation) \<and>
      encoded = json_object (env_activation_text env activation) activation" for encoded
    by (auto simp: marshal_activation_def err_simps)
  have fence: "fenceNodeMutation orgID nodeID db' = Inr (sa_active activation, bump_fence orgID nodeID db')"
    if "db_activation db' = Some (json_object (env_activation_text env activation) activation)" for orgID nodeID
    using that by (simp add: fenceNodeMutation_def readStrictActivation_def)
  have upd: "db' = db\<lparr>db_activation := Some x\<rparr> \<longleftrightarrow> db' = db\<lparr>db_activation := db_activation db'\<rparr> \<and> db_activation db' = Some x" for x
    by (cases db; cases db') auto
  show ?thesis
    unfolding ActivateStrict_Inr m change_empty_iff upd using fence by blast
qed


end
