(* ===== verification/Relationship_Store.thy ===== *)
theory Relationship_Store
  imports Strict
begin

text \<open>
  The relationship store: adding an edge, removing an edge behind the guard that keeps a node's only
  hierarchy parent, and the pages of edges. The nodes of the hierarchy with their types are read here
  too, as the guard, node deletion and subtree deletion share them.
\<close>

section \<open>Search work of a transaction\<close>

definition resolved :: "db \<Rightarrow> uuid \<Rightarrow> bool" where
  "resolved db nodeID \<longleftrightarrow> kv_get (db_resolves db) nodeID \<noteq> None"

definition schedule_change ::
  "env \<Rightarrow> timestamp \<Rightarrow> uuid \<Rightarrow> uuid \<Rightarrow> search_change \<Rightarrow> db \<Rightarrow> (search_work \<times> db) result" where
  "schedule_change env now orgID nodeID change db =
     bindE (scheduleSearchChange (env_lib env) now orgID nodeID change (db_search db)) (\<lambda>(current, s).
     Inr (current, db\<lparr>db_search := s\<rparr>))"

definition schedule_related :: "env \<Rightarrow> timestamp \<Rightarrow> relationship_changes list \<Rightarrow> db \<Rightarrow> db result" where
  "schedule_related env now changes db =
     bindE (scheduleRelatedSearchWork (env_lib env) now (resolved db) changes (db_search db)) (\<lambda>s.
     Inr (db\<lparr>db_search := s\<rparr>))"

text \<open>The last step of every write: the recorded changes become outbox entries.\<close>

definition append_changes :: "env \<Rightarrow> mutation_audit \<Rightarrow> timestamp \<Rightarrow> txn \<Rightarrow> db result" where
  "append_changes env m completedAt = (\<lambda>(db, changes). AppendChanges env (ma_operation m) completedAt changes db)"

section \<open>Nodes of the hierarchy\<close>

record hierarchy_node =
  hn_id :: uuid
  hn_type_key :: string
  hn_kind :: "node_type option"
  hn_found :: bool

definition readHierarchyNode :: "db \<Rightarrow> uuid \<Rightarrow> uuid \<Rightarrow> hierarchy_node result" where
  "readHierarchyNode db orgID nodeID =
     (let missing = \<lparr>hn_id = nodeID, hn_type_key = [], hn_kind = None, hn_found = False\<rparr> in
      case kv_get (db_resolves db) nodeID of
        None \<Rightarrow> Inr missing
      | Some e \<Rightarrow>
          (case enc_value e of
             None \<Rightarrow> Inl ErrDecode
           | Some r \<Rightarrow>
               if resolve_org r \<noteq> orgID then Inr missing
               else bindE (cachedNodeTypeByKey db orgID (resolve_kind r)) (\<lambda>kind.
                 Inr \<lparr>hn_id = nodeID, hn_type_key = resolve_kind r, hn_kind = kind, hn_found = True\<rparr>)))"

definition readHierarchyNodes :: "db \<Rightarrow> uuid \<Rightarrow> uuid list \<Rightarrow> hierarchy_node list result" where
  "readHierarchyNodes db orgID nodeIDs = mapE (readHierarchyNode db orgID) nodeIDs"

definition hasHierarchyParent :: "db \<Rightarrow> uuid \<Rightarrow> hierarchy_node \<Rightarrow> uuid \<Rightarrow> bool result" where
  "hasHierarchyParent db orgID source parentID =
     bindE (HierarchyParent (hn_kind source)
       (map de_target (readDeleteEdges db orgID (hn_id source) RelChildOf False))) (\<lambda>found.
     Inr (found = parentID))"

text \<open>The node and view records of a node with the stored text of the first.\<close>

definition readNodeAndView ::
  "db \<Rightarrow> uuid \<Rightarrow> hierarchy_node \<Rightarrow> (node \<times> node_view option \<times> bytes) option result" where
  "readNodeAndView db orgID target =
     (case kv_get (db_nodes db) (orgID, hn_type_key target, hn_id target) of
        None \<Rightarrow> Inr None
      | Some encodedNode \<Rightarrow>
          (case enc_value encodedNode of
             None \<Rightarrow> Inl ErrDecode
           | Some current \<Rightarrow>
               (case kv_get (db_views db) (orgID, hn_type_key target, hn_id target) of
                  None \<Rightarrow> Inr (Some (current, None, enc_text encodedNode))
                | Some encodedView \<Rightarrow>
                    (case enc_value encodedView of
                       None \<Rightarrow> Inl ErrDecode
                     | Some view \<Rightarrow> Inr (Some (current, Some view, enc_text encodedNode))))))"

section \<open>The parent guard\<close>

definition parentIDValue :: "lib \<Rightarrow> raw \<Rightarrow> uuid result" where
  "parentIDValue lib raw =
     (if raw_empty raw then Inr uuid_nil
      else (case unmarshal json_string raw of
         None \<Rightarrow> Inl ErrFailedPrecondition
       | Some t \<Rightarrow> (case lib_uuid_parse lib t of None \<Rightarrow> Inl ErrFailedPrecondition | Some parsed \<Rightarrow> Inr parsed)))"

definition storedParentID :: "lib \<Rightarrow> db \<Rightarrow> uuid \<Rightarrow> hierarchy_node \<Rightarrow> uuid result" where
  "storedParentID lib db orgID source =
     (if \<not> hn_found source then Inr uuid_nil
      else bindE (readNodeAndView db orgID source) (\<lambda>found.
        case found of
          None \<Rightarrow> Inr uuid_nil
        | Some (current, _, _) \<Rightarrow> parentIDValue lib (prop_of (node_props current) parentIDName)))"

definition parentGuardEdgeLimit :: nat where
  "parentGuardEdgeLimit = 2"

definition otherParentTarget :: "db \<Rightarrow> uuid \<Rightarrow> uuid \<Rightarrow> uuid \<times> uuid \<times> string \<times> uuid \<Rightarrow> uuid option" where
  "otherParentTarget db orgID sourceID removedKey =
     (case filter (\<lambda>k. k \<noteq> removedKey)
         (map fst (take parentGuardEdgeLimit (outgoing_range db orgID sourceID RelChildOf))) of
        [] \<Rightarrow> None
      | (_, _, _, targetID) # _ \<Rightarrow> Some targetID)"

definition refuseOnlyParentRemoval :: "lib \<Rightarrow> db \<Rightarrow> uuid \<Rightarrow> uuid \<Rightarrow> string \<Rightarrow> uuid \<Rightarrow> unit result" where
  "refuseOnlyParentRemoval lib db orgID sourceID relationType targetID =
     (if relationType \<noteq> RelChildOf then Inr ()
      else if kv_get (db_rels db) (orgID, sourceID, relationType, targetID) = None then Inr ()
      else bindE (readHierarchyNode db orgID sourceID) (\<lambda>source.
        bindE (storedParentID lib db orgID source) (\<lambda>canonicalID.
        if canonicalID \<noteq> uuid_nil \<and> canonicalID \<noteq> targetID then Inr ()
        else if canonicalID = uuid_nil then
          (let remaining = (case otherParentTarget db orgID sourceID (orgID, sourceID, relationType, targetID) of
               None \<Rightarrow> [] | Some otherID \<Rightarrow> [otherID]) in
           case HierarchyParent (hn_kind source) remaining of
             Inr _ \<Rightarrow> Inr ()
           | Inl _ \<Rightarrow> Inl ErrFailedPrecondition)
        else Inl ErrFailedPrecondition)))"

section \<open>Adding and removing\<close>

definition add_attempt ::
  "env \<Rightarrow> store_config \<Rightarrow> instants \<Rightarrow> mutation_audit \<Rightarrow> relationship \<Rightarrow> bool \<Rightarrow> db \<Rightarrow> db result" where
  "add_attempt env cfg at m rel memberTarget db =
     bindE (callFence cfg (rel_org rel) (rel_source rel) db) (\<lambda>(strict, db).
     bindE (checkStrictRelationship db strict rel memberTarget) (\<lambda>_.
     bindE (addRelationships env m [rel] (db, [])) (\<lambda>(db, changes).
     bindE (if cfg_search_work cfg
            then schedule_related env (at_schedule at) [\<lparr>rels_add = [rel], rels_remove = []\<rparr>] db
            else Inr db) (\<lambda>db.
     append_changes env m (at_append at) (db, changes)))))"

definition add ::
  "env \<Rightarrow> store_config \<Rightarrow> instants \<Rightarrow> audit_event option \<Rightarrow> uuid \<Rightarrow> relationship \<Rightarrow> bool \<Rightarrow> db \<Rightarrow> db result" where
  "add env cfg at operation base rel memberTarget db =
     bindE (beginMutationAudit operation base (rel_org rel)) (\<lambda>m. add_attempt env cfg at m rel memberTarget db)"

definition Add ::
  "env \<Rightarrow> store_config \<Rightarrow> instants \<Rightarrow> audit_event option \<Rightarrow> uuid \<Rightarrow> relationship \<Rightarrow> db \<Rightarrow> db result" where
  "Add env cfg at operation base rel db = add env cfg at operation base rel False db"

definition AddMemberTarget ::
  "env \<Rightarrow> store_config \<Rightarrow> instants \<Rightarrow> audit_event option \<Rightarrow> uuid \<Rightarrow> relationship \<Rightarrow> db \<Rightarrow> db result" where
  "AddMemberTarget env cfg at operation base rel db = add env cfg at operation base rel True db"

definition removed_edge :: "uuid \<Rightarrow> uuid \<Rightarrow> string \<Rightarrow> uuid \<Rightarrow> relationship" where
  "removed_edge orgID sourceID relationType targetID =
     \<lparr>rel_org = orgID, rel_source = sourceID, rel_type = relationType, rel_target = targetID,
      rel_created_by = uuid_nil, rel_created_at = 0, rel_props = fmempty\<rparr>"

definition remove_attempt ::
  "env \<Rightarrow> store_config \<Rightarrow> instants \<Rightarrow> mutation_audit \<Rightarrow> uuid \<Rightarrow> uuid \<Rightarrow> string \<Rightarrow> uuid \<Rightarrow> db \<Rightarrow> db result" where
  "remove_attempt env cfg at m orgID sourceID relationType targetID db =
     bindE (refuseOnlyParentRemoval (env_lib env) db orgID sourceID relationType targetID) (\<lambda>_.
     bindE (callFence cfg orgID sourceID db) (\<lambda>(_, db).
     let changed = removed_edge orgID sourceID relationType targetID in
     bindE (removeRelationships env m [changed] (db, [])) (\<lambda>(db, changes).
     bindE (if cfg_search_work cfg
            then schedule_related env (at_schedule at) [\<lparr>rels_add = [], rels_remove = [changed]\<rparr>] db
            else Inr db) (\<lambda>db.
     append_changes env m (at_append at) (db, changes)))))"

definition Remove ::
  "env \<Rightarrow> store_config \<Rightarrow> instants \<Rightarrow> audit_event option \<Rightarrow> uuid \<Rightarrow> uuid \<Rightarrow> uuid \<Rightarrow> string \<Rightarrow> uuid \<Rightarrow> db \<Rightarrow> db result" where
  "Remove env cfg at operation base orgID sourceID relationType targetID db =
     bindE (beginMutationAudit operation base orgID) (\<lambda>m.
     remove_attempt env cfg at m orgID sourceID relationType targetID db)"

section \<open>Listings\<close>

definition ListBySources :: "db \<Rightarrow> uuid \<Rightarrow> uuid list \<Rightarrow> string \<Rightarrow> (uuid, relationship list) fmap" where
  "ListBySources db orgID sourceIDs relationType =
     fold (\<lambda>sourceID. fmupd sourceID (ListBySource db orgID sourceID relationType)) sourceIDs fmempty"

record id_page =
  page_ids :: "uuid list"
  page_next :: "(uuid \<times> uuid \<times> string \<times> uuid) option"
  page_done :: bool

definition maxRelationshipPage :: nat where
  "maxRelationshipPage = 100"

definition edgeEnd :: "uuid \<times> uuid \<times> string \<times> uuid \<Rightarrow> uuid" where
  "edgeEnd k = snd (snd (snd k))"

text \<open>The keys under a prefix in order; a cursor is the last key of the page before.\<close>

definition edgePage ::
  "(uuid \<times> uuid \<times> string \<times> uuid) list \<Rightarrow> (uuid \<times> uuid \<times> string \<times> uuid) option \<Rightarrow> int \<Rightarrow> id_page result" where
  "edgePage keys cursor limit =
     (if limit < 1 \<or> int maxRelationshipPage < limit then Inl ErrInternal
      else
        let items = take (nat limit + 1) (filter (\<lambda>k. case cursor of None \<Rightarrow> True | Some l \<Rightarrow> l < k) keys);
            finished = length items \<le> nat limit;
            items = (if finished then items else take (nat limit) items) in
        Inr \<lparr>page_ids = map edgeEnd items,
             page_next = (if \<not> finished \<and> items \<noteq> [] then Some (last items) else None),
             page_done = finished\<rparr>)"

definition EdgesFrom ::
  "db \<Rightarrow> uuid \<Rightarrow> uuid \<Rightarrow> string \<Rightarrow> (uuid \<times> uuid \<times> string \<times> uuid) option \<Rightarrow> int \<Rightarrow> id_page result" where
  "EdgesFrom db orgID sourceID relationType cursor limit =
     edgePage (map fst (outgoing_range db orgID sourceID relationType)) cursor limit"

definition EdgesTo ::
  "db \<Rightarrow> uuid \<Rightarrow> uuid \<Rightarrow> string \<Rightarrow> (uuid \<times> uuid \<times> string \<times> uuid) option \<Rightarrow> int \<Rightarrow> id_page result" where
  "EdgesTo db orgID targetID relationType cursor limit =
     edgePage (incoming_range db orgID targetID relationType) cursor limit"

section \<open>What the shared steps change\<close>

text \<open>The consistency of the store reads seven families.\<close>

lemma store_ok_cong:
  assumes "db_nodes db' = db_nodes db" "db_resolves db' = db_resolves db" "db_rels db' = db_rels db"
    "db_rels_rev db' = db_rels_rev db" "db_ref_keys db' = db_ref_keys db" "db_ref_owned db' = db_ref_owned db"
    "db_search db' = db_search db"
  shows "store_ok lib db' = store_ok lib db"
  using assms nodes_ok_cong [of db' db] rels_ok_cong [of db' db] refs_ok_cong [of db' db lib]
  by (simp add: store_ok_def)

lemma store_ok_update [simp]:
  "store_ok lib (db\<lparr>db_fence := f\<rparr>) = store_ok lib db"
  "store_ok lib (db\<lparr>db_outbox := x\<rparr>) = store_ok lib db"
  "store_ok lib (db\<lparr>db_checkpoints := c\<rparr>) = store_ok lib db"
  "store_ok lib (db\<lparr>db_idempotency := i\<rparr>) = store_ok lib db"
  "store_ok lib (db\<lparr>db_props := p\<rparr>) = store_ok lib db"
  by (rule store_ok_cong; simp)+

lemma store_okD:
  assumes "store_ok lib db"
  shows "nodes_ok db" "rels_ok db" "refs_ok lib db" "search_ok lib (db_search db)"
  using assms by (simp_all add: store_ok_def)

definition fenced :: "store_config \<Rightarrow> uuid \<Rightarrow> uuid \<Rightarrow> db \<Rightarrow> db" where
  "fenced cfg orgID nodeID db = (if cfg_write_fence cfg then bump_fence orgID nodeID db else db)"

lemma callFence_Inr:
  "callFence cfg orgID nodeID db = Inr (strict, db') \<Longrightarrow> db' = fenced cfg orgID nodeID db \<and>
    (strict \<longleftrightarrow> cfg_write_fence cfg \<and> (\<exists>a. readStrictActivation db = Inr a \<and> sa_active a))"
  by (auto simp: callFence_def fenceNodeMutation_def fenced_def err_simps split: if_splits)

lemma fenced_update: "\<exists>f. fenced cfg orgID nodeID db = db\<lparr>db_fence := f\<rparr>"
proof -
  have "db = db\<lparr>db_fence := db_fence db\<rparr>" by simp
  then show ?thesis unfolding fenced_def bump_fence_def Let_def by metis
qed

lemma fenced_simps [simp]:
  "db_nodes (fenced cfg o' n db) = db_nodes db" "db_views (fenced cfg o' n db) = db_views db"
  "db_resolves (fenced cfg o' n db) = db_resolves db" "db_rels (fenced cfg o' n db) = db_rels db"
  "db_rels_rev (fenced cfg o' n db) = db_rels_rev db" "db_ref_keys (fenced cfg o' n db) = db_ref_keys db"
  "db_ref_owned (fenced cfg o' n db) = db_ref_owned db" "db_props (fenced cfg o' n db) = db_props db"
  "db_idempotency (fenced cfg o' n db) = db_idempotency db" "db_checkpoints (fenced cfg o' n db) = db_checkpoints db"
  "db_activation (fenced cfg o' n db) = db_activation db" "db_types (fenced cfg o' n db) = db_types db"
  "db_types_by_key (fenced cfg o' n db) = db_types_by_key db" "db_defs (fenced cfg o' n db) = db_defs db"
  "db_epochs (fenced cfg o' n db) = db_epochs db" "db_outbox (fenced cfg o' n db) = db_outbox db"
  "db_search (fenced cfg o' n db) = db_search db"
  using fenced_update [of cfg o' n db] by auto

lemma store_ok_fenced [simp]: "store_ok lib (fenced cfg orgID nodeID db) = store_ok lib db"
  by (rule store_ok_cong) simp_all

lemma append_changes_Inr:
  assumes "append_changes env m completedAt (db, changes) = Inr db'"
  obtains w where "db' = db\<lparr>db_outbox := db_outbox db @ w\<rparr>"
proof -
  have "\<exists>w. db' = db\<lparr>db_outbox := db_outbox db @ w\<rparr>"
  proof (cases "changes = []")
    case True
    then have "db' = db\<lparr>db_outbox := db_outbox db @ []\<rparr>"
      using assms by (simp add: append_changes_def AppendChanges_def)
    then show ?thesis by blast
  next
    case False
    then show ?thesis using assms by (auto simp: append_changes_def AppendChanges_def err_simps)
  qed
  then show thesis using that by blast
qed

lemma schedule_change_Inr:
  assumes "schedule_change env now orgID nodeID change db = Inr (current, db')"
  obtains s where "scheduleSearchChange (env_lib env) now orgID nodeID change (db_search db) = Inr (current, s)"
    "db' = db\<lparr>db_search := s\<rparr>"
  using assms by (auto simp: schedule_change_def err_simps split: prod.splits)

lemma schedule_related_Inr:
  assumes "schedule_related env now changes db = Inr db'"
  obtains s where "scheduleRelatedSearchWork (env_lib env) now (resolved db) changes (db_search db) = Inr s"
    "db' = db\<lparr>db_search := s\<rparr>"
  using assms by (auto simp: schedule_related_def err_simps)

lemma store_ok_search:
  "store_ok lib db \<Longrightarrow> search_ok lib s \<Longrightarrow> store_ok lib (db\<lparr>db_search := s\<rparr>)"
  using nodes_ok_cong [of "db\<lparr>db_search := s\<rparr>" db] rels_ok_cong [of "db\<lparr>db_search := s\<rparr>" db]
    refs_ok_cong [of "db\<lparr>db_search := s\<rparr>" db lib]
  by (simp add: store_ok_def)

text \<open>Search work of changed relationships touches the search state alone.\<close>

definition related_if :: "store_config \<Rightarrow> env \<Rightarrow> timestamp \<Rightarrow> relationship_changes list \<Rightarrow> db \<Rightarrow> db result" where
  "related_if cfg env now changes db = (if cfg_search_work cfg then schedule_related env now changes db else Inr db)"

lemma related_if_Inr:
  assumes "related_if cfg env now changes db = Inr db'"
  obtains s where "db' = db\<lparr>db_search := s\<rparr>" "search_ok (env_lib env) (db_search db) \<Longrightarrow> search_ok (env_lib env) s"
proof -
  have "\<exists>s. db' = db\<lparr>db_search := s\<rparr> \<and> (search_ok (env_lib env) (db_search db) \<longrightarrow> search_ok (env_lib env) s)"
  proof (cases "cfg_search_work cfg")
    case True
    then obtain s where "scheduleRelatedSearchWork (env_lib env) now (resolved db) changes (db_search db) = Inr s"
      "db' = db\<lparr>db_search := s\<rparr>"
      using assms schedule_related_Inr unfolding related_if_def by metis
    then show ?thesis using scheduleRelatedSearchWork_ok by blast
  next
    case False
    then have "db' = db\<lparr>db_search := db_search db\<rparr>" using assms by (simp add: related_if_def)
    then show ?thesis by blast
  qed
  then show thesis using that by blast
qed

lemma only_rels_store_ok:
  "only_rels db db' \<Longrightarrow> rels_ok db' \<Longrightarrow> store_ok lib db \<Longrightarrow> store_ok lib db'"
  using only_relsD [of db db'] nodes_ok_cong [of db' db] refs_ok_cong [of db' db lib] by (simp add: store_ok_def)

section \<open>What adding and removing do\<close>

lemma add_Inr:
  assumes "add env cfg at operation base rel memberTarget db = Inr db'"
  obtains strict e s w where "callFence cfg (rel_org rel) (rel_source rel) db = Inr (strict, fenced cfg (rel_org rel) (rel_source rel) db)"
    "checkStrictRelationship (fenced cfg (rel_org rel) (rel_source rel) db) strict rel memberTarget = Inr ()"
    "marshal_relationship env rel = Inr e"
    "db' = (set_relationship (rel_key rel) e (fenced cfg (rel_org rel) (rel_source rel) db))
       \<lparr>db_search := s, db_outbox := db_outbox db @ w\<rparr>"
    "search_ok (env_lib env) (db_search db) \<Longrightarrow> search_ok (env_lib env) s"
proof -
  let ?f = "fenced cfg (rel_org rel) (rel_source rel) db"
  obtain m strict db1 dbL changes dbS where run:
    "callFence cfg (rel_org rel) (rel_source rel) db = Inr (strict, db1)"
    "checkStrictRelationship db1 strict rel memberTarget = Inr ()"
    "addRelationships env m [rel] (db1, []) = Inr (dbL, changes)"
    "related_if cfg env (at_schedule at) [\<lparr>rels_add = [rel], rels_remove = []\<rparr>] dbL = Inr dbS"
    "append_changes env m (at_append at) (dbS, changes) = Inr db'"
    using assms unfolding related_if_def
    by (auto simp: add_def add_attempt_def err_simps split: prod.splits)
  have f: "db1 = ?f" using callFence_Inr [OF run(1)] by blast
  obtain e where e: "marshal_relationship env rel = Inr e" "dbL = set_relationship (rel_key rel) e ?f"
    using run(3) unfolding f
    by (auto simp: addRelationships_def readRelationshipValues_def err_simps elim!: add_relationship_Inr)
  obtain s where s: "dbS = dbL\<lparr>db_search := s\<rparr>"
      "search_ok (env_lib env) (db_search dbL) \<Longrightarrow> search_ok (env_lib env) s"
    using related_if_Inr [OF run(4)] by blast
  obtain w where w: "db' = dbS\<lparr>db_outbox := db_outbox dbS @ w\<rparr>"
    using append_changes_Inr [OF run(5)] by blast
  have keep: "db_search dbL = db_search db" "db_outbox dbL = db_outbox db"
    by (simp_all add: e(2) set_relationship_def)
  have "db' = (set_relationship (rel_key rel) e ?f)\<lparr>db_search := s, db_outbox := db_outbox db @ w\<rparr>"
    using w s(1) keep(2) e(2) by simp
  then show thesis using that run(1,2) f e(1) s(2) keep(1) by simp
qed

lemma remove_Inr:
  assumes "Remove env cfg at operation base orgID sourceID relationType targetID db = Inr db'"
  obtains s w where "refuseOnlyParentRemoval (env_lib env) db orgID sourceID relationType targetID = Inr ()"
    "db' = (clear_relationship (orgID, sourceID, relationType, targetID) (fenced cfg orgID sourceID db))
       \<lparr>db_search := s, db_outbox := db_outbox db @ w\<rparr>"
    "search_ok (env_lib env) (db_search db) \<Longrightarrow> search_ok (env_lib env) s"
proof -
  let ?f = "fenced cfg orgID sourceID db" and ?r = "removed_edge orgID sourceID relationType targetID"
  obtain m strict db1 dbL changes dbS where run:
    "refuseOnlyParentRemoval (env_lib env) db orgID sourceID relationType targetID = Inr ()"
    "callFence cfg orgID sourceID db = Inr (strict, db1)"
    "removeRelationships env m [?r] (db1, []) = Inr (dbL, changes)"
    "related_if cfg env (at_schedule at) [\<lparr>rels_add = [], rels_remove = [?r]\<rparr>] dbL = Inr dbS"
    "append_changes env m (at_append at) (dbS, changes) = Inr db'"
    using assms unfolding related_if_def
    by (auto simp: Remove_def remove_attempt_def Let_def err_simps split: prod.splits)
  have f: "db1 = ?f" using callFence_Inr [OF run(2)] by blast
  have e: "dbL = clear_relationship (rel_key ?r) ?f"
  proof -
    have "\<exists>stored. remove_relationship env m (?r, stored) (?f, []) = Inr (dbL, changes)"
      using run(3) unfolding f removeRelationships_def readRelationshipValues_def by (simp add: err_simps) blast
    then show ?thesis using remove_relationship_Inr by fastforce
  qed
  obtain s where s: "dbS = dbL\<lparr>db_search := s\<rparr>"
      "search_ok (env_lib env) (db_search dbL) \<Longrightarrow> search_ok (env_lib env) s"
    using related_if_Inr [OF run(4)] by blast
  obtain w where w: "db' = dbS\<lparr>db_outbox := db_outbox dbS @ w\<rparr>"
    using append_changes_Inr [OF run(5)] by blast
  have keep: "db_search dbL = db_search db" "db_outbox dbL = db_outbox db" "rel_key ?r = (orgID, sourceID, relationType, targetID)"
    by (simp_all add: e clear_relationship_def rel_key_def removed_edge_def)
  have "db' = (clear_relationship (orgID, sourceID, relationType, targetID) ?f)\<lparr>db_search := s, db_outbox := db_outbox db @ w\<rparr>"
    using w s(1) keep(2,3) e by simp
  then show thesis using that [OF run(1)] s(2) unfolding keep(1) by blast
qed

lemma add_store_ok:
  assumes "add env cfg at operation base rel memberTarget db = Inr db'" "store_ok (env_lib env) db"
  shows "store_ok (env_lib env) db'"
proof -
  let ?f = "fenced cfg (rel_org rel) (rel_source rel) db"
  obtain e s w where run: "marshal_relationship env rel = Inr e"
    "db' = (set_relationship (rel_key rel) e ?f)\<lparr>db_search := s, db_outbox := db_outbox db @ w\<rparr>"
    "search_ok (env_lib env) (db_search db) \<Longrightarrow> search_ok (env_lib env) s"
    using add_Inr [OF assms(1)] by metis
  have "store_ok (env_lib env) (set_relationship (rel_key rel) e ?f)"
    using assms(2) store_okD(2) [of "env_lib env" ?f] marshal_relationship_fits [OF run(1)]
    by (auto intro: only_rels_store_ok [OF only_rels_set] rels_ok_set)
  then show ?thesis using run(2,3) store_okD(4) [OF assms(2)] by (simp add: store_ok_search)
qed

lemma remove_store_ok:
  assumes "Remove env cfg at operation base orgID sourceID relationType targetID db = Inr db'"
    "store_ok (env_lib env) db"
  shows "store_ok (env_lib env) db'"
proof -
  let ?f = "fenced cfg orgID sourceID db"
  obtain s w where run:
    "db' = (clear_relationship (orgID, sourceID, relationType, targetID) ?f)\<lparr>db_search := s, db_outbox := db_outbox db @ w\<rparr>"
    "search_ok (env_lib env) (db_search db) \<Longrightarrow> search_ok (env_lib env) s"
    using remove_Inr [OF assms(1)] by metis
  have "store_ok (env_lib env) (clear_relationship (orgID, sourceID, relationType, targetID) ?f)"
    using assms(2) store_okD(2) [of "env_lib env" ?f]
    by (auto intro: only_rels_store_ok [OF only_rels_clear] rels_ok_clear)
  then show ?thesis using run store_okD(4) [OF assms(2)] by (simp add: store_ok_search)
qed

section \<open>The guard\<close>

lemma readMutationSource_resolve:
  assumes "readMutationSource db orgID nodeID = Inr s" "ms_exists s"
  obtains e r where "kv_get (db_resolves db) nodeID = Some e" "enc_value e = Some r" "resolve_org r = orgID"
    "resolve_kind r = ms_kind s"
  using assms by (auto simp: readMutationSource_def absent_source_def split: option.splits if_splits)

lemma readMutationSource_record:
  assumes "readMutationSource db orgID nodeID = Inr s" "ms_exists s"
  obtains e where "kv_get (db_nodes db) (orgID, ms_kind s, nodeID) = Some e" "enc_value e = Some (ms_node s)"
    "enc_text e = ms_encoding s"
proof -
  obtain kind e where "kv_get (db_nodes db) (orgID, kind, nodeID) = Some e" "enc_value e = Some (ms_node s)"
    "ms_kind s = kind" "ms_encoding s = enc_text e"
    using assms by (auto simp: readMutationSource_def absent_source_def split: option.splits if_splits)
  then show thesis using that by simp
qed

lemma parentIDValue_storedUUID: "parentIDValue lib raw = Inr p \<Longrightarrow> storedUUID lib raw = p"
  by (auto simp: parentIDValue_def storedUUID_def split: if_splits option.splits)

lemma readHierarchyNode_source:
  assumes "readHierarchyNode db orgID nodeID = Inr hn" "readMutationSource db orgID nodeID = Inr s" "ms_exists s"
  shows "hn_found hn \<and> hn_type_key hn = ms_kind s \<and> hn_id hn = nodeID"
proof -
  obtain e r where "kv_get (db_resolves db) nodeID = Some e" "enc_value e = Some r" "resolve_org r = orgID"
    "resolve_kind r = ms_kind s"
    using readMutationSource_resolve [OF assms(2,3)] .
  then show ?thesis using assms(1) by (auto simp: readHierarchyNode_def Let_def err_simps)
qed

lemma storedParentID_source:
  assumes "storedParentID lib db orgID hn = Inr p" "readHierarchyNode db orgID nodeID = Inr hn"
    and "readMutationSource db orgID nodeID = Inr s" "ms_exists s"
  shows "storedUUID lib (prop_of (node_props (ms_node s)) parentIDName) = p"
proof -
  note hn = readHierarchyNode_source [OF assms(2-4)]
  obtain e where e: "kv_get (db_nodes db) (orgID, ms_kind s, nodeID) = Some e" "enc_value e = Some (ms_node s)"
    using readMutationSource_record [OF assms(3,4)] by metis
  have "parentIDValue lib (prop_of (node_props (ms_node s)) parentIDName) = Inr p"
    using assms(1) hn e by (auto simp: storedParentID_def readNodeAndView_def err_simps split: option.splits)
  then show ?thesis by (rule parentIDValue_storedUUID)
qed

lemma otherParentTarget_Some:
  assumes "otherParentTarget db orgID sourceID removedKey = Some otherID"
  shows "(orgID, sourceID, RelChildOf, otherID) \<noteq> removedKey \<and>
    fmlookup (db_rels db) (orgID, sourceID, RelChildOf, otherID) \<noteq> None"
proof -
  let ?ks = "filter (\<lambda>k. k \<noteq> removedKey) (map fst (take parentGuardEdgeLimit (outgoing_range db orgID sourceID RelChildOf)))"
  obtain k ks where k: "?ks = k # ks" "otherID = snd (snd (snd k))"
    using assms unfolding otherParentTarget_def by (auto split: list.splits)
  have "k \<in> set ?ks" using k(1) by simp
  then have ne: "k \<noteq> removedKey" and mem: "k \<in> fst ` set (outgoing_range db orgID sourceID RelChildOf)"
    using set_take_subset by fastforce+
  then obtain e where "(k, e) \<in> set (outgoing_range db orgID sourceID RelChildOf)" by auto
  then have "fmlookup (db_rels db) k = Some e" "fst k = orgID" "fst (snd k) = sourceID" "fst (snd (snd k)) = RelChildOf"
    by (cases k; simp add: outgoing_range_def kv_simps)+
  then show ?thesis using ne k(2) by (cases k) auto
qed

lemma guard_stored_parent:
  assumes "refuseOnlyParentRemoval lib db orgID sourceID RelChildOf targetID = Inr ()"
    and "kv_get (db_rels db) (orgID, sourceID, RelChildOf, targetID) \<noteq> None"
    and "readMutationSource db orgID sourceID = Inr s" "ms_exists s"
    and "storedUUID lib (prop_of (node_props (ms_node s)) parentIDName) \<noteq> uuid_nil"
  shows "storedUUID lib (prop_of (node_props (ms_node s)) parentIDName) \<noteq> targetID"
proof -
  obtain hn p where hn: "readHierarchyNode db orgID sourceID = Inr hn" "storedParentID lib db orgID hn = Inr p"
    and go: "p \<noteq> uuid_nil \<and> p \<noteq> targetID \<or> p = uuid_nil"
    using assms(1,2) by (auto simp: refuseOnlyParentRemoval_def err_simps split: if_splits)
  show ?thesis using storedParentID_source [OF hn(2,1) assms(3,4)] go assms(5) by auto
qed

lemma guard_only_edge:
  assumes "refuseOnlyParentRemoval lib db orgID sourceID RelChildOf targetID = Inr ()"
    and "kv_get (db_rels db) (orgID, sourceID, RelChildOf, targetID) \<noteq> None"
    and "readHierarchyNode db orgID sourceID = Inr hn" "storedParentID lib db orgID hn = Inr uuid_nil"
    and "hn_kind hn = Some kind" "can_live_under kind \<noteq> []"
  shows "\<exists>otherID. otherID \<noteq> targetID \<and> fmlookup (db_rels db) (orgID, sourceID, RelChildOf, otherID) \<noteq> None"
proof -
  let ?other = "otherParentTarget db orgID sourceID (orgID, sourceID, RelChildOf, targetID)"
  have "\<exists>p. HierarchyParent (Some kind) (case ?other of None \<Rightarrow> [] | Some otherID \<Rightarrow> [otherID]) = Inr p"
    using assms by (auto simp: refuseOnlyParentRemoval_def Let_def split: sum.splits)
  then have "?other \<noteq> None" using assms(6) by (cases ?other) (auto simp: HierarchyParent_def)
  then show ?thesis using otherParentTarget_Some by blast
qed

section \<open>A sample environment\<close>

text \<open>Every valid change of the sample environment is recorded and appended.\<close>

lemma demo_law [simp]: "uuid_law demo_lib"
  using unary_lib_law by (simp add: uuid_law_def demo_lib_def)

definition demo_audit :: "uuid \<Rightarrow> mutation_audit" where
  "demo_audit orgID = \<lparr>ma_operation = sample_operation\<lparr>ev_context := (ev_context sample_operation)\<lparr>ctx_org := orgID\<rparr>\<rparr>, ma_base = 77\<rparr>"

lemma demo_begin: "beginMutationAudit (Some sample_operation) 77 orgID = Inr (demo_audit orgID)"
  by (simp add: beginMutationAudit_def demo_audit_def sample_operation_def mutation_operation_ok_def)

lemma demo_NewChange:
  assumes "validateTarget target" "before \<noteq> [] \<or> after \<noteq> []"
  shows "NewChange demo_lib 9 target before after =
    Inr \<lparr>chg_id = 9, chg_target = target, chg_before = before, chg_after = after, chg_changed = [], chg_protected = []\<rparr>"
  using assms
  by (auto simp: NewChange_def changedFields_def recordFields_def changed_pointers_def ValidateChange_def demo_lib_def unary_lib_def
    sample_lib_def Let_def)

lemma demo_record:
  assumes "validateTarget target" "before \<noteq> [] \<or> after \<noteq> []"
  shows "\<exists>c. record_change sample_env m target before after changes =
    Inr (changes @ c) \<and> list_all (\<lambda>c. ValidateChange demo_lib c \<and> chg_protected c = []) c \<and> length c \<le> 1"
proof (cases "before = after")
  case True
  then show ?thesis by (simp add: record_change_def)
next
  case False
  have id: "eventID demo_lib base target before after = 9" for base by (simp add: eventID_def demo_lib_def Let_def)
  have v: "ValidateChange demo_lib \<lparr>chg_id = 9, chg_target = target, chg_before = before, chg_after = after, chg_changed = [], chg_protected = []\<rparr>"
    using demo_NewChange [OF assms] by (auto simp: NewChange_def err_simps Let_def)
  show ?thesis
    using False demo_NewChange [OF assms] v by (simp add: record_change_def sample_env_def id lift_unit_def)
qed

lemma demo_encode:
  assumes "ValidateChange demo_lib c" "chg_protected c = []" "orgID \<noteq> uuid_nil" "100 \<le> t"
  shows "\<exists>enc v. encodeChangeEvent sample_env (ma_operation (demo_audit orgID)) c t = Inr enc \<and> lift_unit (Records (env_wire sample_env) enc) = Inr [v]"
proof -
  have c: "chg_id c \<noteq> uuid_nil" "validateTarget (chg_target c)" "chg_before c \<noteq> [] \<or> chg_after c \<noteq> []"
    using assms(1) by (auto simp: ValidateChange_def)
  have refs: "deltaReferences demo_lib d = Inr []" for d
    by (simp add: deltaReferences_def record_members_def demo_lib_def unary_lib_def sample_lib_def)
  have "\<exists>e. ChangeEvent demo_lib (ma_operation (demo_audit orgID)) c t = Inr e \<and> ev_id e \<noteq> uuid_nil \<and> ctx_read (ev_context e) = None"
    using assms c
    by (auto simp: ChangeEvent_def Let_def ValidateEvent_def validateEventContract_def change_context_def
      AuditFormatLegacy_def AuditFormatComplete_def demo_audit_def sample_operation_def validateProtected_def refs
      validateCompleteEvent_change [where target = "chg_target c"] validateActor_def)
  then obtain e where e: "ChangeEvent demo_lib (ma_operation (demo_audit orgID)) c t = Inr e" "ev_id e \<noteq> uuid_nil"
    "ctx_read (ev_context e) = None" by blast
  have "split_envelope [7, 8] = [[7, 8]]"
    by (simp add: split_envelope.simps EventPartMaxBytes_def)
  moreover have "wire_envelope sample_wire = (\<lambda>_ _. Some [7, 8])" by (simp add: sample_wire_def)
  ultimately obtain enc p where enc: "EncodeEvent demo_lib sample_wire e [] = Inr enc" "enc_single enc" "enc_parts enc = [p]"
    using e(2,3) by (simp add: EncodeEvent_def checkReadManifest_def event_parts_def Let_def)
  have "Records sample_wire enc = Inr [[7]]"
    using enc(2,3) by (simp add: Records_def HeaderAndParts_def Multipart_def sample_wire_def)
  then show ?thesis using e(1) enc(1)
    by (auto simp: encodeChangeEvent_def sample_env_def lift_unit_def)
qed

lemma demo_append:
  assumes "list_all (\<lambda>c. ValidateChange demo_lib c \<and> chg_protected c = []) changes" "length changes \<le> 100"
    "orgID \<noteq> uuid_nil" "100 \<le> t"
  shows "\<exists>db'. append_changes sample_env (demo_audit orgID) t (db, changes) = Inr db'"
proof -
  let ?f = "\<lambda>change written. bindE (encodeChangeEvent sample_env (ma_operation (demo_audit orgID)) change t) (\<lambda>encoded.
          WriteEncodedEvent sample_env encoded written)"
  have "\<exists>w'. foldE ?f cs w = Inr w'"
    if "list_all (\<lambda>c. ValidateChange demo_lib c \<and> chg_protected c = []) cs" "length w + length cs \<le> 100" for cs w
    using that
  proof (induction cs arbitrary: w)
    case (Cons c cs)
    then obtain enc v where "encodeChangeEvent sample_env (ma_operation (demo_audit orgID)) c t = Inr enc"
      "lift_unit (Records (env_wire sample_env) enc) = Inr [v]"
      using demo_encode [OF _ _ assms(3,4), of c] by auto
    then show ?case using Cons.IH [of "w @ [v]"] Cons.prems
      by (simp add: WriteEncodedEvent_def outboxEntriesPerTransaction_def)
  qed simp
  from this [of changes "[]"] show ?thesis
    using assms(1,2) by (auto simp: append_changes_def AppendChanges_def)
qed

section \<open>Properties\<close>

text \<open>
  C17: Removing a relationship. A removal deletes exactly the named edge from both families, keeps the
  store consistent, and never takes a node's hierarchy parent away: the removed \<open>child_of\<close> edge does not
  lead to the parent that the node stores, and when the node stores none and its type must live under
  another, a further \<open>child_of\<close> edge remains.
\<close>

theorem Remove_keeps_parent:
  assumes "Remove env cfg at operation base orgID sourceID relationType targetID db = Inr db'"
    and "store_ok (env_lib env) db"
  shows "db_rels db' = fmdrop (orgID, sourceID, relationType, targetID) (db_rels db) \<and>
    db_rels_rev db' = db_rels_rev db |-| {|(orgID, targetID, relationType, sourceID)|} \<and>
    db_nodes db' = db_nodes db \<and> store_ok (env_lib env) db' \<and>
    (relationType = RelChildOf \<and> fmlookup (db_rels db) (orgID, sourceID, relationType, targetID) \<noteq> None \<longrightarrow>
      (\<forall>s p. readMutationSource db orgID sourceID = Inr s \<and> ms_exists s \<and>
          storedUUID (env_lib env) (prop_of (node_props (ms_node s)) parentIDName) = p \<and> p \<noteq> uuid_nil \<longrightarrow> p \<noteq> targetID) \<and>
      (\<forall>hn kind. readHierarchyNode db orgID sourceID = Inr hn \<and> storedParentID (env_lib env) db orgID hn = Inr uuid_nil \<and>
          hn_kind hn = Some kind \<and> can_live_under kind \<noteq> [] \<longrightarrow>
        (\<exists>otherID. fmlookup (db_rels db') (orgID, sourceID, RelChildOf, otherID) \<noteq> None)))"
proof -
  obtain s w where run: "refuseOnlyParentRemoval (env_lib env) db orgID sourceID relationType targetID = Inr ()"
    "db' = (clear_relationship (orgID, sourceID, relationType, targetID) (fenced cfg orgID sourceID db))
       \<lparr>db_search := s, db_outbox := db_outbox db @ w\<rparr>"
    using remove_Inr [OF assms(1)] by metis
  have rels: "db_rels db' = fmdrop (orgID, sourceID, relationType, targetID) (db_rels db)"
    "db_rels_rev db' = db_rels_rev db |-| {|(orgID, targetID, relationType, sourceID)|}" "db_nodes db' = db_nodes db"
    using run(2) by (simp_all add: clear_relationship_def)
  have stored: "kv_get (db_rels db) k \<noteq> None" if k: "fmlookup (db_rels db) k \<noteq> None" for k
  proof -
    obtain e where e: "fmlookup (db_rels db) k = Some e" using k by blast
    then obtain r where "decode e = Some r" using rels_ok_lookup [OF store_okD(2) [OF assms(2)]] by blast
    then show ?thesis using e by (simp add: kv_get_def decode_Some)
  qed
  have left: "\<exists>otherID. fmlookup (db_rels db') (orgID, sourceID, RelChildOf, otherID) \<noteq> None"
    if "\<exists>otherID. otherID \<noteq> targetID \<and> fmlookup (db_rels db) (orgID, sourceID, RelChildOf, otherID) \<noteq> None"
    using that unfolding rels(1) by auto
  have parent: "p \<noteq> targetID"
    if child: "relationType = RelChildOf" "fmlookup (db_rels db) (orgID, sourceID, relationType, targetID) \<noteq> None"
      and src: "readMutationSource db orgID sourceID = Inr s" "ms_exists s"
        "storedUUID (env_lib env) (prop_of (node_props (ms_node s)) parentIDName) = p" "p \<noteq> uuid_nil" for s p
    using guard_stored_parent [OF run(1) [unfolded child(1)] stored [OF child(2), unfolded child(1)] src(1,2)] src(3,4)
    by simp
  have other: "\<exists>otherID. fmlookup (db_rels db') (orgID, sourceID, RelChildOf, otherID) \<noteq> None"
    if child: "relationType = RelChildOf" "fmlookup (db_rels db) (orgID, sourceID, relationType, targetID) \<noteq> None"
      and hn: "readHierarchyNode db orgID sourceID = Inr hn" "storedParentID (env_lib env) db orgID hn = Inr uuid_nil"
        "hn_kind hn = Some kind" "can_live_under kind \<noteq> []" for hn kind
    by (rule left, rule guard_only_edge [OF run(1) [unfolded child(1)] stored [OF child(2), unfolded child(1)] hn])
  show ?thesis
    by (intro conjI impI allI; (elim conjE)?)
      ((rule rels remove_store_ok [OF assms])+, (rule parent; assumption), (rule other; assumption))
qed

text \<open>A store with one \<open>child_of\<close> edge, whose source is not stored.\<close>

definition sample_config :: store_config where
  "sample_config = \<lparr>cfg_search_work = False, cfg_write_fence = True\<rparr>"

definition sample_instants :: instants where
  "sample_instants = \<lparr>at_write = 200, at_schedule = 200, at_append = 200\<rparr>"

definition edge_db :: db where
  "edge_db = set_relationship (1, 2, RelChildOf, 3) (json_object [] (removed_edge 1 2 RelChildOf 3)) empty_db"

lemma edge_db_ok: "store_ok lib edge_db"
proof -
  have "rels_ok edge_db"
    unfolding edge_db_def
    by (rule rels_ok_set) (use store_okD(2) [OF empty_db_ok] in \<open>auto simp: rel_fits_def rel_key_def removed_edge_def\<close>)
  then show ?thesis using only_rels_store_ok [OF only_rels_set _ empty_db_ok] unfolding edge_db_def by blast
qed

lemma edge_db_simps:
  "db_rels edge_db = fmupd (1, 2, RelChildOf, 3) (json_object [] (removed_edge 1 2 RelChildOf 3)) fmempty"
  "db_resolves edge_db = fmempty" "db_fence edge_db = fmempty" "db_activation edge_db = None"
  by (simp_all add: edge_db_def set_relationship_def empty_db_def)

lemma sample_fence: "db_activation db = None \<Longrightarrow>
    callFence sample_config orgID nodeID db = Inr (False, fenced sample_config orgID nodeID db)"
  by (simp add: callFence_def fenceNodeMutation_def readStrictActivation_def fenced_def sample_config_def inactive_def)

lemma edge_db_remove:
  "\<exists>db'. Remove sample_env sample_config sample_instants (Some sample_operation) 77 1 2 RelChildOf 3 edge_db = Inr db'"
proof -
  let ?f = "fenced sample_config 1 2 edge_db" and ?r = "removed_edge 1 2 RelChildOf 3"
  have guard: "refuseOnlyParentRemoval demo_lib edge_db 1 2 RelChildOf 3 = Inr ()"
  proof -
    have "outgoing_range edge_db 1 2 RelChildOf = [((1, 2, RelChildOf, 3), json_object [] ?r)]"
      by (simp add: outgoing_range_def edge_db_simps kv_range_def sorted_list_of_fmap_def sorted_list_of_fset.rep_eq)
    then show ?thesis
      by (simp add: refuseOnlyParentRemoval_def readHierarchyNode_def storedParentID_def edge_db_simps Let_def
        otherParentTarget_def HierarchyParent_def parentGuardEdgeLimit_def)
  qed
  have target: "validateTarget (rel_target_of ?r)"
    by (simp add: rel_target_of_def removed_edge_def relationshipTarget_def validateTarget_def)
  have stored: "readRelationshipValues ?f [?r] = [[0x7B]]"
    by (simp add: readRelationshipValues_def edge_db_simps rel_key_def removed_edge_def json_object_def)
  obtain c where c: "record_change sample_env (demo_audit 1) (rel_target_of ?r) [0x7B] [] [] = Inr c"
    "list_all (\<lambda>c. ValidateChange demo_lib c \<and> chg_protected c = []) c" "length c \<le> 1"
    using demo_record [OF target, of "[0x7B]" "[]" "demo_audit 1" "[]"] by auto
  have rem: "removeRelationships sample_env (demo_audit 1) [?r] (?f, []) = Inr (clear_relationship (rel_key ?r) ?f, c)"
    using stored c(1) by (simp add: removeRelationships_def remove_relationship_def)
  obtain db' where "append_changes sample_env (demo_audit 1) 200 (clear_relationship (rel_key ?r) ?f, c) = Inr db'"
    using demo_append [OF c(2), of 1 200] c(3) by auto
  then show ?thesis
    using guard rem sample_fence [OF edge_db_simps(4), of 1 2]
    by (simp add: Remove_def remove_attempt_def demo_begin Let_def sample_env_def sample_config_def sample_instants_def)
qed

theorem Remove_keeps_parent_witness:
  "\<exists>db'. Remove sample_env sample_config sample_instants (Some sample_operation) 77 1 2 RelChildOf 3 edge_db = Inr db' \<and>
    fmlookup (db_rels edge_db) (1, 2, RelChildOf, 3) \<noteq> None \<and> fmlookup (db_rels db') (1, 2, RelChildOf, 3) = None"
proof -
  obtain db' where run: "Remove sample_env sample_config sample_instants (Some sample_operation) 77 1 2 RelChildOf 3 edge_db = Inr db'"
    using edge_db_remove by blast
  have "db_rels db' = fmdrop (1, 2, RelChildOf, 3) (db_rels edge_db)"
    using Remove_keeps_parent [OF run edge_db_ok] by blast
  then show ?thesis using run by (simp add: edge_db_simps)
qed

end
