(* ===== verification/Node_Mutation.thy ===== *)
theory Node_Mutation
  imports Relationship_Store
begin

text \<open>
  \<open>ApplyMutation\<close>: one planned create or update of a node as a transaction attempt. The attempt
  rereads what the plan was made from (source record, metadata epoch, graph records, parent chain),
  refuses a plan that no longer fits, and writes the records, property indexes, references,
  relationships, idempotency record, search work and change events. Snapshots and repair checkpoints,
  which plans are made from and advance, are here too.
\<close>

section \<open>Snapshots\<close>

definition readNodeSnapshot :: "lib \<Rightarrow> db \<Rightarrow> uuid \<Rightarrow> uuid \<Rightarrow> mutation_snapshot result" where
  "readNodeSnapshot lib db orgID nodeID =
     bindE (readMutationSource db orgID nodeID) (\<lambda>source.
     if \<not> ms_exists source then
       Inr \<lparr>snap_exists = False, snap_node = absentNode, snap_encoding = [], snap_primary_digest = 0,
         snap_parent = uuid_nil, snap_outgoing = [], snap_incoming = [], snap_incoming_overflow = False\<rparr>
     else bindE (readOutgoingSnapshots lib db orgID nodeID []) (\<lambda>outgoing.
       bindE (readIncomingSnapshots lib db orgID nodeID) (\<lambda>(incoming, overflow).
       Inr \<lparr>snap_exists = True, snap_node = ms_node source, snap_encoding = ms_encoding source,
         snap_primary_digest = PrimaryDigest lib (ms_encoding source),
         snap_parent = storedUUID lib (prop_of (node_props (ms_node source)) parentIDName),
         snap_outgoing = outgoing, snap_incoming = incoming, snap_incoming_overflow = overflow\<rparr>)))"

definition readSchemaSnapshot :: "db \<Rightarrow> uuid \<Rightarrow> schema_snapshot result" where
  "readSchemaSnapshot db orgID =
     bindE (readMetadataEpoch db orgID) (\<lambda>epoch.
     bindE (readSchemaRecords (db_defs db) orgID) (\<lambda>definitions.
     bindE (readSchemaRecords (db_types db) orgID) (\<lambda>types.
     Inr \<lparr>snap_schema = \<lparr>schema_org = orgID, schema_types = build_type_index types,
            schema_definitions = map Some definitions\<rparr>,
          snap_metadata_epoch = epoch\<rparr>)))"

definition ReadMutationSnapshot :: "lib \<Rightarrow> db \<Rightarrow> uuid \<Rightarrow> uuid \<Rightarrow> (mutation_snapshot \<times> schema_snapshot) result" where
  "ReadMutationSnapshot lib db orgID nodeID =
     bindE (readNodeSnapshot lib db orgID nodeID) (\<lambda>snapshot.
     bindE (readSchemaSnapshot db orgID) (\<lambda>schema. Inr (snapshot, schema)))"

section \<open>Checks of the plan\<close>

definition checkSource :: "lib \<Rightarrow> source_expectation \<Rightarrow> mutation_source \<Rightarrow> unit result" where
  "checkSource lib expected source =
     (if src_absent expected then (if ms_exists source then Inl ErrConflict else Inr ())
      else if \<not> ms_exists source then Inl ErrConflict
      else if PrimaryDigest lib (ms_encoding source) \<noteq> src_digest expected then Inl ErrConflict
      else Inr ())"

definition checkPlanShape :: "mutation_plan \<Rightarrow> mutation_source \<Rightarrow> unit result" where
  "checkPlanShape plan source =
     (if parentIDName \<in> fmdom' (mp_props plan) then Inl ErrInvalidArgument
      else if \<exists>r \<in> set (rels_add (mp_relationships plan) @ rels_remove (mp_relationships plan)). rel_type r = RelChildOf
      then Inl ErrReservedParentRelation
      else if ms_exists source \<and> ms_kind source \<noteq> mp_kind plan then Inl ErrConflict
      else Inr ())"

definition checkMutationSchema :: "db \<Rightarrow> mutation_plan \<Rightarrow> schema result" where
  "checkMutationSchema db plan =
     bindE (readMetadataEpoch db (mp_org plan)) (\<lambda>epoch.
     if epoch \<noteq> mp_metadata_epoch plan then Inl ErrConflict
     else bindE (cachedNodeTypeByKey db (mp_org plan) (mp_kind plan)) (\<lambda>kind.
       case kind of
         None \<Rightarrow> Inl ErrInvalidArgument
       | Some k \<Rightarrow>
           bindE (readSchemaRecords (db_defs db) (mp_org plan)) (\<lambda>definitions.
           Inr \<lparr>schema_org = mp_org plan, schema_types = fmupd (type_key k) k fmempty,
             schema_definitions = map Some definitions\<rparr>)))"

type_synonym sources = "(uuid, mutation_source) fmap"

definition check_graph_record :: "lib \<Rightarrow> db \<Rightarrow> uuid \<Rightarrow> graph_record \<Rightarrow> sources \<Rightarrow> sources result" where
  "check_graph_record lib db orgID expected records =
     bindE (readMutationSource db orgID (graph_node expected)) (\<lambda>source.
     if \<not> ms_exists source \<or> PrimaryDigest lib (ms_encoding source) \<noteq> graph_digest expected then Inl ErrConflict
     else Inr (fmupd (graph_node expected) source records))"

definition checkGraphRecords :: "lib \<Rightarrow> db \<Rightarrow> uuid \<Rightarrow> graph_record list \<Rightarrow> sources result" where
  "checkGraphRecords lib db orgID expected = foldE (check_graph_record lib db orgID) expected fmempty"

definition parent_in :: "lib \<Rightarrow> mutation_source \<Rightarrow> uuid" where
  "parent_in lib source = storedUUID lib (prop_of (node_props (ms_node source)) parentIDName)"

lemma chain_measure:
  assumes "fmlookup records currentID = Some ancestor" "currentID |\<notin>| visited"
  shows "fcard (fmdom records |-| finsert currentID visited) < fcard (fmdom records |-| visited)"
proof (rule pfsubset_fcard_mono)
  have "currentID |\<in>| fmdom records" using assms(1) by (simp add: fmdomI)
  then show "fmdom records |-| finsert currentID visited |\<subset>| fmdom records |-| visited"
    using assms(2) by auto
qed

text \<open>
  The loop of \<open>checkParentChain\<close> with its set of visited nodes. It ends because it continues only from
  a listed record that was not visited before.
\<close>

function parent_chain ::
  "lib \<Rightarrow> db \<Rightarrow> uuid \<Rightarrow> uuid \<Rightarrow> uuid \<Rightarrow> sources \<Rightarrow> uuid fset \<Rightarrow> uuid \<Rightarrow> unit result" where
  "parent_chain lib db orgID nodeID parentID records visited currentID =
     (if currentID = uuid_nil then Inr ()
      else if currentID = nodeID \<or> currentID |\<in>| visited then Inl ErrInvalidArgument
      else (case fmlookup records currentID of
         None \<Rightarrow>
           bindE (readMutationSource db orgID currentID) (\<lambda>stored.
           if \<not> ms_exists stored \<and> currentID \<noteq> parentID then Inr ()
           else if \<not> ms_exists stored then Inl ErrInvalidArgument
           else Inl ErrConflict)
       | Some ancestor \<Rightarrow>
           parent_chain lib db orgID nodeID parentID records (finsert currentID visited) (parent_in lib ancestor)))"
  by pat_completeness auto

termination
  by (relation "measure (\<lambda>(_, _, _, _, _, records, visited, _). fcard (fmdom records |-| visited))")
    (auto simp: chain_measure)

declare parent_chain.simps [simp del]

definition checkParentChain :: "lib \<Rightarrow> db \<Rightarrow> uuid \<Rightarrow> uuid \<Rightarrow> uuid \<Rightarrow> sources \<Rightarrow> unit result" where
  "checkParentChain lib db orgID nodeID parentID records =
     parent_chain lib db orgID nodeID parentID records {||} parentID"

text \<open>
  The loop of \<open>checkMoveScope\<close> has no set of visited nodes and would not end on a cycle of records; not
  returning is the value \<open>None\<close>.
\<close>

partial_function (option) scope_chain :: "lib \<Rightarrow> sources \<Rightarrow> uuid \<Rightarrow> uuid \<Rightarrow> bool option" where
  "scope_chain lib records scopeID currentID =
     (if currentID = uuid_nil then Some False
      else if currentID = scopeID then Some True
      else (case fmlookup records currentID of
         None \<Rightarrow> Some False
       | Some ancestor \<Rightarrow> scope_chain lib records scopeID (parent_in lib ancestor)))"

abbreviation scopeIDName :: string where
  "scopeIDName \<equiv> ''scope_id''"

text \<open>
  The check runs after \<open>checkParentChain\<close> accepted the records, when the loop returns; the error for a
  loop that does not return is never the result of an attempt.
\<close>

definition checkMoveScope :: "lib \<Rightarrow> mutation_plan \<Rightarrow> mutation_source \<Rightarrow> node \<Rightarrow> sources \<Rightarrow> unit result" where
  "checkMoveScope lib plan source result records =
     (case mp_parent plan of
        None \<Rightarrow> Inr ()
      | Some parentID \<Rightarrow>
          if \<not> ms_exists source then Inr ()
          else
            let scopeID = storedUUID lib (prop_of (node_props result) scopeIDName) in
            if scopeID = uuid_nil \<or> parentID = parent_in lib source then Inr ()
            else (case scope_chain lib records scopeID parentID of
               Some True \<Rightarrow> Inr ()
             | Some False \<Rightarrow> Inl ErrInvalidArgument
             | None \<Rightarrow> Inl ErrInternal))"

section \<open>The result\<close>

definition json_null_value :: "raw \<Rightarrow> bool" where
  "json_null_value value \<longleftrightarrow> raw_empty value \<or> enc_text value = json_null"

definition patch_props :: "props \<Rightarrow> props \<Rightarrow> props" where
  "patch_props patch props =
     fmfilter (\<lambda>name. case fmlookup patch name of None \<Rightarrow> True | Some value \<Rightarrow> \<not> json_null_value value) (props ++\<^sub>f patch)"

definition mutationResult :: "mutation_plan \<Rightarrow> mutation_source \<Rightarrow> timestamp \<Rightarrow> node" where
  "mutationResult plan source now =
     (let result = (if ms_exists source
            then (ms_node source)\<lparr>updated_by := mp_actor plan, updated_at := now\<rparr>
            else \<lparr>node_id = mp_node plan, node_org = mp_org plan, node_kind = mp_kind plan, node_name = [],
              node_props = fmempty, created_by = mp_actor plan, updated_by = mp_actor plan,
              created_at = now, updated_at = now\<rparr>);
          result = (case mp_name plan of None \<Rightarrow> result | Some name \<Rightarrow> result\<lparr>node_name := name\<rparr>) in
      result\<lparr>node_props := patch_props (mp_props plan) (node_props result)\<rparr>)"

text \<open>\<open>strconv.Quote\<close> of the text of a UUID, which has no character to escape.\<close>

definition quoted :: "string \<Rightarrow> raw" where
  "quoted t = Enc (0x22 # map of_char t @ [0x22]) (Some (JStr t))"

definition expectsRelationship :: "relationship_expectation list \<Rightarrow> relationship_snapshot \<Rightarrow> bool" where
  "expectsRelationship expected edge \<longleftrightarrow>
     (\<exists>candidate \<in> set expected. exp_type candidate = rel_type (snap_relationship edge) \<and>
        exp_target candidate = rel_target (snap_relationship edge) \<and> exp_digest candidate = snap_digest edge)"

definition child_of_edge ::
  "mutation_plan \<Rightarrow> uuid \<Rightarrow> relationship_snapshot \<Rightarrow> bool \<times> relationship list \<Rightarrow> (bool \<times> relationship list) result" where
  "child_of_edge plan targetID edge = (\<lambda>(kept, removed).
     if rel_target (snap_relationship edge) = targetID then Inr (True, removed)
     else if \<not> expectsRelationship (graph_relationships (mp_graph plan)) edge then Inl ErrConflict
     else Inr (kept, removed @ [(snap_relationship edge)\<lparr>rel_org := mp_org plan, rel_source := mp_node plan\<rparr>]))"

definition childOfChanges ::
  "lib \<Rightarrow> db \<Rightarrow> mutation_plan \<Rightarrow> mutation_source \<Rightarrow> node \<Rightarrow> (node \<times> relationship_changes) result" where
  "childOfChanges lib db plan source result =
     (case mp_parent plan of
        None \<Rightarrow> Inr (result, \<lparr>rels_add = [], rels_remove = []\<rparr>)
      | Some targetID \<Rightarrow>
          let result = result\<lparr>node_props := fmupd parentIDName (quoted (lib_uuid_string lib targetID)) (node_props result)\<rparr> in
          bindE (if ms_exists source then readOutgoingSnapshots lib db (mp_org plan) (mp_node plan) RelChildOf
                 else Inr []) (\<lambda>edges.
          bindE (foldE (child_of_edge plan targetID) edges (False, [])) (\<lambda>(kept, removed).
          Inr (result, \<lparr>rels_add = (if kept then [] else
              [\<lparr>rel_org = mp_org plan, rel_source = mp_node plan, rel_type = RelChildOf, rel_target = targetID,
                rel_created_by = mp_actor plan, rel_created_at = updated_at result, rel_props = fmempty\<rparr>]),
            rels_remove = removed\<rparr>))))"

definition planRelationshipChanges :: "mutation_plan \<Rightarrow> relationship_changes" where
  "planRelationshipChanges plan =
     \<lparr>rels_add = map (\<lambda>r. r\<lparr>rel_org := if rel_org r = uuid_nil then mp_org plan else rel_org r,
        rel_source := if rel_source r = uuid_nil then mp_node plan else rel_source r\<rparr>) (rels_add (mp_relationships plan)),
      rels_remove = rels_remove (mp_relationships plan)\<rparr>"

definition mutationView :: "node \<Rightarrow> node_view" where
  "mutationView result = result"

section \<open>Validation of an ordinary write\<close>

definition ordinaryIssue :: "property_issue \<Rightarrow> bool" where
  "ordinaryIssue issue \<longleftrightarrow>
     (case issue_code issue of
        PropertyIssueParent \<Rightarrow> False
      | PropertyIssueNotApplicable \<Rightarrow> \<not> IsManagedProperty (issue_property issue)
      | _ \<Rightarrow> True)"

definition readResultGraph ::
  "lib \<Rightarrow> db \<Rightarrow> mutation_plan \<Rightarrow> node \<Rightarrow> schema \<Rightarrow> (string \<Rightarrow> bool) \<Rightarrow> result_graph result" where
  "readResultGraph lib db plan result schema checked =
     bindE (foldE (\<lambda>entry targets.
         case entry of
           None \<Rightarrow> Inr targets
         | Some definition \<Rightarrow>
             if def_type definition \<noteq> PropertyTypeUUID \<or> reference_target_type_key definition = [] \<or>
               \<not> checked (def_name definition) then Inr targets
             else
               let targetID = storedUUID lib (prop_of (node_props result) (def_name definition)) in
               if targetID = uuid_nil \<or> fmlookup targets targetID \<noteq> None then Inr targets
               else bindE (readMutationSource db (mp_org plan) targetID) (\<lambda>target.
                 Inr (fmupd targetID \<lparr>target_found = ms_exists target, target_org = mp_org plan,
                   target_kind = ms_kind target\<rparr> targets)))
       (schema_definitions schema) fmempty) (\<lambda>targets.
     Inr \<lparr>rg_org = mp_org plan, rg_child_of = [], rg_targets = targets\<rparr>)"

definition checkMutationResult ::
  "lib \<Rightarrow> db \<Rightarrow> mutation_plan \<Rightarrow> mutation_source \<Rightarrow> node \<Rightarrow> schema \<Rightarrow> unit result" where
  "checkMutationResult lib db plan source result schema =
     (let checked = (\<lambda>name. \<not> ms_exists source \<or> name \<in> fmdom' (mp_props plan)) in
      bindE (readResultGraph lib db plan result schema checked) (\<lambda>graph.
      let validated = ValidateResult lib schema (mp_kind plan) (node_props result) graph in
      if pr_failures validated \<noteq> [] then Inl ErrSchemaRead
      else if filter (\<lambda>issue. checked (issue_property issue) \<and> ordinaryIssue issue) (pr_invalid validated) \<noteq> []
      then Inl ErrInvalidArgument
      else Inr ()))"

section \<open>Search change\<close>

definition excludedSearchProperties :: "property_def option list \<Rightarrow> (string, bool) fmap" where
  "excludedSearchProperties definitions =
     fold (\<lambda>entry excluded.
       case entry of
         None \<Rightarrow> excluded
       | Some definition \<Rightarrow>
           let declaredExcluded = (case search definition of None \<Rightarrow> False | Some p \<Rightarrow> \<not> proj_include p) in
           fmupd (def_name definition)
             (declaredExcluded \<and> fmlookup excluded (def_name definition) \<noteq> Some False) excluded)
       definitions fmempty"

definition changedPropertyNames :: "props \<Rightarrow> props \<Rightarrow> string list" where
  "changedPropertyNames source result =
     filter (\<lambda>name. enc_text (prop_of source name) \<noteq> enc_text (prop_of result name)) (sorted_list_of_fset (fmdom result)) @
     filter (\<lambda>name. name |\<notin>| fmdom result) (sorted_list_of_fset (fmdom source))"

definition rejectsProperty :: "lib \<Rightarrow> schema \<Rightarrow> string \<Rightarrow> string list \<Rightarrow> props \<Rightarrow> bool" where
  "rejectsProperty lib schema typeKey names props =
     (let values = fmfilter (\<lambda>name. name \<in> set names) props;
          interpreted = Interpret lib schema typeKey values in
      values \<noteq> fmempty \<and> (pr_invalid interpreted \<noteq> [] \<or> pr_failures interpreted \<noteq> []))"

definition mutationSearchChange :: "lib \<Rightarrow> mutation_source \<Rightarrow> node \<Rightarrow> schema \<Rightarrow> search_change" where
  "mutationSearchChange lib source result schema =
     (if \<not> ms_exists source \<or> node_name (ms_node source) \<noteq> node_name result then searchChangeContent
      else
        let excluded = excludedSearchProperties (schema_definitions schema);
            changed = changedPropertyNames (node_props (ms_node source)) (node_props result) in
        if \<exists>name \<in> set changed. fmlookup excluded name \<noteq> Some True then searchChangeContent
        else if rejectsProperty lib schema (node_kind result) changed (node_props (ms_node source)) \<or>
          rejectsProperty lib schema (node_kind result) changed (node_props result) then searchChangeContent
        else searchChangeAccess)"

section \<open>Repair checkpoints\<close>

definition readRepairCheckpoint :: "db \<Rightarrow> string \<Rightarrow> repair_checkpoint option result" where
  "readRepairCheckpoint db repairID =
     (case kv_get (db_checkpoints db) repairID of
        None \<Rightarrow> Inr None
      | Some e \<Rightarrow> (case enc_value e of None \<Rightarrow> Inl ErrDecode | Some checkpoint \<Rightarrow> Inr (Some checkpoint)))"

definition RepairCheckpoint :: "db \<Rightarrow> string \<Rightarrow> repair_checkpoint option result" where
  "RepairCheckpoint db repairID = readRepairCheckpoint db repairID"

definition advanceRepairCheckpoint :: "env \<Rightarrow> repair_phase \<Rightarrow> repair_checkpoint \<Rightarrow> db \<Rightarrow> db result" where
  "advanceRepairCheckpoint env previous following db =
     bindE (readRepairCheckpoint db (cp_repair_id following)) (\<lambda>stored.
     let storedPhase = (case stored of None \<Rightarrow> RepairPhaseNone | Some c \<Rightarrow> cp_phase c) in
     if storedPhase \<noteq> previous then Inl ErrConflict
     else if (case stored of None \<Rightarrow> False
        | Some c \<Rightarrow> cp_source_digest c \<noteq> cp_source_digest following \<or> cp_node c \<noteq> cp_node following) then Inl ErrConflict
     else if \<not> phase_follows (cp_phase following) storedPhase then Inl ErrConflict
     else bindE (marshal_checkpoint env following) (\<lambda>encoded.
       Inr (db\<lparr>db_checkpoints := fmupd (cp_repair_id following) encoded (db_checkpoints db)\<rparr>)))"

definition AdvanceRepairCheckpoint :: "env \<Rightarrow> repair_phase \<Rightarrow> repair_checkpoint \<Rightarrow> db \<Rightarrow> db result" where
  "AdvanceRepairCheckpoint env previous following db = advanceRepairCheckpoint env previous following db"

text \<open>The encoding is \<open>None\<close> for a deletion.\<close>

definition advanceMutationCheckpoint :: "env \<Rightarrow> checkpoint_write option \<Rightarrow> bytes option \<Rightarrow> db \<Rightarrow> db result" where
  "advanceMutationCheckpoint env write encoded db =
     (case write of
        None \<Rightarrow> Inr db
      | Some w \<Rightarrow>
          let following = (case encoded of
               Some e \<Rightarrow> if cp_phase (cw_next w) = RepairPhaseCompleted
                 then (cw_next w)\<lparr>cp_result_digest := hex_encode (digest_bytes (PrimaryDigest (env_lib env) e))\<rparr>
                 else cw_next w
             | None \<Rightarrow> cw_next w) in
          advanceRepairCheckpoint env (cw_previous w) following db)"

section \<open>Idempotency\<close>

definition uuid_of_bytes :: "bytes \<Rightarrow> uuid" where
  "uuid_of_bytes bs = fold (\<lambda>b acc. push_bit 8 acc OR ucast b) bs 0"

text \<open>An older record is the 16 bytes of the node ID.\<close>

definition decodeIdempotencyRecord :: "string \<Rightarrow> idempotency_record encoded \<Rightarrow> idempotency_record result" where
  "decodeIdempotencyRecord key e =
     (if length (enc_text e) = 16 then
        Inr \<lparr>idem_key = key, idem_node = uuid_of_bytes (enc_text e), idem_fingerprint = [], idem_created_at = 0,
          idem_source = []\<rparr>
      else (case enc_value e of None \<Rightarrow> Inl ErrDecode | Some r \<Rightarrow> Inr (r\<lparr>idem_key := key\<rparr>)))"

definition readCreateIdempotency :: "lib \<Rightarrow> db \<Rightarrow> mutation_plan \<Rightarrow> mutation_receipt option result" where
  "readCreateIdempotency lib db plan =
     (case mp_idempotency plan of
        None \<Rightarrow> Inr None
      | Some planned \<Rightarrow>
          (case kv_get (db_idempotency db) (mp_org plan, idem_key planned) of
             None \<Rightarrow> Inr None
           | Some e \<Rightarrow>
               bindE (decodeIdempotencyRecord (idem_key planned) e) (\<lambda>existing.
               if idem_fingerprint existing \<noteq> [] \<and> idem_fingerprint planned \<noteq> [] \<and>
                 idem_fingerprint existing \<noteq> idem_fingerprint planned then Inl ErrConflict
               else bindE (readMutationSource db (mp_org plan) (idem_node existing)) (\<lambda>source.
                 if \<not> ms_exists source then Inl ErrConflict
                 else Inr (Some \<lparr>mr_org = mp_org plan, mr_node = idem_node existing, mr_source_digest = 0,
                   mr_result_digest = PrimaryDigest lib (ms_encoding source)\<rparr>)))))"

definition writeCreateIdempotencyRecord :: "env \<Rightarrow> mutation_plan \<Rightarrow> db \<Rightarrow> db result" where
  "writeCreateIdempotencyRecord env plan db =
     (case mp_idempotency plan of
        None \<Rightarrow> Inr db
      | Some planned \<Rightarrow>
          bindE (marshal_idempotency env planned) (\<lambda>encoded.
          Inr (db\<lparr>db_idempotency := fmupd (mp_org plan, idem_key planned) encoded (db_idempotency db)\<rparr>)))"

section \<open>The attempt\<close>

text \<open>
  The schema holds the node type of the plan, as \<open>checkMutationSchema\<close> put it there; the branch for a
  missing type is never taken.
\<close>

definition write_references :: "lib \<Rightarrow> mutation_plan \<Rightarrow> mutation_source \<Rightarrow> db \<Rightarrow> db result" where
  "write_references lib plan source db =
     (if ms_exists source then
        (case mp_reference_keys plan of
           None \<Rightarrow> Inr db
         | Some keys \<Rightarrow> writeReferenceKeys lib (mp_org plan) (mp_node plan) keys db)
      else claimReferenceKeys lib (mp_org plan) (mp_node plan)
        (case mp_reference_keys plan of None \<Rightarrow> [] | Some keys \<Rightarrow> keys) db)"

definition mutation_target :: "mutation_plan \<Rightarrow> node \<Rightarrow> audit_target" where
  "mutation_target plan result =
     (case mp_reference_keys plan of
        Some (key # _) \<Rightarrow> (nodeTarget result)\<lparr>tgt_reference := ref_encoded key\<rparr>
      | _ \<Rightarrow> nodeTarget result)"

definition schedule_mutation ::
  "env \<Rightarrow> store_config \<Rightarrow> instants \<Rightarrow> mutation_plan \<Rightarrow> mutation_source \<Rightarrow> node \<Rightarrow> schema \<Rightarrow>
    relationship_changes list \<Rightarrow> db \<Rightarrow> db result" where
  "schedule_mutation env cfg at plan source result schema relationshipChanges db =
     (if \<not> cfg_search_work cfg then Inr db
      else bindE (schedule_change env (at_schedule at) (mp_org plan) (mp_node plan)
        (mutationSearchChange (env_lib env) source result schema) db) (\<lambda>(_, db).
      if \<not> ms_exists source then Inr db
      else schedule_related env (at_schedule at) relationshipChanges db))"

definition writeMutation ::
  "env \<Rightarrow> store_config \<Rightarrow> instants \<Rightarrow> mutation_audit \<Rightarrow> mutation_plan \<Rightarrow> mutation_source \<Rightarrow> node \<Rightarrow> schema \<Rightarrow>
    relationship_changes list \<Rightarrow> db \<Rightarrow> (bytes \<times> txn) result" where
  "writeMutation env cfg at m plan source result schema relationshipChanges db =
     bindE (writeNodeRecords env result (Some (mutationView result)) db) (\<lambda>(encoded, db).
     bindE (record_change env m (mutation_target plan result) (ms_encoding source) encoded []) (\<lambda>changes.
     case fmlookup (schema_types schema) (mp_kind plan) of
       None \<Rightarrow> Inl ErrInternal
     | Some kind \<Rightarrow>
         let db = reconcilePropertyIndexes result (node_props (ms_node source)) (indexedPropertyNames schema kind) db in
         bindE (write_references (env_lib env) plan source db) (\<lambda>db.
         bindE (applyRelationshipChanges env m relationshipChanges (db, changes)) (\<lambda>(db, changes).
         bindE (writeCreateIdempotencyRecord env plan db) (\<lambda>db.
         bindE (schedule_mutation env cfg at plan source result schema relationshipChanges db) (\<lambda>db.
         Inr (encoded, db, changes)))))))"

definition applyMutationAttempt ::
  "env \<Rightarrow> store_config \<Rightarrow> instants \<Rightarrow> mutation_audit \<Rightarrow> mutation_plan \<Rightarrow> db \<Rightarrow> (mutation_receipt \<times> txn) result" where
  "applyMutationAttempt env cfg at m plan db =
     bindE (readCreateIdempotency (env_lib env) db plan) (\<lambda>existing.
     case existing of
       Some receipt \<Rightarrow> Inr (receipt, db, [])
     | None \<Rightarrow>
         bindE (readMutationSource db (mp_org plan) (mp_node plan)) (\<lambda>source.
         bindE (checkSource (env_lib env) (mp_source plan) source) (\<lambda>_.
         bindE (checkPlanShape plan source) (\<lambda>_.
         bindE (checkMutationSchema db plan) (\<lambda>schema.
         bindE (checkGraphRecords (env_lib env) db (mp_org plan) (graph_records (mp_graph plan))) (\<lambda>records.
         bindE (case mp_parent plan of
             None \<Rightarrow> Inr ()
           | Some targetID \<Rightarrow> checkParentChain (env_lib env) db (mp_org plan) (mp_node plan) targetID records) (\<lambda>_.
         let result = mutationResult plan source (at_write at) in
         bindE (checkMoveScope (env_lib env) plan source result records) (\<lambda>_.
         bindE (childOfChanges (env_lib env) db plan source result) (\<lambda>(result, parentChanges).
         bindE (callFence cfg (mp_org plan) (mp_node plan) db) (\<lambda>(strict, db).
         bindE (checkStrictMutation (env_lib env) db strict result (mp_parent plan)) (\<lambda>_.
         bindE (checkMutationResult (env_lib env) db plan source result schema) (\<lambda>_.
         bindE (marshal_node (env_node_text env) result) (\<lambda>planned.
         bindE (advanceMutationCheckpoint env (mp_checkpoint plan) (Some (enc_text planned)) db) (\<lambda>db.
         let relationshipChanges = [planRelationshipChanges plan, parentChanges] in
         bindE (writeMutation env cfg at m plan source result schema relationshipChanges db) (\<lambda>(encoded, db, changes).
         bindE (checkStrictRelationshipAdds db strict relationshipChanges) (\<lambda>_.
         Inr (\<lparr>mr_org = mp_org plan, mr_node = mp_node plan,
               mr_source_digest = (if ms_exists source then PrimaryDigest (env_lib env) (ms_encoding source) else 0),
               mr_result_digest = PrimaryDigest (env_lib env) encoded\<rparr>, db, changes)))))))))))))))))"

definition ApplyMutation ::
  "env \<Rightarrow> store_config \<Rightarrow> instants \<Rightarrow> audit_event option \<Rightarrow> uuid \<Rightarrow> mutation_plan \<Rightarrow> db \<Rightarrow>
    (mutation_receipt \<times> db) result" where
  "ApplyMutation env cfg at operation base plan db =
     bindE (beginMutationAudit operation base (mp_org plan)) (\<lambda>m.
     bindE (applyMutationAttempt env cfg at m plan db) (\<lambda>(receipt, t).
     bindE (append_changes env m (at_append at) t) (\<lambda>db. Inr (receipt, db))))"

section \<open>The steps of an attempt\<close>

lemma applyMutationAttempt_cases:
  assumes "applyMutationAttempt env cfg at m plan db = Inr (receipt, db', changes)"
  obtains (replay) "readCreateIdempotency (env_lib env) db plan = Inr (Some receipt)" "db' = db" "changes = []"
  | (fresh) source schema records result parentChanges strict planned dbC encoded where
    "readCreateIdempotency (env_lib env) db plan = Inr None"
    "readMutationSource db (mp_org plan) (mp_node plan) = Inr source"
    "checkSource (env_lib env) (mp_source plan) source = Inr ()"
    "checkPlanShape plan source = Inr ()"
    "checkMutationSchema db plan = Inr schema"
    "checkGraphRecords (env_lib env) db (mp_org plan) (graph_records (mp_graph plan)) = Inr records"
    "(case mp_parent plan of None \<Rightarrow> Inr ()
      | Some targetID \<Rightarrow> checkParentChain (env_lib env) db (mp_org plan) (mp_node plan) targetID records) = Inr ()"
    "checkMoveScope (env_lib env) plan source (mutationResult plan source (at_write at)) records = Inr ()"
    "childOfChanges (env_lib env) db plan source (mutationResult plan source (at_write at)) = Inr (result, parentChanges)"
    "callFence cfg (mp_org plan) (mp_node plan) db = Inr (strict, fenced cfg (mp_org plan) (mp_node plan) db)"
    "checkStrictMutation (env_lib env) (fenced cfg (mp_org plan) (mp_node plan) db) strict result (mp_parent plan) = Inr ()"
    "checkMutationResult (env_lib env) (fenced cfg (mp_org plan) (mp_node plan) db) plan source result schema = Inr ()"
    "marshal_node (env_node_text env) result = Inr planned"
    "advanceMutationCheckpoint env (mp_checkpoint plan) (Some (enc_text planned)) (fenced cfg (mp_org plan) (mp_node plan) db) = Inr dbC"
    "writeMutation env cfg at m plan source result schema [planRelationshipChanges plan, parentChanges] dbC = Inr (encoded, db', changes)"
    "checkStrictRelationshipAdds db' strict [planRelationshipChanges plan, parentChanges] = Inr ()"
    "receipt = \<lparr>mr_org = mp_org plan, mr_node = mp_node plan,
       mr_source_digest = (if ms_exists source then PrimaryDigest (env_lib env) (ms_encoding source) else 0),
       mr_result_digest = PrimaryDigest (env_lib env) encoded\<rparr>"
proof -
  obtain existing where existing: "readCreateIdempotency (env_lib env) db plan = Inr existing"
    by (rule bindE_InrE [OF assms [unfolded applyMutationAttempt_def]]) (rule that)
  show thesis
  proof (cases existing)
    case (Some r)
    have "r = receipt" "db' = db" "changes = []"
      using assms [unfolded applyMutationAttempt_def existing Some bindE_Inr option.case] by simp_all
    then show thesis using replay existing Some by simp
  next
    case None
    note run = assms [unfolded applyMutationAttempt_def existing None bindE_Inr option.case Let_def]
    obtain source where source: "readMutationSource db (mp_org plan) (mp_node plan) = Inr source"
      by (rule bindE_InrE [OF run]) (rule that)
    note run = run [unfolded source bindE_Inr]
    have u1: "checkSource (env_lib env) (mp_source plan) source = Inr ()"
      by (rule bindE_InrE [OF run]) simp
    note run = run [unfolded u1 bindE_Inr]
    have u2: "checkPlanShape plan source = Inr ()"
      by (rule bindE_InrE [OF run]) simp
    note run = run [unfolded u2 bindE_Inr]
    obtain schema where schema: "checkMutationSchema db plan = Inr schema"
      by (rule bindE_InrE [OF run]) (rule that)
    note run = run [unfolded schema bindE_Inr]
    obtain records where records:
      "checkGraphRecords (env_lib env) db (mp_org plan) (graph_records (mp_graph plan)) = Inr records"
      by (rule bindE_InrE [OF run]) (rule that)
    note run = run [unfolded records bindE_Inr]
    have chain: "(case mp_parent plan of None \<Rightarrow> Inr ()
      | Some targetID \<Rightarrow> checkParentChain (env_lib env) db (mp_org plan) (mp_node plan) targetID records) = Inr ()"
      by (rule bindE_InrE [OF run]) simp
    note run = run [unfolded chain bindE_Inr]
    have scope: "checkMoveScope (env_lib env) plan source (mutationResult plan source (at_write at)) records = Inr ()"
      by (rule bindE_InrE [OF run]) simp
    note run = run [unfolded scope bindE_Inr]
    obtain result parentChanges where child:
      "childOfChanges (env_lib env) db plan source (mutationResult plan source (at_write at)) = Inr (result, parentChanges)"
      by (rule bindE_InrE2 [OF run]) (rule that)
    note run = run [unfolded child bindE_Inr prod.case]
    obtain strict dbF where fence: "callFence cfg (mp_org plan) (mp_node plan) db = Inr (strict, dbF)"
      by (rule bindE_InrE2 [OF run]) (rule that)
    then have "dbF = fenced cfg (mp_org plan) (mp_node plan) db" using callFence_Inr by blast
    note fence = fence [unfolded this]
    note run = run [unfolded fence bindE_Inr prod.case]
    have check1: "checkStrictMutation (env_lib env) (fenced cfg (mp_org plan) (mp_node plan) db) strict result (mp_parent plan) = Inr ()"
      by (rule bindE_InrE [OF run]) simp
    note run = run [unfolded check1 bindE_Inr]
    have check2: "checkMutationResult (env_lib env) (fenced cfg (mp_org plan) (mp_node plan) db) plan source result schema = Inr ()"
      by (rule bindE_InrE [OF run]) simp
    note run = run [unfolded check2 bindE_Inr]
    obtain planned where planned: "marshal_node (env_node_text env) result = Inr planned"
      by (rule bindE_InrE [OF run]) (rule that)
    note run = run [unfolded planned bindE_Inr]
    obtain dbC where dbC:
      "advanceMutationCheckpoint env (mp_checkpoint plan) (Some (enc_text planned)) (fenced cfg (mp_org plan) (mp_node plan) db) = Inr dbC"
      by (rule bindE_InrE [OF run]) (rule that)
    note run = run [unfolded dbC bindE_Inr]
    obtain encoded dbW changesW where written:
      "writeMutation env cfg at m plan source result schema [planRelationshipChanges plan, parentChanges] dbC = Inr (encoded, dbW, changesW)"
      by (rule bindE_InrE3 [OF run]) (rule that)
    note run = run [unfolded written bindE_Inr prod.case]
    have adds: "checkStrictRelationshipAdds dbW strict [planRelationshipChanges plan, parentChanges] = Inr ()"
      by (rule bindE_InrE [OF run]) simp
    note run = run [unfolded adds bindE_Inr]
    have eq: "dbW = db'" "changesW = changes" using run by simp_all
    have receipt: "receipt = \<lparr>mr_org = mp_org plan, mr_node = mp_node plan,
       mr_source_digest = (if ms_exists source then PrimaryDigest (env_lib env) (ms_encoding source) else 0),
       mr_result_digest = PrimaryDigest (env_lib env) encoded\<rparr>"
      using run by simp
    note last = written [unfolded eq] adds [unfolded eq] receipt
    show thesis
      by (rule fresh [OF existing [unfolded None] source u1 u2 schema records chain scope child fence check1 check2 planned dbC last])
  qed
qed

lemma writeMutation_Inr:
  assumes "writeMutation env cfg at m plan source result schema relationshipChanges db = Inr (encoded, db', changes)"
  obtains dbN kind changes0 dbR dbL dbI where
    "writeNodeRecords env result (Some result) db = Inr (encoded, dbN)"
    "record_change env m (mutation_target plan result) (ms_encoding source) encoded [] = Inr changes0"
    "fmlookup (schema_types schema) (mp_kind plan) = Some kind"
    "write_references (env_lib env) plan source
      (reconcilePropertyIndexes result (node_props (ms_node source)) (indexedPropertyNames schema kind) dbN) = Inr dbR"
    "applyRelationshipChanges env m relationshipChanges (dbR, changes0) = Inr (dbL, changes)"
    "writeCreateIdempotencyRecord env plan dbL = Inr dbI"
    "schedule_mutation env cfg at plan source result schema relationshipChanges dbI = Inr db'"
  using assms
  by (auto simp: writeMutation_def Let_def bindE_eq_Inr mutationView_def split: option.splits prod.splits)

lemma advanceRepairCheckpoint_Inr:
  assumes "advanceRepairCheckpoint env previous following db = Inr db'"
  obtains e where "db' = db\<lparr>db_checkpoints := fmupd (cp_repair_id following) e (db_checkpoints db)\<rparr>"
    "marshal_checkpoint env following = Inr e"
    "readRepairCheckpoint db (cp_repair_id following) = Inr None \<and> previous = RepairPhaseNone \<or>
     (\<exists>c. readRepairCheckpoint db (cp_repair_id following) = Inr (Some c) \<and> cp_phase c = previous \<and>
        cp_source_digest c = cp_source_digest following \<and> cp_node c = cp_node following)"
    "phase_follows (cp_phase following) previous"
  using assms
  by (auto simp: advanceRepairCheckpoint_def Let_def err_simps split: option.splits if_splits)

lemma advanceMutationCheckpoint_Inr:
  assumes "advanceMutationCheckpoint env w encoded db = Inr db'"
  obtains c where "db' = db\<lparr>db_checkpoints := c\<rparr>"
proof (cases w)
  case None
  then have "db' = db\<lparr>db_checkpoints := db_checkpoints db\<rparr>" using assms by (simp add: advanceMutationCheckpoint_def)
  then show thesis using that by blast
next
  case (Some cw)
  then obtain following where "advanceRepairCheckpoint env (cw_previous cw) following db = Inr db'"
    using assms by (auto simp: advanceMutationCheckpoint_def Let_def)
  then show thesis by (rule advanceRepairCheckpoint_Inr) (rule that)
qed

lemma write_references_frame: "write_references lib plan source db = Inr db' \<Longrightarrow> only_refs db db'"
  using writeReferenceKeys_frame claimReferenceKeys_frame
  by (auto simp: write_references_def split: if_splits option.splits)

lemma writeCreateIdempotencyRecord_Inr:
  assumes "writeCreateIdempotencyRecord env plan db = Inr db'"
  obtains i where "db' = db\<lparr>db_idempotency := i\<rparr>"
    "\<And>r. mp_idempotency plan = Some r \<Longrightarrow>
       \<exists>e. marshal_idempotency env r = Inr e \<and> i = fmupd (mp_org plan, idem_key r) e (db_idempotency db)"
    "mp_idempotency plan = None \<Longrightarrow> i = db_idempotency db"
proof (cases "mp_idempotency plan")
  case None
  then have "db' = db\<lparr>db_idempotency := db_idempotency db\<rparr>" using assms by (simp add: writeCreateIdempotencyRecord_def)
  then show thesis using that None by simp
next
  case (Some r)
  then obtain e where "marshal_idempotency env r = Inr e"
    "db' = db\<lparr>db_idempotency := fmupd (mp_org plan, idem_key r) e (db_idempotency db)\<rparr>"
    using assms by (auto simp: writeCreateIdempotencyRecord_def err_simps)
  then show thesis using that Some by simp
qed

lemma schedule_mutation_Inr:
  assumes "schedule_mutation env cfg at plan source result schema rc db = Inr db'"
  obtains s where "db' = db\<lparr>db_search := s\<rparr>" "search_ok (env_lib env) (db_search db) \<Longrightarrow> search_ok (env_lib env) s"
proof (cases "cfg_search_work cfg")
  case False
  then have "db' = db\<lparr>db_search := db_search db\<rparr>" using assms by (simp add: schedule_mutation_def)
  then show thesis using that by blast
next
  case True
  then obtain current dbS where one: "schedule_change env (at_schedule at) (mp_org plan) (mp_node plan)
      (mutationSearchChange (env_lib env) source result schema) db = Inr (current, dbS)"
    and two: "(if ms_exists source then schedule_related env (at_schedule at) rc dbS else Inr dbS) = Inr db'"
    using assms True by (cases "ms_exists source") (auto simp: schedule_mutation_def elim!: bindE_InrE2)
  obtain s1 where s1: "scheduleSearchChange (env_lib env) (at_schedule at) (mp_org plan) (mp_node plan)
      (mutationSearchChange (env_lib env) source result schema) (db_search db) = Inr (current, s1)" "dbS = db\<lparr>db_search := s1\<rparr>"
    using schedule_change_Inr [OF one] .
  obtain s2 where s2: "db' = dbS\<lparr>db_search := s2\<rparr>" "search_ok (env_lib env) (db_search dbS) \<Longrightarrow> search_ok (env_lib env) s2"
    using related_if_Inr [of "\<lparr>cfg_search_work = ms_exists source, cfg_write_fence = True\<rparr>" env "at_schedule at" rc dbS db'] two
    by (auto simp: related_if_def)
  show thesis
    by (rule that [of s2]) (use s1 s2 scheduleSearchChange_ok [OF s1(1)] in auto)
qed

text \<open>What a written mutation leaves in the families.\<close>

lemma writeMutation_frame:
  assumes "writeMutation env cfg at m plan source result schema rc db = Inr (encoded, db', changes)" "rels_ok db"
  obtains dbN dbR dbL changes0 where "writeNodeRecords env result (Some result) db = Inr (encoded, dbN)"
    "only_nodes db dbN"
    "write_references (env_lib env) plan source (dbN\<lparr>db_props := db_props dbR\<rparr>) = Inr dbR" "only_refs (dbN\<lparr>db_props := db_props dbR\<rparr>) dbR"
    "applyRelationshipChanges env m rc (dbR, changes0) = Inr (dbL, changes)" "only_rels dbR dbL" "rels_ok dbL"
    "db' = dbL\<lparr>db_idempotency := db_idempotency db', db_search := db_search db'\<rparr>"
    "search_ok (env_lib env) (db_search db) \<Longrightarrow> search_ok (env_lib env) (db_search db')"
    "\<And>r. mp_idempotency plan = Some r \<Longrightarrow> \<exists>e. marshal_idempotency env r = Inr e \<and>
       db_idempotency db' = fmupd (mp_org plan, idem_key r) e (db_idempotency db)"
proof -
  obtain dbN kind changes0 dbR dbL dbI where run:
    "writeNodeRecords env result (Some result) db = Inr (encoded, dbN)"
    "write_references (env_lib env) plan source
      (reconcilePropertyIndexes result (node_props (ms_node source)) (indexedPropertyNames schema kind) dbN) = Inr dbR"
    "applyRelationshipChanges env m rc (dbR, changes0) = Inr (dbL, changes)"
    "writeCreateIdempotencyRecord env plan dbL = Inr dbI"
    "schedule_mutation env cfg at plan source result schema rc dbI = Inr db'"
    using writeMutation_Inr [OF assms(1)] .
  have nodes: "only_nodes db dbN" using writeNodeRecords_Inr [OF run(1)] .
  note refs = write_references_frame [OF run(2)]
  let ?P = "reconcilePropertyIndexes result (node_props (ms_node source)) (indexedPropertyNames schema kind) dbN"
  have P: "?P = dbN\<lparr>db_props := db_props dbR\<rparr>"
    using only_refsD(6) [OF refs] by (simp add: reconcilePropertyIndexes_def)
  have "rels_ok dbR"
    using assms(2) rels_ok_cong [of dbR db] only_refsD [OF refs [unfolded P]] only_nodesD [OF nodes] by simp
  then have rels: "rels_ok dbL" "only_rels dbR dbL"
    using applyRelationshipChanges_ok [OF run(3)] by simp_all
  obtain i where i: "dbI = dbL\<lparr>db_idempotency := i\<rparr>"
    "\<And>r. mp_idempotency plan = Some r \<Longrightarrow>
       \<exists>e. marshal_idempotency env r = Inr e \<and> i = fmupd (mp_org plan, idem_key r) e (db_idempotency dbL)"
    using writeCreateIdempotencyRecord_Inr [OF run(4)] by metis
  obtain s where s: "db' = dbI\<lparr>db_search := s\<rparr>" "search_ok (env_lib env) (db_search dbI) \<Longrightarrow> search_ok (env_lib env) s"
    using schedule_mutation_Inr [OF run(5)] by blast
  have keep: "db_search dbL = db_search db" "db_idempotency dbL = db_idempotency db"
    using only_relsD [OF rels(2)] only_refsD [OF refs [unfolded P]] only_nodesD [OF nodes] by simp_all
  show thesis
    by (rule that [OF run(1) nodes run(2) [unfolded P] refs [unfolded P] run(3) rels(2,1)])
      (use i s keep in auto)
qed

lemma writeMutation_source:
  assumes "writeMutation env cfg at m plan source result schema rc db = Inr (encoded, db', changes)" "rels_ok db"
  shows "readMutationSource db' orgID nodeID =
    (if nodeID = node_id result
     then (if orgID = node_org result
       then Inr \<lparr>ms_exists = True, ms_kind = node_kind result, ms_encoding = encoded,
         ms_node = result\<lparr>node_props := fmmap raw_stored (node_props result)\<rparr>\<rparr>
       else Inr absent_source)
     else readMutationSource db orgID nodeID)"
proof -
  obtain dbN dbR dbL where f: "writeNodeRecords env result (Some result) db = Inr (encoded, dbN)"
    "only_refs (dbN\<lparr>db_props := db_props dbR\<rparr>) dbR" "only_rels dbR dbL"
    "db' = dbL\<lparr>db_idempotency := db_idempotency db', db_search := db_search db'\<rparr>"
    using writeMutation_frame [OF assms] by metis
  have "db_nodes db' = db_nodes dbL" "db_resolves db' = db_resolves dbL"
    by (subst f(4); simp)+
  then have "readMutationSource db' = readMutationSource dbN"
    using only_relsD [OF f(3)] only_refsD [OF f(2)] by (intro readMutationSource_cong) simp_all
  then show ?thesis using readMutationSource_write [OF f(1)] by simp
qed

definition distinct_templates :: "mutation_plan \<Rightarrow> bool" where
  "distinct_templates plan \<longleftrightarrow> (\<forall>keys. mp_reference_keys plan = Some keys \<longrightarrow> distinct (map ref_template keys))"

lemma write_references_ok:
  assumes "write_references lib plan source db = Inr db'" "refs_ok lib db" "uuid_law lib" "distinct_templates plan"
  shows "refs_ok lib db'"
  using assms writeReferenceKeys_ok(1) [of lib "mp_org plan" "mp_node plan" _ db db']
  by (auto simp: write_references_def claimReferenceKeys_def distinct_templates_def split: if_splits option.splits)

lemma writeMutation_store_ok:
  assumes "writeMutation env cfg at m plan source result schema rc db = Inr (encoded, db', changes)"
    and "store_ok (env_lib env) db" "uuid_law (env_lib env)" "distinct_templates plan"
  shows "store_ok (env_lib env) db'"
proof -
  obtain dbN dbR dbL where f: "writeNodeRecords env result (Some result) db = Inr (encoded, dbN)"
    "only_nodes db dbN"
    "write_references (env_lib env) plan source (dbN\<lparr>db_props := db_props dbR\<rparr>) = Inr dbR"
    "only_refs (dbN\<lparr>db_props := db_props dbR\<rparr>) dbR" "only_rels dbR dbL" "rels_ok dbL"
    "db' = dbL\<lparr>db_idempotency := db_idempotency db', db_search := db_search db'\<rparr>"
    "search_ok (env_lib env) (db_search db) \<Longrightarrow> search_ok (env_lib env) (db_search db')"
    by (rule writeMutation_frame [OF assms(1) store_okD(2) [OF assms(2)]]) (rule that)
  note ok = store_okD [OF assms(2)]
  note keep = only_relsD [OF f(5)] only_refsD [OF f(4)] only_nodesD [OF f(2)]
  have nodes: "nodes_ok dbL"
    using writeNodeRecords_ok [OF f(1) ok(1)] nodes_ok_cong [of dbL dbN] keep by simp
  have "refs_ok (env_lib env) (dbN\<lparr>db_props := db_props dbR\<rparr>)"
    using ok(3) refs_ok_cong [of "dbN\<lparr>db_props := db_props dbR\<rparr>" db "env_lib env"] keep by simp
  then have "refs_ok (env_lib env) dbR" using write_references_ok [OF f(3) _ assms(3,4)] by blast
  then have refs: "refs_ok (env_lib env) dbL" using refs_ok_cong [of dbL dbR "env_lib env"] keep by simp
  have fields: "db_nodes db' = db_nodes dbL" "db_resolves db' = db_resolves dbL" "db_rels db' = db_rels dbL"
    "db_rels_rev db' = db_rels_rev dbL" "db_ref_keys db' = db_ref_keys dbL" "db_ref_owned db' = db_ref_owned dbL"
    by (subst f(7); simp)+
  show ?thesis
    using nodes refs f(6) f(8) [OF ok(4)] fields nodes_ok_cong [of db' dbL] rels_ok_cong [of db' dbL]
      refs_ok_cong [of db' dbL "env_lib env"]
    by (simp add: store_ok_def)
qed

section \<open>Edges after a change of relationships\<close>

definition has_edge :: "db \<Rightarrow> uuid \<times> uuid \<times> string \<times> uuid \<Rightarrow> bool" where
  "has_edge db k \<longleftrightarrow> fmlookup (db_rels db) k \<noteq> None"

lemma has_edge_set [simp]: "has_edge (set_relationship k e db) k' \<longleftrightarrow> k' = k \<or> has_edge db k'"
  by (simp add: has_edge_def set_relationship_def)

lemma has_edge_clear [simp]: "has_edge (clear_relationship k db) k' \<longleftrightarrow> k' \<noteq> k \<and> has_edge db k'"
  by (simp add: has_edge_def clear_relationship_def)

lemma remove_loop_edges:
  "foldE (remove_relationship env m) xs t = Inr t' \<Longrightarrow>
    has_edge (fst t') k \<longleftrightarrow> k \<notin> (rel_key \<circ> fst) ` set xs \<and> has_edge (fst t) k"
proof (induction xs arbitrary: t)
  case (Cons x xs)
  then obtain u where u: "remove_relationship env m x t = Inr u" "foldE (remove_relationship env m) xs u = Inr t'"
    by (auto simp: err_simps)
  have "fst u = clear_relationship (rel_key (fst x)) (fst t)"
    using u(1) remove_relationship_Inr [of env m x "fst t" "snd t" "fst u" "snd u"] by simp
  then show ?case using Cons.IH [OF u(2)] by auto
qed simp

lemma add_loop_edges:
  "foldE (add_relationship env m) xs t = Inr t' \<Longrightarrow>
    has_edge (fst t') k \<longleftrightarrow> k \<in> (rel_key \<circ> fst) ` set xs \<or> has_edge (fst t) k"
proof (induction xs arbitrary: t)
  case (Cons x xs)
  then obtain u where u: "add_relationship env m x t = Inr u" "foldE (add_relationship env m) xs u = Inr t'"
    by (auto simp: err_simps)
  obtain e where "fst u = set_relationship (rel_key (fst x)) e (fst t)"
    using u(1) add_relationship_Inr [of env m x "fst t" "snd t" "fst u" "snd u"] by auto
  then show ?case using Cons.IH [OF u(2)] by auto
qed simp

lemma image_fst_zip: "length ys = length xs \<Longrightarrow> (f \<circ> fst) ` set (zip xs ys) = f ` set xs"
  by (metis image_comp list.set_map map_fst_zip)

lemma apply_change_set_edges:
  assumes "apply_change_set env m c t = Inr t'"
  shows "has_edge (fst t') k \<longleftrightarrow>
    k \<in> rel_key ` set (rels_add c) \<or> k \<notin> rel_key ` set (rels_remove c) \<and> has_edge (fst t) k"
proof -
  obtain u where u: "removeRelationships env m (rels_remove c) t = Inr u" "addRelationships env m (rels_add c) u = Inr t'"
    using assms by (auto simp: apply_change_set_def err_simps)
  have len: "length (readRelationshipValues d rs) = length rs" for d rs by (simp add: readRelationshipValues_def)
  show ?thesis
    using remove_loop_edges [OF u(1) [unfolded removeRelationships_def], of k]
      add_loop_edges [OF u(2) [unfolded addRelationships_def], of k]
    by (simp only: image_fst_zip [OF len])
qed

section \<open>The written node\<close>

lemma patch_props_other: "name \<notin> fmdom' patch \<Longrightarrow> prop_of (patch_props patch props) name = prop_of props name"
  by (simp add: patch_props_def prop_of_def fmlookup_dom'_iff fmlookup_dom_iff)

lemma mutationResult_simps:
  "node_id (mutationResult plan source now) = (if ms_exists source then node_id (ms_node source) else mp_node plan)"
  "node_org (mutationResult plan source now) = (if ms_exists source then node_org (ms_node source) else mp_org plan)"
  "node_kind (mutationResult plan source now) = (if ms_exists source then node_kind (ms_node source) else mp_kind plan)"
  "updated_at (mutationResult plan source now) = now" "updated_by (mutationResult plan source now) = mp_actor plan"
  "node_props (mutationResult plan source now) =
     patch_props (mp_props plan) (if ms_exists source then node_props (ms_node source) else fmempty)"
  by (simp_all add: mutationResult_def Let_def split: option.split)

lemma checkPlanShape_Inr:
  assumes "checkPlanShape plan source = Inr ()"
  shows "parentIDName \<notin> fmdom' (mp_props plan)"
    "r \<in> set (rels_add (mp_relationships plan)) \<union> set (rels_remove (mp_relationships plan)) \<Longrightarrow> rel_type r \<noteq> RelChildOf"
    "ms_exists source \<Longrightarrow> ms_kind source = mp_kind plan"
  using assms by (auto simp: checkPlanShape_def split: if_splits)

lemma childOfChanges_result:
  assumes "childOfChanges lib db plan source result = Inr (result', changes)"
  shows "result' = (case mp_parent plan of None \<Rightarrow> result
    | Some targetID \<Rightarrow> result\<lparr>node_props := fmupd parentIDName (quoted (lib_uuid_string lib targetID)) (node_props result)\<rparr>)"
  using assms by (auto simp: childOfChanges_def Let_def err_simps split: option.splits)

lemma result_identity:
  assumes "readMutationSource db (mp_org plan) (mp_node plan) = Inr source" "nodes_ok db"
    and "checkPlanShape plan source = Inr ()"
    and "childOfChanges lib db plan source (mutationResult plan source now) = Inr (result, changes)"
  shows "node_id result = mp_node plan" "node_org result = mp_org plan" "node_kind result = mp_kind plan"
    "updated_by result = mp_actor plan" "updated_at result = now"
proof -
  have key: "node_key (ms_node source) = (mp_org plan, ms_kind source, mp_node plan)" if "ms_exists source"
    using readMutationSource_exists(1) [OF assms(1) that assms(2)] .
  show "node_id result = mp_node plan" "node_org result = mp_org plan" "node_kind result = mp_kind plan"
    "updated_by result = mp_actor plan" "updated_at result = now"
    using childOfChanges_result [OF assms(4)] key checkPlanShape_Inr(3) [OF assms(3)]
    by (auto simp: mutationResult_simps node_key_def split: option.splits)
qed

lemma quoted_UUID: "uuid_law lib \<Longrightarrow> storedUUID lib (quoted (lib_uuid_string lib u)) = u"
  by (simp add: storedUUID_def quoted_def unmarshal_def uuid_lawD)

lemma result_parent:
  assumes "checkPlanShape plan source = Inr ()" "uuid_law lib"
    and "childOfChanges lib db plan source (mutationResult plan source now) = Inr (result, changes)"
    and "marshal_node body result = Inr planned"
  shows "storedUUID lib (prop_of (fmmap raw_stored (node_props result)) parentIDName) =
    (case mp_parent plan of Some targetID \<Rightarrow> targetID
     | None \<Rightarrow> if ms_exists source then parent_in lib source else uuid_nil)"
proof -
  have "storedUUID lib (prop_of (fmmap raw_stored (node_props result)) parentIDName) =
      storedUUID lib (prop_of (node_props result) parentIDName)"
    by (rule prop_of_fmmap_raw_stored [OF assms(2) marshal_node_Inr(4) [OF assms(4)]])
  also have "\<dots> = (case mp_parent plan of Some targetID \<Rightarrow> targetID
     | None \<Rightarrow> if ms_exists source then parent_in lib source else uuid_nil)"
    using childOfChanges_result [OF assms(3)] checkPlanShape_Inr(1) [OF assms(1)]
    by (auto simp: mutationResult_simps patch_props_other parent_in_def quoted_UUID [OF assms(2)] split: option.splits)
  finally show ?thesis .
qed

section \<open>The hierarchy\<close>

text \<open>The parent that each stored node of an organisation names.\<close>

definition parent_edges :: "lib \<Rightarrow> db \<Rightarrow> uuid \<Rightarrow> (uuid \<times> uuid) set" where
  "parent_edges lib db orgID =
     {(n, p). \<exists>s. readMutationSource db orgID n = Inr s \<and> ms_exists s \<and> p = parent_in lib s \<and> p \<noteq> uuid_nil}"

lemma parent_edges_iff:
  "(n, p) \<in> parent_edges lib db orgID \<longleftrightarrow>
    (\<exists>s. readMutationSource db orgID n = Inr s \<and> ms_exists s \<and> p = parent_in lib s \<and> p \<noteq> uuid_nil)"
  by (simp add: parent_edges_def)

definition verified :: "db \<Rightarrow> uuid \<Rightarrow> sources \<Rightarrow> bool" where
  "verified db orgID records \<longleftrightarrow>
     (\<forall>n s. fmlookup records n = Some s \<longrightarrow> readMutationSource db orgID n = Inr s \<and> ms_exists s)"

lemma verifiedD: "verified db orgID records \<Longrightarrow> fmlookup records n = Some s \<Longrightarrow>
    readMutationSource db orgID n = Inr s \<and> ms_exists s"
  by (simp add: verified_def)

lemma checkGraphRecords_verified:
  assumes "checkGraphRecords lib db orgID expected = Inr records"
  shows "verified db orgID records"
proof (rule foldE_invariant [OF assms [unfolded checkGraphRecords_def], where P = "verified db orgID"])
  show "verified db orgID fmempty" by (simp add: verified_def)
  show "verified db orgID t" if "verified db orgID s" "check_graph_record lib db orgID x s = Inr t" for x s t
    using that by (auto simp: check_graph_record_def verified_def err_simps split: if_splits)
qed

lemma no_edge_from:
  assumes "readMutationSource db orgID n = Inr s" "ms_exists s \<Longrightarrow> parent_in lib s = uuid_nil"
  shows "(n, p) \<notin> parent_edges lib db orgID"
  using assms by (auto simp: parent_edges_iff)

lemma rtrancl_no_edge: "(\<And>y. (x, y) \<notin> R) \<Longrightarrow> (x, z) \<in> R\<^sup>* \<longleftrightarrow> z = x"
  by (auto elim: converse_rtranclE)

text \<open>An accepted chain does not reach the node whose parent is set.\<close>

lemma parent_chain_unreachable:
  "parent_chain lib db orgID nodeID parentID records visited currentID = Inr () \<Longrightarrow> verified db orgID records \<Longrightarrow>
    currentID \<noteq> uuid_nil \<Longrightarrow> (currentID, nodeID) \<notin> (parent_edges lib db orgID)\<^sup>*"
proof (induction lib db orgID nodeID parentID records visited currentID rule: parent_chain.induct)
  case (1 lib db orgID nodeID parentID records visited currentID)
  let ?E = "parent_edges lib db orgID"
  have ne: "currentID \<noteq> nodeID" and new: "currentID |\<notin>| visited"
    using "1.prems" by (auto simp: parent_chain.simps split: if_splits)
  show ?case
  proof (cases "fmlookup records currentID")
    case None
    then obtain stored where "readMutationSource db orgID currentID = Inr stored" "\<not> ms_exists stored"
      using "1.prems" ne new by (auto simp: parent_chain.simps err_simps split: if_splits)
    then have "(currentID, y) \<notin> ?E" for y using no_edge_from by blast
    then show ?thesis using rtrancl_no_edge [of currentID ?E nodeID] ne by auto
  next
    case (Some ancestor)
    let ?p = "parent_in lib ancestor"
    have read: "readMutationSource db orgID currentID = Inr ancestor" "ms_exists ancestor"
      using verifiedD [OF "1.prems"(2) Some] by auto
    have run: "parent_chain lib db orgID nodeID parentID records (finsert currentID visited) ?p = Inr ()"
      using "1.prems"(1,3) ne new Some by (simp add: parent_chain.simps [of lib db orgID nodeID parentID records visited])
    show ?thesis
    proof (cases "?p = uuid_nil")
      case True
      then have "(currentID, y) \<notin> ?E" for y using no_edge_from [OF read(1)] by blast
      then show ?thesis using rtrancl_no_edge [of currentID ?E nodeID] ne by auto
    next
      case False
      have "(?p, nodeID) \<notin> ?E\<^sup>*"
        using "1.IH" [OF "1.prems"(3) _ Some run "1.prems"(2) False] ne new by simp
      moreover have "y = ?p" if "(currentID, y) \<in> ?E" for y
        using that read by (auto simp: parent_edges_iff)
      ultimately show ?thesis using ne by (metis converse_rtranclE)
    qed
  qed
qed

lemma acyclic_redirect:
  assumes "acyclic R" "S \<subseteq> {(a, b) \<in> R. a \<noteq> n} \<union> {(n, p)}" "(p, n) \<notin> R\<^sup>*"
  shows "acyclic S"
proof -
  let ?T = "{(a, b) \<in> R. a \<noteq> n}"
  have "acyclic ?T" using assms(1) by (rule acyclic_subset) auto
  moreover have "(p, n) \<notin> ?T\<^sup>*" using assms(3) rtrancl_mono [of ?T R] by auto
  ultimately have "acyclic (insert (n, p) ?T)" by simp
  then show ?thesis by (rule acyclic_subset) (use assms(2) in auto)
qed

lemma ApplyMutation_Inr:
  assumes "ApplyMutation env cfg at operation base plan db = Inr (receipt, db')"
  obtains m dbA changes w where "applyMutationAttempt env cfg at m plan db = Inr (receipt, dbA, changes)"
    "db' = dbA\<lparr>db_outbox := db_outbox dbA @ w\<rparr>" "changes = [] \<Longrightarrow> db' = dbA"
proof -
  obtain m where run: "bindE (applyMutationAttempt env cfg at m plan db) (\<lambda>(receipt, t).
     bindE (append_changes env m (at_append at) t) (\<lambda>db. Inr (receipt, db))) = Inr (receipt, db')"
    by (rule bindE_InrE [OF assms [unfolded ApplyMutation_def]]) (rule that)
  obtain r dbA changes where a: "applyMutationAttempt env cfg at m plan db = Inr (r, dbA, changes)"
    "(\<lambda>(receipt, t). bindE (append_changes env m (at_append at) t) (\<lambda>db. Inr (receipt, db))) (r, dbA, changes) = Inr (receipt, db')"
    by (rule bindE_InrE3 [OF run]) (rule that)
  then have app: "append_changes env m (at_append at) (dbA, changes) = Inr db'" "r = receipt"
    by (auto simp: err_simps)
  obtain w where "db' = dbA\<lparr>db_outbox := db_outbox dbA @ w\<rparr>" using append_changes_Inr [OF app(1)] .
  moreover have "db' = dbA" if "changes = []" using app(1) that by (simp add: append_changes_def AppendChanges_def)
  ultimately show thesis using that a(1) app(2) by blast
qed

lemma parent_edges_cong:
  "readMutationSource db' = readMutationSource db \<Longrightarrow> parent_edges lib db' = parent_edges lib db"
  by (simp add: parent_edges_def fun_eq_iff)

lemma attempt_parent_edges:
  assumes "applyMutationAttempt env cfg at m plan db = Inr (receipt, db', changes)"
    and "store_ok (env_lib env) db" "uuid_law (env_lib env)" "acyclic (parent_edges (env_lib env) db orgID)"
  shows "acyclic (parent_edges (env_lib env) db' orgID)"
  using assms(1)
proof (cases rule: applyMutationAttempt_cases)
  case replay
  then show ?thesis using assms(4) by simp
next
  case (fresh source schema records result parentChanges strict planned dbC encoded)
  let ?lib = "env_lib env"
  let ?E = "parent_edges ?lib db orgID"
  let ?new = "case mp_parent plan of Some targetID \<Rightarrow> targetID
     | None \<Rightarrow> if ms_exists source then parent_in ?lib source else uuid_nil"
  obtain c where c: "dbC = (fenced cfg (mp_org plan) (mp_node plan) db)\<lparr>db_checkpoints := c\<rparr>"
    using advanceMutationCheckpoint_Inr [OF fresh(14)] .
  have same: "readMutationSource dbC = readMutationSource db" by (rule readMutationSource_cong) (simp_all add: c)
  have rels: "rels_ok dbC" using store_okD(2) [OF assms(2)] rels_ok_cong [of dbC db] by (simp add: c)
  note ident = result_identity [OF fresh(2) store_okD(1) [OF assms(2)] fresh(4) fresh(9)]
  note parent = result_parent [OF fresh(4) assms(3) fresh(9) fresh(13)]
  note src = writeMutation_source [OF fresh(15) rels, unfolded ident same]
  have sub: "parent_edges ?lib db' orgID \<subseteq> {(a, b) \<in> ?E. a \<noteq> mp_node plan} \<union>
      (if orgID = mp_org plan \<and> ?new \<noteq> uuid_nil then {(mp_node plan, ?new)} else {})"
  proof (rule subrelI)
    fix a b assume ab: "(a, b) \<in> parent_edges ?lib db' orgID"
    show "(a, b) \<in> {(a, b) \<in> ?E. a \<noteq> mp_node plan} \<union>
      (if orgID = mp_org plan \<and> ?new \<noteq> uuid_nil then {(mp_node plan, ?new)} else {})"
    proof (cases "a = mp_node plan")
      case True
      then show ?thesis using ab parent
        by (auto simp: parent_edges_iff src parent_in_def absent_source_def split: if_splits)
    next
      case False
      then show ?thesis using ab by (auto simp: parent_edges_iff src)
    qed
  qed
  show ?thesis
  proof (cases "orgID = mp_org plan \<and> ?new \<noteq> uuid_nil")
    case False
    then have "parent_edges ?lib db' orgID \<subseteq> ?E" using sub by (auto split: if_splits)
    then show ?thesis using assms(4) acyclic_subset by blast
  next
    case new: True
    show ?thesis
    proof (cases "mp_parent plan")
      case None
      then have "(mp_node plan, ?new) \<in> ?E" using new fresh(2) by (auto simp: parent_edges_iff split: if_splits)
      then have "parent_edges ?lib db' orgID \<subseteq> ?E" using sub new by auto
      then show ?thesis using assms(4) acyclic_subset by blast
    next
      case (Some targetID)
      have "parent_chain ?lib db (mp_org plan) (mp_node plan) targetID records {||} targetID = Inr ()"
        using fresh(7) Some by (simp add: checkParentChain_def)
      then have "(targetID, mp_node plan) \<notin> ?E\<^sup>*"
        using parent_chain_unreachable checkGraphRecords_verified [OF fresh(6)] new Some by simp
      then show ?thesis using acyclic_redirect [OF assms(4)] sub new Some by simp
    qed
  qed
qed

section \<open>The parent edge\<close>

lemma child_of_loop:
  assumes "foldE (child_of_edge plan targetID) edges (kept0, removed0) = Inr (kept, removed)"
  shows "kept \<longleftrightarrow> kept0 \<or> (\<exists>e \<in> set edges. rel_target (snap_relationship e) = targetID)"
    "removed = removed0 @ map (\<lambda>e. (snap_relationship e)\<lparr>rel_org := mp_org plan, rel_source := mp_node plan\<rparr>)
       (filter (\<lambda>e. rel_target (snap_relationship e) \<noteq> targetID) edges)"
proof -
  let ?stamp = "\<lambda>e. (snap_relationship e)\<lparr>rel_org := mp_org plan, rel_source := mp_node plan\<rparr>"
  have "(kept \<longleftrightarrow> kept0 \<or> (\<exists>e \<in> set edges. rel_target (snap_relationship e) = targetID)) \<and>
    removed = removed0 @ map ?stamp (filter (\<lambda>e. rel_target (snap_relationship e) \<noteq> targetID) edges)"
    using assms
  proof (induction edges arbitrary: kept0 removed0)
    case (Cons e edges)
    then show ?case
      using Cons.IH [of True removed0] Cons.IH [of kept0 "removed0 @ [?stamp e]"]
      by (cases "rel_target (snap_relationship e) = targetID") (auto simp: child_of_edge_def err_simps split: if_splits)
  qed simp
  then show "kept \<longleftrightarrow> kept0 \<or> (\<exists>e \<in> set edges. rel_target (snap_relationship e) = targetID)"
    "removed = removed0 @ map ?stamp (filter (\<lambda>e. rel_target (snap_relationship e) \<noteq> targetID) edges)"
    by blast+
qed

lemma child_of_snapshots:
  assumes "readOutgoingSnapshots lib db orgID nodeID RelChildOf = Inr edges" "rels_ok db"
  shows "rel_target ` snap_relationship ` set edges = {x. has_edge db (orgID, nodeID, RelChildOf, x)}"
    "e \<in> set edges \<Longrightarrow> rel_type (snap_relationship e) = RelChildOf"
proof -
  let ?r = "outgoing_range db orgID nodeID RelChildOf"
  have mem: "(k, e) \<in> set ?r \<longleftrightarrow> fmlookup (db_rels db) k = Some e \<and> (\<exists>x. k = (orgID, nodeID, RelChildOf, x))" for k e
    by (cases k) (auto simp: outgoing_range_def kv_simps)
  have snap: "\<exists>r. decode e = Some r \<and> rel_key r = k \<and>
      decodeRelationshipSnapshot lib e = Inr \<lparr>snap_relationship = r, snap_digest = RelationshipDigest lib (enc_text e)\<rparr>"
    if "(k, e) \<in> set ?r" for k e
    using that mem rels_ok_lookup [OF assms(2), of k e] by (auto simp: decodeRelationshipSnapshot_def)
  have from_edge: "\<exists>k e. (k, e) \<in> set ?r \<and> rel_key (snap_relationship s) = k" if s: "s \<in> set edges" for s
  proof -
    obtain ke where ke: "ke \<in> set ?r" "decodeRelationshipSnapshot lib (snd ke) = Inr s"
      using mapE_set [OF assms(1) [unfolded readOutgoingSnapshots_def] s] by (auto simp: case_prod_beta)
    then show ?thesis using snap [of "fst ke" "snd ke"] by (auto intro!: exI [of _ "snd ke"])
  qed
  have to_edge: "\<exists>s \<in> set edges. rel_key (snap_relationship s) = k" if e: "(k, e) \<in> set ?r" for k e
  proof -
    obtain i where i: "i < length ?r" "?r ! i = (k, e)" using e by (auto simp: in_set_conv_nth)
    have "decodeRelationshipSnapshot lib e = Inr (edges ! i)"
      using mapE_nth [OF assms(1) [unfolded readOutgoingSnapshots_def] i(1)] i(2) by simp
    then show ?thesis
      using snap [OF e] i(1) mapE_length [OF assms(1) [unfolded readOutgoingSnapshots_def]]
      by (intro bexI [of _ "edges ! i"]) auto
  qed
  show "rel_type (snap_relationship e) = RelChildOf" if "e \<in> set edges" for e
    using from_edge [OF that] mem by (auto simp: rel_key_def)
  show "rel_target ` snap_relationship ` set edges = {x. has_edge db (orgID, nodeID, RelChildOf, x)}"
  proof (intro equalityI subsetI)
    fix x assume "x \<in> rel_target ` snap_relationship ` set edges"
    then show "x \<in> {x. has_edge db (orgID, nodeID, RelChildOf, x)}"
      using from_edge mem by (fastforce simp: rel_key_def has_edge_def)
  next
    fix x assume "x \<in> {x. has_edge db (orgID, nodeID, RelChildOf, x)}"
    then obtain e where "((orgID, nodeID, RelChildOf, x), e) \<in> set ?r" using mem by (auto simp: has_edge_def)
    from to_edge [OF this] show "x \<in> rel_target ` snap_relationship ` set edges"
      by (auto simp: rel_key_def)
  qed
qed

lemma plan_edges_not_child_of:
  assumes "checkPlanShape plan source = Inr ()"
  shows "(o', s, RelChildOf, x) \<notin> rel_key ` set (rels_add (planRelationshipChanges plan))"
    "(o', s, RelChildOf, x) \<notin> rel_key ` set (rels_remove (planRelationshipChanges plan))"
proof -
  have none: "rel_type r \<noteq> RelChildOf" if "r \<in> set (rels_add (mp_relationships plan)) \<union> set (rels_remove (mp_relationships plan))" for r
    using that by (rule checkPlanShape_Inr(2) [OF assms])
  show "(o', s, RelChildOf, x) \<notin> rel_key ` set (rels_add (planRelationshipChanges plan))"
    "(o', s, RelChildOf, x) \<notin> rel_key ` set (rels_remove (planRelationshipChanges plan))"
    by (auto simp: planRelationshipChanges_def rel_key_def dest!: none [OF UnI1] none [OF UnI2])
qed

lemma childOfChanges_edges:
  assumes "childOfChanges lib db plan source result = Inr (result', changes)" "mp_parent plan = Some targetID"
    and "rels_ok db" "\<not> ms_exists source \<Longrightarrow> \<not> has_edge db (mp_org plan, mp_node plan, RelChildOf, x)"
  shows "(mp_org plan, mp_node plan, RelChildOf, x) \<in> rel_key ` set (rels_add changes) \<or>
    (mp_org plan, mp_node plan, RelChildOf, x) \<notin> rel_key ` set (rels_remove changes) \<and>
      has_edge db (mp_org plan, mp_node plan, RelChildOf, x) \<longleftrightarrow> x = targetID"
proof -
  obtain edges kept removed where e:
    "(if ms_exists source then readOutgoingSnapshots lib db (mp_org plan) (mp_node plan) RelChildOf else Inr []) = Inr edges"
    "foldE (child_of_edge plan targetID) edges (False, []) = Inr (kept, removed)" "rels_remove changes = removed"
    "rel_key ` set (rels_add changes) = (if kept then {} else {(mp_org plan, mp_node plan, RelChildOf, targetID)})"
    using assms(1,2) by (auto simp: childOfChanges_def Let_def err_simps rel_key_def split: if_splits)
  have tgt: "has_edge db (mp_org plan, mp_node plan, RelChildOf, x) \<longleftrightarrow> x \<in> rel_target ` snap_relationship ` set edges"
    and ty: "e \<in> set edges \<Longrightarrow> rel_type (snap_relationship e) = RelChildOf" for e
    using e(1) assms(4) child_of_snapshots [OF _ assms(3), of lib "mp_org plan" "mp_node plan" edges]
    by (auto split: if_splits)
  let ?other = "{e \<in> set edges. rel_target (snap_relationship e) \<noteq> targetID}"
  have "rel_key ` set removed =
      (\<lambda>e. rel_key ((snap_relationship e)\<lparr>rel_org := mp_org plan, rel_source := mp_node plan\<rparr>)) ` ?other"
    unfolding child_of_loop(2) [OF e(2)] by (simp add: image_image)
  also have "\<dots> = (\<lambda>e. (mp_org plan, mp_node plan, RelChildOf, rel_target (snap_relationship e))) ` ?other"
    by (rule image_cong) (simp_all add: rel_key_def ty)
  finally have rem: "(mp_org plan, mp_node plan, RelChildOf, x) \<in> rel_key ` set removed \<longleftrightarrow>
      x \<noteq> targetID \<and> x \<in> rel_target ` snap_relationship ` set edges"
    by auto
  have kept: "kept \<longleftrightarrow> targetID \<in> rel_target ` snap_relationship ` set edges"
    using child_of_loop(1) [OF e(2)] by auto
  show ?thesis using rem kept tgt e(3,4) by auto
qed

lemma attempt_child_of:
  assumes "applyMutationAttempt env cfg at m plan db = Inr (receipt, db', changes)"
    and "readCreateIdempotency (env_lib env) db plan = Inr None" "mp_parent plan = Some targetID"
    and "store_ok (env_lib env) db"
    and "readMutationSource db (mp_org plan) (mp_node plan) = Inr absent_source \<Longrightarrow>
      \<not> has_edge db (mp_org plan, mp_node plan, RelChildOf, x)"
  shows "has_edge db' (mp_org plan, mp_node plan, RelChildOf, x) \<longleftrightarrow> x = targetID"
  using assms(1)
proof (cases rule: applyMutationAttempt_cases)
  case replay
  then show ?thesis using assms(2) by simp
next
  case (fresh source schema records result parentChanges strict planned dbC encoded)
  let ?k = "(mp_org plan, mp_node plan, RelChildOf, x)"
  obtain c where c: "dbC = (fenced cfg (mp_org plan) (mp_node plan) db)\<lparr>db_checkpoints := c\<rparr>"
    using advanceMutationCheckpoint_Inr [OF fresh(14)] .
  have rels: "rels_ok dbC" using store_okD(2) [OF assms(4)] rels_ok_cong [of dbC db] by (simp add: c)
  obtain dbN dbR dbL changes0 where f: "only_nodes dbC dbN" "only_refs (dbN\<lparr>db_props := db_props dbR\<rparr>) dbR"
    "applyRelationshipChanges env m [planRelationshipChanges plan, parentChanges] (dbR, changes0) = Inr (dbL, changes)"
    "db' = dbL\<lparr>db_idempotency := db_idempotency db', db_search := db_search db'\<rparr>"
    by (rule writeMutation_frame [OF fresh(15) rels]) (rule that)
  obtain t where t: "apply_change_set env m (planRelationshipChanges plan) (dbR, changes0) = Inr t"
    "apply_change_set env m parentChanges t = Inr (dbL, changes)"
    using f(3) by (auto simp: applyRelationshipChanges_def err_simps)
  have start: "has_edge dbR k \<longleftrightarrow> has_edge db k" for k
    using only_refsD [OF f(2)] only_nodesD [OF f(1)] by (simp add: has_edge_def c)
  have mid: "has_edge (fst t) ?k \<longleftrightarrow> has_edge db ?k"
    using apply_change_set_edges [OF t(1), of ?k] start plan_edges_not_child_of [OF fresh(4)] by simp
  have "db_rels db' = db_rels dbL" by (subst f(4)) simp
  then have "has_edge db' ?k \<longleftrightarrow> has_edge dbL ?k" by (simp add: has_edge_def)
  also have "\<dots> \<longleftrightarrow> x = targetID"
    using apply_change_set_edges [OF t(2), of ?k] mid
      childOfChanges_edges [OF fresh(9) assms(3) store_okD(2) [OF assms(4)], of x]
      assms(5) readMutationSource_absent [OF fresh(2)] fresh(2)
    by auto
  finally show ?thesis .
qed

text \<open>A parent that a plan names is stored in the organisation.\<close>

lemma checkParentChain_exists:
  assumes "checkParentChain lib db orgID nodeID parentID records = Inr ()" "verified db orgID records" "parentID \<noteq> uuid_nil"
  shows "\<exists>s. readMutationSource db orgID parentID = Inr s \<and> ms_exists s"
  using assms verifiedD [OF assms(2), of parentID]
  by (cases "fmlookup records parentID")
    (auto simp: checkParentChain_def parent_chain.simps [of lib db orgID nodeID parentID records "{||}" parentID] err_simps split: if_splits)

lemma attempt_store_ok:
  assumes "applyMutationAttempt env cfg at m plan db = Inr (receipt, db', changes)"
    and "store_ok (env_lib env) db" "uuid_law (env_lib env)" "distinct_templates plan"
  shows "store_ok (env_lib env) db'"
  using assms(1)
proof (cases rule: applyMutationAttempt_cases)
  case replay
  then show ?thesis using assms(2) by simp
next
  case (fresh source schema records result parentChanges strict planned dbC encoded)
  obtain c where c: "dbC = (fenced cfg (mp_org plan) (mp_node plan) db)\<lparr>db_checkpoints := c\<rparr>"
    using advanceMutationCheckpoint_Inr [OF fresh(14)] .
  have "store_ok (env_lib env) dbC" using assms(2) by (simp add: c)
  then show ?thesis using writeMutation_store_ok [OF fresh(15) _ assms(3,4)] by blast
qed

text \<open>What a fresh attempt stores and reports.\<close>

lemma attempt_written:
  assumes "applyMutationAttempt env cfg at m plan db = Inr (receipt, db', changes)"
    and "readCreateIdempotency (env_lib env) db plan = Inr None" "store_ok (env_lib env) db" "uuid_law (env_lib env)"
  obtains source s where "readMutationSource db (mp_org plan) (mp_node plan) = Inr source"
    "checkSource (env_lib env) (mp_source plan) source = Inr ()"
    "readMutationSource db' (mp_org plan) (mp_node plan) = Inr s" "ms_exists s" "ms_kind s = mp_kind plan"
    "parent_in (env_lib env) s = (case mp_parent plan of Some targetID \<Rightarrow> targetID
       | None \<Rightarrow> if ms_exists source then parent_in (env_lib env) source else uuid_nil)"
    "\<And>targetID. mp_parent plan = Some targetID \<Longrightarrow> targetID \<noteq> uuid_nil \<Longrightarrow>
       \<exists>p. readMutationSource db (mp_org plan) targetID = Inr p \<and> ms_exists p"
    "mr_org receipt = mp_org plan" "mr_node receipt = mp_node plan"
    "mr_result_digest receipt = PrimaryDigest (env_lib env) (ms_encoding s)"
    "\<And>orgID nodeID. nodeID \<noteq> mp_node plan \<Longrightarrow> readMutationSource db' orgID nodeID = readMutationSource db orgID nodeID"
    "\<And>name. name \<noteq> parentIDName \<Longrightarrow> fmlookup (node_props (ms_node s)) name = map_option raw_stored
       (fmlookup (patch_props (mp_props plan) (if ms_exists source then node_props (ms_node source) else fmempty)) name)"
    "db_fence db' = db_fence (fenced cfg (mp_org plan) (mp_node plan) db)"
    "db_activation db' = db_activation db"
  using assms(1)
proof (cases rule: applyMutationAttempt_cases)
  case replay
  then show thesis using assms(2) by simp
next
  case (fresh source schema records result parentChanges strict planned dbC encoded)
  obtain c where c: "dbC = (fenced cfg (mp_org plan) (mp_node plan) db)\<lparr>db_checkpoints := c\<rparr>"
    using advanceMutationCheckpoint_Inr [OF fresh(14)] .
  have same: "readMutationSource dbC = readMutationSource db" by (rule readMutationSource_cong) (simp_all add: c)
  have rels: "rels_ok dbC" using store_okD(2) [OF assms(3)] rels_ok_cong [of dbC db] by (simp add: c)
  note ident = result_identity [OF fresh(2) store_okD(1) [OF assms(3)] fresh(4) fresh(9)]
  note src = writeMutation_source [OF fresh(15) rels, unfolded ident same]
  let ?s = "\<lparr>ms_exists = True, ms_kind = mp_kind plan, ms_encoding = encoded,
         ms_node = result\<lparr>node_props := fmmap raw_stored (node_props result)\<rparr>\<rparr>"
  have props: "fmlookup (node_props result) name =
      fmlookup (patch_props (mp_props plan) (if ms_exists source then node_props (ms_node source) else fmempty)) name"
    if "name \<noteq> parentIDName" for name
    using childOfChanges_result [OF fresh(9)] that by (auto simp: mutationResult_simps split: option.splits)
  obtain dbN dbR dbL where f: "only_nodes dbC dbN" "only_refs (dbN\<lparr>db_props := db_props dbR\<rparr>) dbR" "only_rels dbR dbL"
    "db' = dbL\<lparr>db_idempotency := db_idempotency db', db_search := db_search db'\<rparr>"
    by (rule writeMutation_frame [OF fresh(15) rels]) (rule that)
  have "db_fence db' = db_fence dbL" "db_activation db' = db_activation dbL" by (subst f(4); simp)+
  then have keep: "db_fence db' = db_fence (fenced cfg (mp_org plan) (mp_node plan) db)" "db_activation db' = db_activation db"
    using only_relsD [OF f(3)] only_refsD [OF f(2)] only_nodesD [OF f(1)] by (simp_all add: c)
  show thesis
  proof (rule that [OF fresh(2,3), of ?s])
    show "readMutationSource db' (mp_org plan) (mp_node plan) = Inr ?s" using src by simp
    show "parent_in (env_lib env) ?s = (case mp_parent plan of Some targetID \<Rightarrow> targetID
       | None \<Rightarrow> if ms_exists source then parent_in (env_lib env) source else uuid_nil)"
      using result_parent [OF fresh(4) assms(4) fresh(9,13)] by (simp add: parent_in_def)
    show "\<exists>p. readMutationSource db (mp_org plan) targetID = Inr p \<and> ms_exists p"
      if "mp_parent plan = Some targetID" "targetID \<noteq> uuid_nil" for targetID
      using fresh(7) that checkParentChain_exists checkGraphRecords_verified [OF fresh(6)] by simp
    show "fmlookup (node_props (ms_node ?s)) name = map_option raw_stored
       (fmlookup (patch_props (mp_props plan) (if ms_exists source then node_props (ms_node source) else fmempty)) name)"
      if "name \<noteq> parentIDName" for name
      using props [OF that] by simp
  qed (use src fresh(17) keep in simp_all)
qed

section \<open>Replay, stale plans and checkpoints\<close>

lemma readCreateIdempotency_stored:
  assumes "mp_idempotency plan = Some r" "kv_get (db_idempotency db) (mp_org plan, idem_key r) = Some e"
    and "decodeIdempotencyRecord (idem_key r) e = Inr r"
    and "readMutationSource db (mp_org plan) (idem_node r) = Inr s" "ms_exists s"
  shows "readCreateIdempotency lib db plan = Inr (Some \<lparr>mr_org = mp_org plan, mr_node = idem_node r, mr_source_digest = 0,
    mr_result_digest = PrimaryDigest lib (ms_encoding s)\<rparr>)"
  using assms by (simp add: readCreateIdempotency_def)

lemma marshal_idempotency_decode:
  assumes "marshal_idempotency env r = Inr e" "length (env_idempotency_text env (r\<lparr>idem_key := []\<rparr>)) \<noteq> 15"
  shows "decodeIdempotencyRecord (idem_key r) e = Inr r" "enc_text e \<noteq> []"
  using assms by (auto simp: marshal_idempotency_def decodeIdempotencyRecord_def err_simps Let_def json_object_def)

lemma attempt_idempotency:
  assumes "applyMutationAttempt env cfg at m plan db = Inr (receipt, db', changes)"
    and "readCreateIdempotency (env_lib env) db plan = Inr None" "store_ok (env_lib env) db"
    and "mp_idempotency plan = Some r"
  shows "\<exists>e. marshal_idempotency env r = Inr e \<and> fmlookup (db_idempotency db') (mp_org plan, idem_key r) = Some e"
  using assms(1)
proof (cases rule: applyMutationAttempt_cases)
  case replay
  then show ?thesis using assms(2) by simp
next
  case (fresh source schema records result parentChanges strict planned dbC encoded)
  obtain c where c: "dbC = (fenced cfg (mp_org plan) (mp_node plan) db)\<lparr>db_checkpoints := c\<rparr>"
    using advanceMutationCheckpoint_Inr [OF fresh(14)] .
  have rels: "rels_ok dbC" using store_okD(2) [OF assms(3)] rels_ok_cong [of dbC db] by (simp add: c)
  show ?thesis
    by (rule writeMutation_frame [OF fresh(15) rels]) (use assms(4) in auto)
qed

text \<open>The expectations of a plan, as the store must meet them.\<close>

definition source_current :: "lib \<Rightarrow> db \<Rightarrow> mutation_plan \<Rightarrow> bool" where
  "source_current lib db plan \<longleftrightarrow>
     (\<exists>s. readMutationSource db (mp_org plan) (mp_node plan) = Inr s \<and>
        (if src_absent (mp_source plan) then \<not> ms_exists s
         else ms_exists s \<and> PrimaryDigest lib (ms_encoding s) = src_digest (mp_source plan)))"

definition graph_current :: "lib \<Rightarrow> db \<Rightarrow> mutation_plan \<Rightarrow> bool" where
  "graph_current lib db plan \<longleftrightarrow>
     readMetadataEpoch db (mp_org plan) = Inr (mp_metadata_epoch plan) \<and>
     (\<forall>g \<in> set (graph_records (mp_graph plan)). \<exists>s. readMutationSource db (mp_org plan) (graph_node g) = Inr s \<and>
        ms_exists s \<and> PrimaryDigest lib (ms_encoding s) = graph_digest g)"

lemma checkSource_iff:
  assumes "readMutationSource db (mp_org plan) (mp_node plan) = Inr s"
  shows "checkSource lib (mp_source plan) s = (if source_current lib db plan then Inr () else Inl ErrConflict)"
  using assms by (simp add: checkSource_def source_current_def)

lemma graph_loop:
  assumes "foldE (check_graph_record lib db orgID) expected records0 = Inr records" "g \<in> set expected"
  shows "\<exists>s. readMutationSource db orgID (graph_node g) = Inr s \<and> ms_exists s \<and>
    PrimaryDigest lib (ms_encoding s) = graph_digest g"
  using assms
proof (induction expected arbitrary: records0)
  case (Cons h expected)
  then obtain r where r: "check_graph_record lib db orgID h records0 = Inr r"
    "foldE (check_graph_record lib db orgID) expected r = Inr records"
    by (auto simp: err_simps)
  show ?case
  proof (cases "g = h")
    case True
    then show ?thesis using r(1) by (auto simp: check_graph_record_def err_simps split: if_splits)
  next
    case False
    then show ?thesis using Cons.IH [OF r(2)] Cons.prems(2) by simp
  qed
qed simp

lemma attempt_current:
  assumes "applyMutationAttempt env cfg at m plan db = Inr (receipt, db', changes)"
    and "readCreateIdempotency (env_lib env) db plan = Inr None"
  shows "source_current (env_lib env) db plan \<and> graph_current (env_lib env) db plan"
  using assms(1)
proof (cases rule: applyMutationAttempt_cases)
  case replay
  then show ?thesis using assms(2) by simp
next
  case (fresh source schema records result parentChanges strict planned dbC encoded)
  have "readMetadataEpoch db (mp_org plan) = Inr (mp_metadata_epoch plan)"
    using fresh(5) by (auto simp: checkMutationSchema_def err_simps split: if_splits)
  then show ?thesis
    using checkSource_iff [OF fresh(2)] fresh(3) graph_loop [OF fresh(6) [unfolded checkGraphRecords_def]]
    by (auto simp: graph_current_def split: if_splits)
qed

lemma attempt_checkpoint:
  assumes "applyMutationAttempt env cfg at m plan db = Inr (receipt, db', changes)"
    and "readCreateIdempotency (env_lib env) db plan = Inr None" "store_ok (env_lib env) db"
    and "mp_checkpoint plan = Some w"
  shows "\<exists>c. readRepairCheckpoint db' (cp_repair_id (cw_next w)) = Inr (Some c) \<and> cp_phase c = cp_phase (cw_next w) \<and>
      cp_node c = cp_node (cw_next w) \<and> phase_follows (cp_phase c) (cw_previous w) \<and>
      (cp_phase c = RepairPhaseCompleted \<longrightarrow> cp_result_digest c = hex_encode (digest_bytes (mr_result_digest receipt))) \<and>
      (readRepairCheckpoint db (cp_repair_id (cw_next w)) = Inr None \<and> cw_previous w = RepairPhaseNone \<or>
       (\<exists>d. readRepairCheckpoint db (cp_repair_id (cw_next w)) = Inr (Some d) \<and> cp_phase d = cw_previous w \<and>
          cp_node d = cp_node c \<and> cp_source_digest d = cp_source_digest c))"
  using assms(1)
proof (cases rule: applyMutationAttempt_cases)
  case replay
  then show ?thesis using assms(2) by simp
next
  case (fresh source schema records result parentChanges strict planned dbC encoded)
  let ?f = "fenced cfg (mp_org plan) (mp_node plan) db" and ?id = "cp_repair_id (cw_next w)"
  define nx where "nx = (if cp_phase (cw_next w) = RepairPhaseCompleted
    then (cw_next w)\<lparr>cp_result_digest := hex_encode (digest_bytes (PrimaryDigest (env_lib env) (enc_text planned)))\<rparr> else cw_next w)"
  have nx: "cp_repair_id nx = ?id" "cp_phase nx = cp_phase (cw_next w)" "cp_node nx = cp_node (cw_next w)"
    "cp_source_digest nx = cp_source_digest (cw_next w)" by (simp_all add: nx_def)
  have adv: "advanceRepairCheckpoint env (cw_previous w) nx ?f = Inr dbC"
    using fresh(14) assms(4) by (simp add: advanceMutationCheckpoint_def Let_def nx_def)
  obtain e where e: "dbC = ?f\<lparr>db_checkpoints := fmupd ?id e (db_checkpoints ?f)\<rparr>" "marshal_checkpoint env nx = Inr e"
    "readRepairCheckpoint ?f ?id = Inr None \<and> cw_previous w = RepairPhaseNone \<or>
     (\<exists>c. readRepairCheckpoint ?f ?id = Inr (Some c) \<and> cp_phase c = cw_previous w \<and>
        cp_source_digest c = cp_source_digest nx \<and> cp_node c = cp_node nx)"
    "phase_follows (cp_phase nx) (cw_previous w)"
    using advanceRepairCheckpoint_Inr [OF adv] unfolding nx(1) .
  have rels: "rels_ok dbC" using store_okD(2) [OF assms(3)] rels_ok_cong [of dbC db] by (simp add: e(1))
  obtain dbN dbR dbL where f: "writeNodeRecords env result (Some result) dbC = Inr (encoded, dbN)"
    "only_nodes dbC dbN" "only_refs (dbN\<lparr>db_props := db_props dbR\<rparr>) dbR" "only_rels dbR dbL"
    "db' = dbL\<lparr>db_idempotency := db_idempotency db', db_search := db_search db'\<rparr>"
    by (rule writeMutation_frame [OF fresh(15) rels]) (rule that)
  have "db_checkpoints db' = db_checkpoints dbL" by (subst f(5)) simp
  then have cps: "db_checkpoints db' = fmupd ?id e (db_checkpoints db)"
    using only_relsD [OF f(4)] only_refsD [OF f(3)] only_nodesD [OF f(2)] by (simp add: e(1))
  have enc: "e = json_object (env_checkpoint_text env nx) nx"
    using e(2) by (auto simp: marshal_checkpoint_def err_simps)
  have "encoded = enc_text planned" using writeNodeRecords_Inr [OF f(1)] fresh(13) by auto
  then have digest: "cp_phase nx = RepairPhaseCompleted \<longrightarrow> cp_result_digest nx = hex_encode (digest_bytes (mr_result_digest receipt))"
    using fresh(17) by (simp add: nx_def)
  have read: "readRepairCheckpoint db' ?id = Inr (Some nx)"
    using cps enc by (simp add: readRepairCheckpoint_def)
  have before: "readRepairCheckpoint ?f ?id = readRepairCheckpoint db ?id"
    by (simp add: readRepairCheckpoint_def)
  show ?thesis
    by (rule exI [of _ nx]) (use read nx digest e(3,4) before in auto)
qed

text \<open>The loop over scopes returns on every list of records whose parent chain was accepted.\<close>

lemma scope_chain_returns:
  "parent_chain lib db orgID nodeID parentID records visited currentID = Inr () \<Longrightarrow>
    \<exists>b. scope_chain lib records scopeID currentID = Some b"
proof (induction lib db orgID nodeID parentID records visited currentID rule: parent_chain.induct)
  case (1 lib db orgID nodeID parentID records visited currentID)
  show ?case
  proof (cases "currentID = uuid_nil \<or> currentID = scopeID \<or> fmlookup records currentID = None")
    case True
    then show ?thesis by (subst scope_chain.simps) auto
  next
    case False
    then obtain a where a: "fmlookup records currentID = Some a" by blast
    have ne: "currentID \<noteq> nodeID \<and> currentID |\<notin>| visited"
      using "1.prems" False by (auto simp: parent_chain.simps [of _ _ _ _ _ _ visited] split: if_splits)
    have "parent_chain lib db orgID nodeID parentID records (finsert currentID visited) (parent_in lib a) = Inr ()"
      using "1.prems" False ne a by (simp add: parent_chain.simps [of _ _ _ _ _ _ visited])
    then obtain b where "scope_chain lib records scopeID (parent_in lib a) = Some b"
      using "1.IH" [OF _ _ a] False ne by auto
    then show ?thesis using False a by (subst scope_chain.simps) auto
  qed
qed

section \<open>A sample run\<close>

text \<open>A store with one task and a plan that creates a task under it.\<close>

definition demo_node :: node where
  "demo_node = absentNode\<lparr>node_id := 4, node_org := 1, node_kind := ''task'', node_name := ''root''\<rparr>"

definition demo_db :: db where
  "demo_db = empty_db\<lparr>
     db_nodes := fmupd (1, ''task'', 4) (json_object [] demo_node) fmempty,
     db_resolves := fmupd 4 (json_object [] \<lparr>resolve_org = 1, resolve_kind = ''task''\<rparr>) fmempty,
     db_types := fmupd (1, 2) (json_object [] (sample_type ''task'')) fmempty,
     db_types_by_key := {|(1, ''task'', 2)|},
     db_defs := fmupd (1, 8) (json_object [] (sample_definition 8 ''parent_id'' PropertyTypeUUID)) fmempty\<rparr>"

definition demo_key :: idempotency_record where
  "demo_key = \<lparr>idem_key = ''k'', idem_node = 5, idem_fingerprint = ''f'', idem_created_at = 100, idem_source = []\<rparr>"

definition demo_plan :: mutation_plan where
  "demo_plan = \<lparr>mp_org = 1, mp_node = 5, mp_kind = ''task'', mp_actor = 3,
     mp_source = \<lparr>src_absent = True, src_digest = 0\<rparr>, mp_metadata_epoch = 0,
     mp_graph = \<lparr>graph_records = [\<lparr>graph_node = 4, graph_digest = PrimaryDigest demo_lib [0x7B]\<rparr>],
       graph_relationships = [], graph_incoming = []\<rparr>,
     mp_name = Some ''new'', mp_props = fmempty, mp_parent = Some 4, mp_reference_keys = None,
     mp_relationships = \<lparr>rels_add = [], rels_remove = []\<rparr>, mp_idempotency = Some demo_key, mp_checkpoint = None\<rparr>"

lemma demo_source: "readMutationSource demo_db 1 4 =
    Inr \<lparr>ms_exists = True, ms_kind = ''task'', ms_encoding = [0x7B], ms_node = demo_node\<rparr>"
  "readMutationSource demo_db 1 5 = Inr absent_source"
  by (simp_all add: readMutationSource_def demo_db_def json_object_def kv_get_def)

definition demo_schema :: schema where
  "demo_schema = \<lparr>schema_org = 1, schema_types = fmupd ''task'' (sample_type ''task'') fmempty,
     schema_definitions = [Some (sample_definition 8 ''parent_id'' PropertyTypeUUID)]\<rparr>"

lemma demo_checkSchema: "checkMutationSchema demo_db demo_plan = Inr demo_schema"
proof -
  have i: "indexedIDs (db_types_by_key demo_db) 1 ''task'' = [2]"
    by (simp add: indexedIDs_def demo_db_def sorted_list_of_fset.rep_eq maxIndexedMatches_def)
  have d: "readSchemaRecords (db_defs demo_db) 1 = Inr [sample_definition 8 ''parent_id'' PropertyTypeUUID]"
    by (simp add: readSchemaRecords_def demo_db_def kv_range_def sorted_list_of_fmap_def sorted_list_of_fset.rep_eq)
  have t: "cachedNodeTypeByKey demo_db 1 ''task'' = Inr (Some (sample_type ''task''))"
    using i by (simp add: cachedNodeTypeByKey_def) (simp add: demo_db_def sample_type_def)
  have e: "readMetadataEpoch demo_db 1 = Inr 0"
    by (simp add: readMetadataEpoch_def decodeEpochValue_def readSearchCounter_def demo_db_def empty_db_def)
  show ?thesis using t d e
    by (simp add: checkMutationSchema_def demo_plan_def demo_schema_def sample_type_def)
qed

lemma demo_records: "checkGraphRecords demo_lib demo_db 1 (graph_records (mp_graph demo_plan)) =
   Inr (fmupd 4 \<lparr>ms_exists = True, ms_kind = ''task'', ms_encoding = [0x7B], ms_node = demo_node\<rparr> fmempty)"
  by (simp add: checkGraphRecords_def check_graph_record_def demo_plan_def demo_source)

lemma demo_chain: "checkParentChain demo_lib demo_db 1 5 4
   (fmupd 4 \<lparr>ms_exists = True, ms_kind = ''task'', ms_encoding = [0x7B], ms_node = demo_node\<rparr> fmempty) = Inr ()"
  by (simp add: checkParentChain_def parent_chain.simps parent_in_def demo_node_def absentNode_def)

definition demo_result :: node where
  "demo_result = \<lparr>node_id = 5, node_org = 1, node_kind = ''task'', node_name = ''new'',
     node_props = fmupd parentIDName (quoted ''uuuuu'') fmempty,
     created_by = 3, updated_by = 3, created_at = 200, updated_at = 200\<rparr>"

definition demo_edge :: relationship where
  "demo_edge = \<lparr>rel_org = 1, rel_source = 5, rel_type = RelChildOf, rel_target = 4, rel_created_by = 3,
        rel_created_at = 200, rel_props = fmempty\<rparr>"

lemma demo_childOf: "childOfChanges demo_lib demo_db demo_plan absent_source (mutationResult demo_plan absent_source 200) =
   Inr (demo_result, \<lparr>rels_add = [demo_edge], rels_remove = []\<rparr>)"
proof -
  have "patch_props fmempty fmempty = fmempty" by (rule fmap_ext) (simp add: patch_props_def)
  moreover have "lib_uuid_string demo_lib 4 = ''uuuuu''" by (simp add: demo_lib_def unary_lib_def) (simp add: numeral_eq_Suc)
  ultimately show ?thesis
    by (simp add: childOfChanges_def demo_plan_def mutationResult_def absent_source_def demo_result_def demo_edge_def)
qed

lemma demo_fence: "callFence sample_config 1 5 demo_db = Inr (False, fenced sample_config 1 5 demo_db)"
  by (rule sample_fence) (simp add: demo_db_def empty_db_def)

lemma demo_valid: "checkMutationResult demo_lib (fenced sample_config 1 5 demo_db) demo_plan absent_source demo_result demo_schema = Inr ()"
proof -
  have g: "readResultGraph demo_lib (fenced sample_config 1 5 demo_db) demo_plan demo_result demo_schema (\<lambda>name. True) =
    Inr \<lparr>rg_org = 1, rg_child_of = [], rg_targets = fmempty\<rparr>"
    by (simp add: readResultGraph_def demo_schema_def sample_definition_def demo_plan_def)
  have r: "replicate 4 CHR ''u'' = ''uuuu''" by (simp add: numeral_eq_Suc)
  have v: "pr_failures (ValidateResult demo_lib demo_schema ''task'' (node_props demo_result) \<lparr>rg_org = 1, rg_child_of = [], rg_targets = fmempty\<rparr>) = [] \<and>
    list_all (\<lambda>i. issue_code i = PropertyIssueParent) (pr_invalid (ValidateResult demo_lib demo_schema ''task'' (node_props demo_result) \<lparr>rg_org = 1, rg_child_of = [], rg_targets = fmempty\<rparr>))"
    by (simp add: r ValidateResult_def Let_def Interpret_def demo_schema_def demo_result_def definitionsByName_def definitions_step_def
      sortedPropertyNames_def sorted_list_of_fset.rep_eq interpret_step_def property_issue_of_def sample_definition_def PropertyAppliesTo_def sample_type_def
      propertyValueIssue_def stringValueIssue_def quoted_def unmarshal_def uuidReason_def demo_lib_def unary_lib_def
      sortedDefinitions_def validate_definition_def validate_parent_def parentReason_def resultReferenceID_def)
  show ?thesis using v g
    by (auto simp: checkMutationResult_def absent_source_def demo_plan_def ordinaryIssue_def filter_empty_conv list_all_iff)
qed

lemma demo_marshal: "marshal_node body demo_result = Inr (json_object (body (demo_result\<lparr>node_props := fmmap raw_stored (node_props demo_result)\<rparr>))
    (demo_result\<lparr>node_props := fmmap raw_stored (node_props demo_result)\<rparr>))"
proof -
  have "fmpred (\<lambda>_. raw_ok) (node_props demo_result)"
    by (auto simp: demo_result_def fmpred_iff quoted_def raw_ok_def split: if_splits)
  moreover have "time_json_ok (created_at demo_result)" "time_json_ok (updated_at demo_result)"
    by (simp_all add: demo_result_def time_json_ok_def)
  ultimately show ?thesis by (simp add: marshal_node_def marshal_props_def Let_def)
qed

lemma demo_write: "\<exists>encoded db' changes. writeMutation sample_env sample_config sample_instants (demo_audit 1) (demo_plan\<lparr>mp_checkpoint := w\<rparr>) absent_source demo_result
    demo_schema [planRelationshipChanges (demo_plan\<lparr>mp_checkpoint := w\<rparr>), \<lparr>rels_add = [demo_edge], rels_remove = []\<rparr>] db =
    Inr (encoded, db', changes) \<and> list_all (\<lambda>c. ValidateChange demo_lib c \<and> chg_protected c = []) changes \<and> length changes \<le> 100"
proof -
  let ?p = "demo_plan\<lparr>mp_checkpoint := w\<rparr>"
  obtain encoded dbN where n: "writeNodeRecords sample_env demo_result (Some demo_result) db = Inr (encoded, dbN)" "encoded \<noteq> []"
    by (simp add: writeNodeRecords_def demo_marshal Let_def json_object_def)
  have tgt: "validateTarget (mutation_target ?p demo_result)" "validateTarget (rel_target_of demo_edge)"
    by (simp_all add: mutation_target_def demo_plan_def nodeTarget_def nodeIdentityTarget_def demo_result_def validateTarget_def
      rel_target_of_def relationshipTarget_def demo_edge_def)
  obtain c where c: "record_change sample_env (demo_audit 1) (mutation_target ?p demo_result) (ms_encoding absent_source) encoded [] = Inr c"
    "list_all (\<lambda>c. ValidateChange demo_lib c \<and> chg_protected c = []) c" "length c \<le> 1"
    using demo_record [OF tgt(1), of "ms_encoding absent_source" encoded "demo_audit 1" "[]"] n(2) by auto
  have m: "marshal_relationship sample_env demo_edge = Inr (json_object [] demo_edge)"
    by (simp add: marshal_relationship_def demo_edge_def time_json_ok_def marshal_props_def sample_env_def)
  obtain c2 where c2: "record_change sample_env (demo_audit 1) (rel_target_of demo_edge) stored (enc_text (json_object [] demo_edge)) c = Inr (c @ c2 stored)"
    "list_all (\<lambda>c. ValidateChange demo_lib c \<and> chg_protected c = []) (c2 stored)" "length (c2 stored) \<le> 1" for stored
    using demo_record [OF tgt(2), of _ "enc_text (json_object [] demo_edge)" "demo_audit 1" c] by (metis enc_json_object(1))
  let ?P = "reconcilePropertyIndexes demo_result (node_props (ms_node absent_source)) (indexedPropertyNames demo_schema (sample_type ''task'')) dbN"
  have refs: "write_references demo_lib ?p absent_source ?P = Inr ?P"
    by (simp add: write_references_def absent_source_def demo_plan_def claimReferenceKeys_def)
  obtain dbL st where l: "applyRelationshipChanges sample_env (demo_audit 1)
      [planRelationshipChanges ?p, \<lparr>rels_add = [demo_edge], rels_remove = []\<rparr>] (?P, c) = Inr (dbL, c @ c2 st)"
    by (simp add: applyRelationshipChanges_def apply_change_set_def planRelationshipChanges_def demo_plan_def
      removeRelationships_def addRelationships_def readRelationshipValues_def add_relationship_def m c2(1))
  obtain dbI where i: "writeCreateIdempotencyRecord sample_env ?p dbL = Inr dbI"
    by (simp add: writeCreateIdempotencyRecord_def demo_plan_def demo_key_def marshal_idempotency_def time_json_ok_def Let_def)
  have t: "fmlookup (schema_types demo_schema) (mp_kind ?p) = Some (sample_type ''task'')"
    by (simp add: demo_schema_def demo_plan_def)
  have s: "schedule_mutation sample_env sample_config sample_instants ?p absent_source demo_result demo_schema rc dbI = Inr dbI" for rc
    by (simp add: schedule_mutation_def sample_config_def)
  have lib: "env_lib sample_env = demo_lib" by (simp add: sample_env_def)
  show ?thesis
    using n(1) c(1) refs l i s t c(2,3) c2(2,3) [of st]
    by (auto simp: writeMutation_def mutationView_def Let_def lib intro: order_trans)
qed

lemma demo_checks:
  "readCreateIdempotency demo_lib demo_db (demo_plan\<lparr>mp_checkpoint := w\<rparr>) = Inr None"
  "checkSource demo_lib (mp_source demo_plan) absent_source = Inr ()"
  "checkPlanShape (demo_plan\<lparr>mp_checkpoint := w\<rparr>) absent_source = Inr ()"
  "checkMoveScope demo_lib (demo_plan\<lparr>mp_checkpoint := w\<rparr>) absent_source r records = Inr ()"
  by (simp_all add: readCreateIdempotency_def demo_plan_def demo_db_def empty_db_def checkSource_def absent_source_def
    checkPlanShape_def checkMoveScope_def)

lemma demo_plan_checkpoint:
  "checkMutationSchema demo_db (demo_plan\<lparr>mp_checkpoint := w\<rparr>) = checkMutationSchema demo_db demo_plan"
  "mutationResult (demo_plan\<lparr>mp_checkpoint := w\<rparr>) = mutationResult demo_plan"
  "childOfChanges demo_lib demo_db (demo_plan\<lparr>mp_checkpoint := w\<rparr>) absent_source r =
     childOfChanges demo_lib demo_db demo_plan absent_source r"
  "checkMutationResult demo_lib db (demo_plan\<lparr>mp_checkpoint := w\<rparr>) absent_source r s =
     checkMutationResult demo_lib db demo_plan absent_source r s"
  by (simp_all add: checkMutationSchema_def mutationResult_def fun_eq_iff childOfChanges_def absent_source_def
    checkMutationResult_def readResultGraph_def Let_def cong: if_cong option.case_cong)

lemma demo_apply_checkpoint:
  assumes "advanceMutationCheckpoint sample_env w (Some [0x7B]) (fenced sample_config 1 5 demo_db) = Inr dbC"
  shows "\<exists>receipt db'. ApplyMutation sample_env sample_config sample_instants (Some sample_operation) 77
    (demo_plan\<lparr>mp_checkpoint := w\<rparr>) demo_db = Inr (receipt, db')"
proof -
  let ?p = "demo_plan\<lparr>mp_checkpoint := w\<rparr>"
  obtain encoded db' changes where wr: "writeMutation sample_env sample_config sample_instants (demo_audit 1) ?p absent_source demo_result
    demo_schema [planRelationshipChanges ?p, \<lparr>rels_add = [demo_edge], rels_remove = []\<rparr>] dbC =
    Inr (encoded, db', changes)" "list_all (\<lambda>c. ValidateChange demo_lib c \<and> chg_protected c = []) changes" "length changes \<le> 100"
    using demo_write by blast
  obtain dbF where a: "append_changes sample_env (demo_audit 1) 200 (db', changes) = Inr dbF"
    using demo_append [OF wr(2,3), of 1 200] by auto
  have plan: "mp_org ?p = 1" "mp_node ?p = 5" "mp_parent ?p = Some 4" "mp_checkpoint ?p = w" "mp_source ?p = mp_source demo_plan"
    "graph_records (mp_graph ?p) = graph_records (mp_graph demo_plan)"
    by (simp_all add: demo_plan_def)
  have lib: "env_lib sample_env = demo_lib" by (simp add: sample_env_def)
  have at: "at_write sample_instants = 200" "at_append sample_instants = 200" by (simp_all add: sample_instants_def)
  have tx: "enc_text (json_object (env_node_text sample_env n) v) = [0x7B]" for n v by (simp add: sample_env_def json_object_def)
  have "\<exists>receipt. applyMutationAttempt sample_env sample_config sample_instants (demo_audit 1) ?p demo_db = Inr (receipt, db', changes)"
    unfolding applyMutationAttempt_def lib plan at
    by (simp only: demo_checks demo_plan_checkpoint demo_source demo_checkSchema demo_records demo_chain demo_childOf demo_fence checkStrictMutation_def
      demo_valid demo_marshal tx assms wr(1) checkStrictRelationshipAdds_def Let_def bindE_Inr option.case prod.case if_True if_False
      not_False_eq_True) simp
  then show ?thesis using a by (auto simp: ApplyMutation_def plan demo_begin at)
qed

lemma demo_apply:
  "\<exists>receipt db'. ApplyMutation sample_env sample_config sample_instants (Some sample_operation) 77 demo_plan demo_db = Inr (receipt, db')"
  using demo_apply_checkpoint [of None] by (simp add: advanceMutationCheckpoint_def demo_plan_def)

lemma demo_db_ok: "store_ok lib demo_db"
proof -
  have "nodes_ok demo_db"
    by (rule nodes_okI) (auto simp: demo_db_def empty_db_def demo_node_def absentNode_def node_key_def split: if_splits)
  then show ?thesis
    using store_okD [OF empty_db_ok [of lib]] rels_ok_cong [of demo_db empty_db] refs_ok_cong [of demo_db empty_db lib]
    by (simp add: store_ok_def demo_db_def)
qed

lemma demo_law_env [simp]: "env_lib sample_env = demo_lib"
  by (simp add: sample_env_def)

lemma demo_no_edges: "parent_edges demo_lib demo_db orgID = {}"
proof -
  have "readMutationSource demo_db orgID n = Inr absent_source" if "(orgID, n) \<noteq> (1, 4)" for n
    using that by (auto simp: readMutationSource_def demo_db_def)
  moreover have "parent_in demo_lib \<lparr>ms_exists = True, ms_kind = ''task'', ms_encoding = [0x7B], ms_node = demo_node\<rparr> = uuid_nil"
    by (simp add: parent_in_def demo_node_def absentNode_def)
  ultimately have "(n, p) \<notin> parent_edges demo_lib demo_db orgID" for n p
    using demo_source(1) by (cases "(orgID, n) = (1, 4)") (auto simp: parent_edges_iff absent_source_def)
  then show ?thesis by auto
qed

lemma demo_fresh: "readCreateIdempotency demo_lib demo_db demo_plan = Inr None"
  by (simp add: readCreateIdempotency_def demo_plan_def demo_db_def empty_db_def)

section \<open>Properties\<close>

text \<open>
  C1: No mutation creates a cycle of parents. If following \<open>parent_id\<close> from node to node never returns
  to its start in the stored nodes of an organisation, the same holds after every successful
  \<open>ApplyMutation\<close>: whatever the plan was made from, the attempt follows the chain of the new parent
  through records it has reread.
\<close>

theorem ApplyMutation_acyclic:
  assumes "ApplyMutation env cfg at operation base plan db = Inr (receipt, db')"
    and "store_ok (env_lib env) db" "uuid_law (env_lib env)" "acyclic (parent_edges (env_lib env) db orgID)"
  shows "acyclic (parent_edges (env_lib env) db' orgID)"
proof -
  obtain m dbA changes w where run: "applyMutationAttempt env cfg at m plan db = Inr (receipt, dbA, changes)"
    "db' = dbA\<lparr>db_outbox := db_outbox dbA @ w\<rparr>"
    using ApplyMutation_Inr [OF assms(1)] by metis
  have "readMutationSource db' = readMutationSource dbA" by (rule readMutationSource_cong) (simp_all add: run(2))
  then show ?thesis using attempt_parent_edges [OF run(1) assms(2-4)] parent_edges_cong by metis
qed

theorem ApplyMutation_acyclic_witness:
  "\<exists>receipt db'. ApplyMutation sample_env sample_config sample_instants (Some sample_operation) 77 demo_plan demo_db =
      Inr (receipt, db') \<and> acyclic (parent_edges demo_lib db' 1)"
proof -
  obtain receipt db' where run:
    "ApplyMutation sample_env sample_config sample_instants (Some sample_operation) 77 demo_plan demo_db = Inr (receipt, db')"
    using demo_apply by blast
  have "acyclic (parent_edges demo_lib demo_db 1)" unfolding demo_no_edges by (simp add: acyclic_def)
  then have "acyclic (parent_edges (env_lib sample_env) db' 1)"
    using ApplyMutation_acyclic [OF run] demo_db_ok demo_law by simp
  then show ?thesis using run by auto
qed

text \<open>
  C2: The parent edge. After a mutation that sets a parent, the node stores that parent in \<open>parent_id\<close>
  and has exactly one \<open>child_of\<close> edge, to the same node, which is stored in the organisation. This holds
  whatever edges the node had, provided that a node which is not stored has none.
\<close>

theorem ApplyMutation_parent:
  assumes "ApplyMutation env cfg at operation base plan db = Inr (receipt, db')"
    and "readCreateIdempotency (env_lib env) db plan = Inr None" "mp_parent plan = Some targetID"
    and "store_ok (env_lib env) db" "uuid_law (env_lib env)"
    and "readMutationSource db (mp_org plan) (mp_node plan) = Inr absent_source \<longrightarrow>
      (\<forall>x. \<not> has_edge db (mp_org plan, mp_node plan, RelChildOf, x))"
  shows "(\<exists>s. readMutationSource db' (mp_org plan) (mp_node plan) = Inr s \<and> ms_exists s \<and> parent_in (env_lib env) s = targetID) \<and>
    (\<forall>x. has_edge db' (mp_org plan, mp_node plan, RelChildOf, x) \<longleftrightarrow> x = targetID) \<and>
    (targetID \<noteq> uuid_nil \<longrightarrow> (\<exists>p. readMutationSource db (mp_org plan) targetID = Inr p \<and> ms_exists p))"
proof -
  obtain m dbA changes w where run: "applyMutationAttempt env cfg at m plan db = Inr (receipt, dbA, changes)"
    "db' = dbA\<lparr>db_outbox := db_outbox dbA @ w\<rparr>"
    using ApplyMutation_Inr [OF assms(1)] by metis
  have same: "readMutationSource db' = readMutationSource dbA" by (rule readMutationSource_cong) (simp_all add: run(2))
  have edge: "has_edge db' (mp_org plan, mp_node plan, RelChildOf, x) \<longleftrightarrow> x = targetID" for x
    using attempt_child_of [OF run(1) assms(2-4), of x] assms(6) by (simp add: run(2) has_edge_def)
  show ?thesis
    by (rule attempt_written [OF run(1) assms(2,4,5)]) (use same edge assms(3) in auto)
qed

theorem ApplyMutation_parent_witness:
  "\<exists>receipt db' s. ApplyMutation sample_env sample_config sample_instants (Some sample_operation) 77 demo_plan demo_db =
      Inr (receipt, db') \<and> readMutationSource db' 1 5 = Inr s \<and> parent_in demo_lib s = 4 \<and>
      has_edge db' (1, 5, RelChildOf, 4)"
proof -
  obtain receipt db' where run:
    "ApplyMutation sample_env sample_config sample_instants (Some sample_operation) 77 demo_plan demo_db = Inr (receipt, db')"
    using demo_apply by blast
  have plan: "mp_org demo_plan = 1" "mp_node demo_plan = 5" "mp_parent demo_plan = Some 4" by (simp_all add: demo_plan_def)
  have none: "\<not> has_edge demo_db k" for k by (simp add: has_edge_def demo_db_def empty_db_def)
  show ?thesis
    using ApplyMutation_parent [OF run _ plan(3), unfolded plan] demo_fresh demo_db_ok demo_law none run by auto
qed



text \<open>
  C18: Idempotent creation. After a mutation with an idempotency record, applying the same plan again, at
  any time and with any base event ID, changes nothing and reports the same node and the same result
  digest. The stored record must not be 16 bytes long, the length of the older format.
\<close>

theorem ApplyMutation_replay:
  assumes "ApplyMutation env cfg at operation base plan db = Inr (receipt, db')"
    and "readCreateIdempotency (env_lib env) db plan = Inr None" "store_ok (env_lib env) db" "uuid_law (env_lib env)"
    and "mp_idempotency plan = Some r" "idem_node r = mp_node plan"
    and "length (env_idempotency_text env (r\<lparr>idem_key := []\<rparr>)) \<noteq> 15"
  shows "ApplyMutation env cfg' at' operation base' plan db' = Inr (\<lparr>mr_org = mr_org receipt, mr_node = mr_node receipt,
    mr_source_digest = 0, mr_result_digest = mr_result_digest receipt\<rparr>, db')"
proof -
  obtain m dbA changes w where run: "applyMutationAttempt env cfg at m plan db = Inr (receipt, dbA, changes)"
    "db' = dbA\<lparr>db_outbox := db_outbox dbA @ w\<rparr>"
    using ApplyMutation_Inr [OF assms(1)] by metis
  have same: "readMutationSource db' = readMutationSource dbA" by (rule readMutationSource_cong) (simp_all add: run(2))
  obtain e where e: "marshal_idempotency env r = Inr e" "fmlookup (db_idempotency db') (mp_org plan, idem_key r) = Some e"
    using attempt_idempotency [OF run(1) assms(2,3,5)] by (auto simp: run(2))
  note dec = marshal_idempotency_decode [OF e(1) assms(7)]
  obtain s where s: "readMutationSource db' (mp_org plan) (mp_node plan) = Inr s" "ms_exists s"
    "mr_org receipt = mp_org plan" "mr_node receipt = mp_node plan"
    "mr_result_digest receipt = PrimaryDigest (env_lib env) (ms_encoding s)"
    using attempt_written [OF run(1) assms(2-4)] same by metis
  have "readCreateIdempotency (env_lib env) db' plan = Inr (Some \<lparr>mr_org = mr_org receipt, mr_node = mr_node receipt,
    mr_source_digest = 0, mr_result_digest = mr_result_digest receipt\<rparr>)"
    using readCreateIdempotency_stored [OF assms(5) _ dec(1), of db' s "env_lib env"] e(2) dec(2) s assms(6)
    by (simp add: kv_get_def)
  moreover obtain m' where "beginMutationAudit operation base' (mp_org plan) = Inr m'"
    using assms(1) by (auto simp: ApplyMutation_def beginMutationAudit_def split: option.splits if_splits)
  ultimately show ?thesis
    by (simp add: ApplyMutation_def applyMutationAttempt_def append_changes_def AppendChanges_def)
qed

theorem ApplyMutation_replay_witness:
  "\<exists>receipt db'. ApplyMutation sample_env sample_config sample_instants (Some sample_operation) 77 demo_plan demo_db =
      Inr (receipt, db') \<and>
    ApplyMutation sample_env sample_config sample_instants (Some sample_operation) 78 demo_plan db' =
      Inr (\<lparr>mr_org = mr_org receipt, mr_node = mr_node receipt, mr_source_digest = 0,
        mr_result_digest = mr_result_digest receipt\<rparr>, db')"
proof -
  obtain receipt db' where run:
    "ApplyMutation sample_env sample_config sample_instants (Some sample_operation) 77 demo_plan demo_db = Inr (receipt, db')"
    using demo_apply by blast
  have key: "mp_idempotency demo_plan = Some demo_key" "idem_node demo_key = mp_node demo_plan"
    by (simp_all add: demo_plan_def demo_key_def)
  have len: "length (env_idempotency_text sample_env (demo_key\<lparr>idem_key := []\<rparr>)) \<noteq> 15" by (simp add: sample_env_def)
  show ?thesis
    using ApplyMutation_replay [OF run _ _ _ key len] demo_fresh demo_db_ok demo_law run unfolding demo_law_env by blast
qed

text \<open>
  C19: A stale plan is refused. If the stored node is not the one the plan was made from (another
  encoding, a node where none was expected, or none where one was), \<open>ApplyMutation\<close> returns a conflict;
  and a fresh mutation succeeds only while the source, the metadata epoch and every listed graph record
  are as the plan expects.
\<close>

theorem ApplyMutation_stale:
  assumes "beginMutationAudit operation base (mp_org plan) = Inr m"
    and "readCreateIdempotency (env_lib env) db plan = Inr None" "store_ok (env_lib env) db"
  shows "(\<not> source_current (env_lib env) db plan \<longrightarrow> ApplyMutation env cfg at operation base plan db = Inl ErrConflict) \<and>
    (\<forall>receipt db'. ApplyMutation env cfg at operation base plan db = Inr (receipt, db') \<longrightarrow>
      source_current (env_lib env) db plan \<and> graph_current (env_lib env) db plan)"
proof (intro conjI impI allI)
  assume stale: "\<not> source_current (env_lib env) db plan"
  obtain s where s: "readMutationSource db (mp_org plan) (mp_node plan) = Inr s"
    using readMutationSource_total [OF store_okD(1) [OF assms(3)]] by blast
  have "applyMutationAttempt env cfg at m plan db = Inl ErrConflict"
    using s checkSource_iff [OF s, of "env_lib env"] stale assms(2) by (simp add: applyMutationAttempt_def)
  then show "ApplyMutation env cfg at operation base plan db = Inl ErrConflict"
    using assms(1) by (simp add: ApplyMutation_def)
next
  fix receipt db' assume "ApplyMutation env cfg at operation base plan db = Inr (receipt, db')"
  then obtain m' dbA changes where "applyMutationAttempt env cfg at m' plan db = Inr (receipt, dbA, changes)"
    using ApplyMutation_Inr by metis
  from attempt_current [OF this assms(2)]
  show "source_current (env_lib env) db plan" "graph_current (env_lib env) db plan" by simp_all
qed

theorem ApplyMutation_stale_witness:
  "\<not> source_current demo_lib demo_db (demo_plan\<lparr>mp_node := 4, mp_idempotency := None\<rparr>) \<and>
   ApplyMutation sample_env sample_config sample_instants (Some sample_operation) 77
     (demo_plan\<lparr>mp_node := 4, mp_idempotency := None\<rparr>) demo_db = Inl ErrConflict"
proof -
  let ?p = "demo_plan\<lparr>mp_node := 4, mp_idempotency := None\<rparr>"
  have stale: "\<not> source_current (env_lib sample_env) demo_db ?p"
    by (simp add: source_current_def demo_plan_def demo_source)
  have "readCreateIdempotency (env_lib sample_env) demo_db ?p = Inr None" by (simp add: readCreateIdempotency_def)
  moreover have "beginMutationAudit (Some sample_operation) 77 (mp_org ?p) = Inr (demo_audit 1)"
    using demo_begin [of 1] by (simp add: demo_plan_def)
  ultimately show ?thesis
    using ApplyMutation_stale [of "Some sample_operation" 77 ?p "demo_audit 1" sample_env demo_db] stale demo_db_ok by simp
qed

text \<open>
  C20: Repair checkpoints only advance. A fresh mutation with a checkpoint finds the stored phase that the
  plan names (or no checkpoint for the empty phase), for the same node and source digest, and leaves a
  checkpoint with the planned phase, which ranks above the old one; a completed checkpoint records the
  digest of the written node.
\<close>

theorem ApplyMutation_checkpoint:
  assumes "ApplyMutation env cfg at operation base plan db = Inr (receipt, db')"
    and "readCreateIdempotency (env_lib env) db plan = Inr None" "store_ok (env_lib env) db"
    and "mp_checkpoint plan = Some w"
  shows "\<exists>c rank. RepairCheckpoint db' (cp_repair_id (cw_next w)) = Inr (Some c) \<and> cp_phase c = cp_phase (cw_next w) \<and>
    repairPhaseRank (cp_phase c) = Some rank \<and>
    (cp_phase c = RepairPhaseCompleted \<longrightarrow> cp_result_digest c = hex_encode (digest_bytes (mr_result_digest receipt))) \<and>
    (RepairCheckpoint db (cp_repair_id (cw_next w)) = Inr None \<and> cw_previous w = RepairPhaseNone \<or>
     (\<exists>d old. RepairCheckpoint db (cp_repair_id (cw_next w)) = Inr (Some d) \<and> cp_phase d = cw_previous w \<and>
        cp_node d = cp_node c \<and> cp_source_digest d = cp_source_digest c \<and>
        (cp_phase d = RepairPhaseNone \<or> repairPhaseRank (cp_phase d) = Some old \<and> old < rank)))"
proof -
  obtain m dbA changes v where run: "applyMutationAttempt env cfg at m plan db = Inr (receipt, dbA, changes)"
    "db' = dbA\<lparr>db_outbox := db_outbox dbA @ v\<rparr>"
    using ApplyMutation_Inr [OF assms(1)] by metis
  have same: "readRepairCheckpoint db' = readRepairCheckpoint dbA" by (simp add: readRepairCheckpoint_def run(2) fun_eq_iff)
  obtain c where c: "readRepairCheckpoint db' (cp_repair_id (cw_next w)) = Inr (Some c)" "cp_phase c = cp_phase (cw_next w)"
    "phase_follows (cp_phase c) (cw_previous w)"
    "cp_phase c = RepairPhaseCompleted \<longrightarrow> cp_result_digest c = hex_encode (digest_bytes (mr_result_digest receipt))"
    "readRepairCheckpoint db (cp_repair_id (cw_next w)) = Inr None \<and> cw_previous w = RepairPhaseNone \<or>
       (\<exists>d. readRepairCheckpoint db (cp_repair_id (cw_next w)) = Inr (Some d) \<and> cp_phase d = cw_previous w \<and>
          cp_node d = cp_node c \<and> cp_source_digest d = cp_source_digest c)"
    using attempt_checkpoint [OF run(1) assms(2-4)] unfolding same by blast
  obtain rank where rank: "repairPhaseRank (cp_phase c) = Some rank"
    using phase_follows_valid [OF c(3)] by (auto simp: phase_valid_def)
  have "cw_previous w = RepairPhaseNone \<or> (\<exists>old. repairPhaseRank (cw_previous w) = Some old \<and> old < rank)"
    using phase_follows_rank [OF c(3)] rank by (cases "cw_previous w = RepairPhaseNone") (auto simp: phase_valid_def)
  then show ?thesis
    using c rank unfolding RepairCheckpoint_def by (intro exI [of _ c] exI [of _ rank]) auto
qed

text \<open>The sample plan with a checkpoint.\<close>

definition demo_checkpoint :: repair_checkpoint where
  "demo_checkpoint = \<lparr>cp_repair_id = ''r'', cp_manifest_digest = [], cp_node = 5, cp_source_digest = [],
     cp_phase = RepairPhaseExported, cp_comment = uuid_nil, cp_content_digest = [], cp_export_path = [],
     cp_export_digest = [], cp_result_digest = [], cp_actor = 3, cp_updated_at = 200\<rparr>"

definition checkpoint_plan :: mutation_plan where
  "checkpoint_plan = demo_plan\<lparr>mp_checkpoint := Some \<lparr>cw_previous = RepairPhaseNone, cw_next = demo_checkpoint\<rparr>\<rparr>"

theorem ApplyMutation_checkpoint_witness:
  "\<exists>receipt db' c. ApplyMutation sample_env sample_config sample_instants (Some sample_operation) 77 checkpoint_plan demo_db =
      Inr (receipt, db') \<and> RepairCheckpoint db' ''r'' = Inr (Some c) \<and> cp_phase c = RepairPhaseExported"
proof -
  have "\<exists>dbC. advanceMutationCheckpoint sample_env (Some \<lparr>cw_previous = RepairPhaseNone, cw_next = demo_checkpoint\<rparr>) (Some [0x7B])
      (fenced sample_config 1 5 demo_db) = Inr dbC"
    by (simp add: advanceMutationCheckpoint_def advanceRepairCheckpoint_def readRepairCheckpoint_def demo_db_def empty_db_def
      demo_checkpoint_def phase_follows_def phase_valid_def marshal_checkpoint_def time_json_ok_def Let_def)
  then obtain receipt db' where run:
    "ApplyMutation sample_env sample_config sample_instants (Some sample_operation) 77 checkpoint_plan demo_db = Inr (receipt, db')"
    using demo_apply_checkpoint unfolding checkpoint_plan_def by blast
  have w: "mp_checkpoint checkpoint_plan = Some \<lparr>cw_previous = RepairPhaseNone, cw_next = demo_checkpoint\<rparr>"
    by (simp add: checkpoint_plan_def)
  have "readCreateIdempotency (env_lib sample_env) demo_db checkpoint_plan = Inr None"
    using demo_checks(1) by (simp add: checkpoint_plan_def)
  from ApplyMutation_checkpoint [OF run this demo_db_ok w] run show ?thesis
    by (auto simp: demo_checkpoint_def)
qed

text \<open>
  C21: The loops of the plan checks end. \<open>checkParentChain\<close> is total, and when it accepts the records, the
  loop of \<open>checkMoveScope\<close>, which keeps no set of visited nodes, returns on them for every scope.
\<close>

theorem scope_loop_returns:
  assumes "checkParentChain lib db orgID nodeID parentID records = Inr ()"
  shows "\<exists>b. scope_chain lib records scopeID parentID = Some b"
  using scope_chain_returns [OF assms [unfolded checkParentChain_def]] .

theorem scope_loop_returns_witness:
  "\<exists>b. scope_chain demo_lib (fmupd 4 \<lparr>ms_exists = True, ms_kind = ''task'', ms_encoding = [0x7B], ms_node = demo_node\<rparr> fmempty) 7 4 =
     Some b"
  by (rule scope_loop_returns [OF demo_chain])

end
