(* ===== verification/Node_Deletion.thy ===== *)
theory Node_Deletion
  imports Node_Mutation
begin

text \<open>
  The deletion of one node: \<open>clearNode\<close>, which every deletion shares (\<open>node_delete.go\<close>), the planned
  deletion \<open>DeleteNode\<close> with its guards against hierarchy children and indexed references
  (\<open>node_mutation_delete.go\<close>, \<open>node_mutation_delete_reference.go\<close>), and the older \<open>Delete\<close>.
\<close>

section \<open>Clearing a node\<close>

text \<open>
  The loop of \<open>clearSourceRelationships\<close>: the reverse entry of each relationship goes and its stored
  value is recorded as removed; the forward entries go together at the end.
\<close>

definition clear_source_edge ::
  "env \<Rightarrow> mutation_audit \<Rightarrow> (uuid \<times> uuid \<times> string \<times> uuid) \<times> relationship encoded \<Rightarrow> txn \<Rightarrow> txn result" where
  "clear_source_edge env m = (\<lambda>((orgID, nodeID, relationType, targetID), stored) (db, changes).
     bindE (record_change env m (relationshipTarget nodeID relationType targetID) (enc_text stored) [] changes) (\<lambda>changes.
     Inr (db\<lparr>db_rels_rev := db_rels_rev db |-| {|(orgID, targetID, relationType, nodeID)|}\<rparr>, changes)))"

definition clearSourceRelationships :: "env \<Rightarrow> mutation_audit \<Rightarrow> uuid \<Rightarrow> uuid \<Rightarrow> txn \<Rightarrow> (uuid list \<times> txn) result" where
  "clearSourceRelationships env m orgID nodeID t =
     (let items = outgoing_range (fst t) orgID nodeID [] in
      bindE (foldE (clear_source_edge env m) items t) (\<lambda>(db, changes).
      Inr (map (\<lambda>((_, _, _, targetID), _). targetID) items,
        db\<lparr>db_rels := kv_clear_range (\<lambda>(o', s, _, _). o' = orgID \<and> s = nodeID) (db_rels db)\<rparr>, changes)))"

definition clearTargetRelationships :: "env \<Rightarrow> mutation_audit \<Rightarrow> uuid \<Rightarrow> uuid \<Rightarrow> txn \<Rightarrow> (uuid list \<times> txn) result" where
  "clearTargetRelationships env m orgID nodeID t =
     (let incoming = map (\<lambda>(_, _, relationType, sourceID). removed_edge orgID sourceID relationType nodeID)
            (incoming_range (fst t) orgID nodeID []) in
      bindE (removeRelationships env m incoming t) (\<lambda>(db, changes).
      Inr (map rel_source incoming,
        db\<lparr>db_rels_rev := ffilter (\<lambda>(o', d, _, _). \<not> (o' = orgID \<and> d = nodeID)) (db_rels_rev db)\<rparr>, changes)))"

definition schedule_fanout :: "env \<Rightarrow> search_work \<Rightarrow> uuid list \<Rightarrow> db \<Rightarrow> db result" where
  "schedule_fanout env deletion counterparts db =
     bindE (scheduleDeletedFanout (env_lib env) deletion counterparts (db_search db)) (\<lambda>s. Inr (db\<lparr>db_search := s\<rparr>))"

definition schedule_deletion ::
  "env \<Rightarrow> store_config \<Rightarrow> instants \<Rightarrow> uuid \<Rightarrow> uuid \<Rightarrow> db \<Rightarrow> (search_work option \<times> db) result" where
  "schedule_deletion env cfg at orgID nodeID db =
     (if cfg_search_work cfg
      then bindE (schedule_change env (at_schedule at) orgID nodeID searchChangeDeletion db) (\<lambda>(deletion, db).
        Inr (Some deletion, db))
      else Inr (None, db))"

definition clear_records :: "node \<Rightarrow> db \<Rightarrow> db" where
  "clear_records current db =
     (let k = (node_org current, node_kind current, node_id current) in
      db\<lparr>db_nodes := fmdrop k (db_nodes db), db_views := fmdrop k (db_views db),
        db_resolves := fmdrop (node_id current) (db_resolves db)\<rparr>)"

definition clear_property_entries :: "node \<Rightarrow> db \<Rightarrow> db" where
  "clear_property_entries current db =
     db\<lparr>db_props := fold (\<lambda>(name, value) index. index |-| {|property_entry current name value|})
       (sorted_list_of_fmap (node_props current)) (db_props db)\<rparr>"

definition clearNode :: "env \<Rightarrow> store_config \<Rightarrow> instants \<Rightarrow> mutation_audit \<Rightarrow> node \<Rightarrow> txn \<Rightarrow> txn result" where
  "clearNode env cfg at m current = (\<lambda>(db, changes).
     let orgID = node_org current; nodeID = node_id current;
         encoded = (case fmlookup (db_nodes db) (orgID, node_kind current, nodeID) of None \<Rightarrow> [] | Some e \<Rightarrow> enc_text e) in
     bindE (record_change env m (nodeTarget current) encoded [] changes) (\<lambda>changes.
     bindE (schedule_deletion env cfg at orgID nodeID db) (\<lambda>(deletion, db).
     bindE (clearSourceRelationships env m orgID nodeID (clear_records current db, changes)) (\<lambda>(targets, t).
     bindE (clearTargetRelationships env m orgID nodeID t) (\<lambda>(sources, db, changes).
     bindE (case deletion of None \<Rightarrow> Inr db | Some d \<Rightarrow> schedule_fanout env d (targets @ sources) db) (\<lambda>db.
     Inr (clearReferenceKeys orgID nodeID (clear_property_entries current db), changes)))))))"

section \<open>The planned deletion\<close>

definition refuse_child :: "db \<Rightarrow> uuid \<Rightarrow> uuid \<Rightarrow> hierarchy_node \<Rightarrow> unit \<Rightarrow> unit result" where
  "refuse_child db orgID nodeID source = (\<lambda>_.
     if \<not> hn_found source then Inr ()
     else bindE (hasHierarchyParent db orgID source nodeID) (\<lambda>isChild.
       if isChild then Inl ErrFailedPrecondition else Inr ()))"

definition refuseHierarchyChild :: "db \<Rightarrow> deletion_plan \<Rightarrow> relationship_snapshot list \<Rightarrow> unit result" where
  "refuseHierarchyChild db plan incoming =
     bindE (readHierarchyNodes db (dp_org plan)
       (map (\<lambda>edge. rel_source (snap_relationship edge))
         (filter (\<lambda>edge. rel_type (snap_relationship edge) = RelChildOf) incoming))) (\<lambda>sources.
     foldE (refuse_child db (dp_org plan) (dp_node plan)) sources ())"

text \<open>One read of the index: does an entry of the value exist for the definition and the type?\<close>

definition has_entry :: "db \<Rightarrow> uuid \<Rightarrow> string \<Rightarrow> string \<Rightarrow> bytes \<Rightarrow> bool" where
  "has_entry db orgID typeKey name value \<longleftrightarrow>
     ffilter (\<lambda>(o', k, n, v, _). o' = orgID \<and> k = typeKey \<and> n = name \<and> v = value) (db_props db) \<noteq> {||}"

definition refuseReferencedNode :: "lib \<Rightarrow> db \<Rightarrow> uuid \<Rightarrow> mutation_source \<Rightarrow> unit result" where
  "refuseReferencedNode lib db orgID source =
     bindE (readSchemaRecords (db_defs db) orgID) (\<lambda>definitions.
     bindE (readSchemaRecords (db_types db) orgID) (\<lambda>kinds.
     let value = encodePropertyValue (quoted (lib_uuid_string lib (node_id (ms_node source)))) in
     if \<exists>definition \<in> set definitions. def_type definition = PropertyTypeUUID \<and> indexed definition \<and>
          reference_target_type_key definition = ms_kind source \<and>
          (\<exists>kind \<in> set kinds. PropertyAppliesTo definition kind \<and>
            has_entry db orgID (type_key kind) (def_name definition) value)
     then Inl ErrFailedPrecondition
     else Inr ()))"

definition outgoingMatches :: "relationship_expectation list \<Rightarrow> relationship_snapshot list \<Rightarrow> bool" where
  "outgoingMatches expected stored \<longleftrightarrow>
     length expected = length stored \<and> (\<forall>edge \<in> set stored. expectsRelationship expected edge)"

definition incomingMatches :: "incoming_expectation list \<Rightarrow> relationship_snapshot list \<Rightarrow> bool" where
  "incomingMatches expected stored \<longleftrightarrow>
     length expected = length stored \<and>
     (\<forall>edge \<in> set stored. \<exists>candidate \<in> set expected.
        inc_source candidate = rel_source (snap_relationship edge) \<and>
        inc_type candidate = rel_type (snap_relationship edge) \<and> inc_digest candidate = snap_digest edge)"

definition deleteNodeAttempt ::
  "env \<Rightarrow> store_config \<Rightarrow> instants \<Rightarrow> mutation_audit \<Rightarrow> deletion_plan \<Rightarrow> db \<Rightarrow> (mutation_receipt \<times> txn) result" where
  "deleteNodeAttempt env cfg at m plan db =
     (if src_absent (dp_source plan) then Inl ErrInvalidArgument
      else
        bindE (readMutationSource db (dp_org plan) (dp_node plan)) (\<lambda>source.
        bindE (checkSource (env_lib env) (dp_source plan) source) (\<lambda>_.
        bindE (checkGraphRecords (env_lib env) db (dp_org plan) (graph_records (dp_graph plan))) (\<lambda>_.
        bindE (readOutgoingSnapshots (env_lib env) db (dp_org plan) (dp_node plan) []) (\<lambda>outgoing.
        bindE (readIncomingSnapshots (env_lib env) db (dp_org plan) (dp_node plan)) (\<lambda>(incoming, overflow).
        bindE (guardE (\<not> (overflow \<or> MutationEdgeLimit < length outgoing)) ErrFailedPrecondition) (\<lambda>_.
        bindE (refuseHierarchyChild db plan incoming) (\<lambda>_.
        bindE (refuseReferencedNode (env_lib env) db (dp_org plan) source) (\<lambda>_.
        bindE (guardE (outgoingMatches (graph_relationships (dp_graph plan)) outgoing \<and>
          incomingMatches (graph_incoming (dp_graph plan)) incoming) ErrConflict) (\<lambda>_.
        bindE (callFence cfg (dp_org plan) (dp_node plan) db) (\<lambda>(_, db).
        bindE (advanceMutationCheckpoint env (dp_checkpoint plan) None db) (\<lambda>db.
        bindE (clearNode env cfg at m (ms_node source) (db, [])) (\<lambda>t.
        Inr (\<lparr>mr_org = dp_org plan, mr_node = dp_node plan,
          mr_source_digest = PrimaryDigest (env_lib env) (ms_encoding source), mr_result_digest = 0\<rparr>, t))))))))))))))"

definition DeleteNode ::
  "env \<Rightarrow> store_config \<Rightarrow> instants \<Rightarrow> audit_event option \<Rightarrow> uuid \<Rightarrow> deletion_plan \<Rightarrow> db \<Rightarrow>
    (mutation_receipt \<times> db) result" where
  "DeleteNode env cfg at operation base plan db =
     bindE (beginMutationAudit operation base (dp_org plan)) (\<lambda>m.
     bindE (deleteNodeAttempt env cfg at m plan db) (\<lambda>(receipt, t).
     bindE (append_changes env m (at_append at) t) (\<lambda>db. Inr (receipt, db))))"

section \<open>The older deletion\<close>

definition Get :: "db \<Rightarrow> uuid \<Rightarrow> uuid \<Rightarrow> node option result" where
  "Get db orgID nodeID =
     (case kv_get (db_resolves db) nodeID of
        None \<Rightarrow> Inr None
      | Some e \<Rightarrow>
          (case enc_value e of
             None \<Rightarrow> Inl ErrDecode
           | Some resolve \<Rightarrow>
               if resolve_org resolve \<noteq> orgID then Inr None
               else (case kv_get (db_nodes db) (orgID, resolve_kind resolve, nodeID) of
                  None \<Rightarrow> Inr None
                | Some stored \<Rightarrow> (case enc_value stored of None \<Rightarrow> Inl ErrDecode | Some n \<Rightarrow> Inr (Some n)))))"

text \<open>
  \<open>Delete\<close> reads the node in a transaction of its own before the one that clears it: \<open>seen\<close> is the state
  of the first and \<open>db\<close> that of the second. \<open>None\<close> is a node that was not found.
\<close>

definition Delete ::
  "env \<Rightarrow> store_config \<Rightarrow> instants \<Rightarrow> audit_event option \<Rightarrow> uuid \<Rightarrow> uuid \<Rightarrow> uuid \<Rightarrow> db \<Rightarrow> db \<Rightarrow> db result" where
  "Delete env cfg at operation base orgID nodeID seen db =
     bindE (beginMutationAudit operation base orgID) (\<lambda>m.
     bindE (Get seen orgID nodeID) (\<lambda>current.
     case current of
       None \<Rightarrow> Inr db
     | Some n \<Rightarrow>
         bindE (callFence cfg orgID nodeID db) (\<lambda>(_, db).
         bindE (clearNode env cfg at m n (db, [])) (append_changes env m (at_append at)))))"

section \<open>What clearing leaves\<close>

lemma rels_okI:
  assumes "\<And>k e. fmlookup (db_rels db) k = Some e \<Longrightarrow> rel_fits k e"
    and "\<And>k. k |\<in>| db_rels_rev db \<longleftrightarrow> fmlookup (db_rels db) (reverse_key k) \<noteq> None"
  shows "rels_ok db"
proof -
  have "rel_index db = {a. \<exists>k v. rel_lookup db k = Some v \<and> a = rel_entry k v}"
  proof (rule set_eqI)
    fix a
    have "a \<in> rel_index db \<longleftrightarrow> fmlookup (db_rels db) (reverse_key a) \<noteq> None"
      using assms(2) [of a] by (simp add: rel_index_def)
    also have "\<dots> \<longleftrightarrow> (\<exists>k v. rel_lookup db k = Some v \<and> a = rel_entry k v)"
      unfolding rel_lookup_def rel_entry_def by (metis option.distinct(1) option.exhaust reverse_key_reverse)
    finally show "a \<in> rel_index db \<longleftrightarrow> a \<in> {a. \<exists>k v. rel_lookup db k = Some v \<and> a = rel_entry k v}"
      by (simp only: mem_Collect_eq)
  qed
  moreover have "\<forall>k v. rel_lookup db k = Some v \<longrightarrow> rel_fits k v"
    using assms(1) by (simp only: rel_lookup_def) blast
  ultimately show ?thesis unfolding rels_ok_def index_consistent_def by blast
qed

text \<open>Edges of an organisation that touch a node.\<close>

fun edge_from :: "uuid \<Rightarrow> uuid \<Rightarrow> uuid \<times> uuid \<times> string \<times> uuid \<Rightarrow> bool" where
  "edge_from orgID nodeID (o', s, t, d) \<longleftrightarrow> o' = orgID \<and> s = nodeID"

fun edge_to :: "uuid \<Rightarrow> uuid \<Rightarrow> uuid \<times> uuid \<times> string \<times> uuid \<Rightarrow> bool" where
  "edge_to orgID nodeID (o', s, t, d) \<longleftrightarrow> o' = orgID \<and> d = nodeID"

lemma edge_reverse [simp]:
  "edge_from orgID nodeID (reverse_key k) = edge_to orgID nodeID k"
  "edge_to orgID nodeID (reverse_key k) = edge_from orgID nodeID k"
  by (cases k; simp)+

lemma edge_from_lambda: "(\<lambda>(o', s, t, d). o' = orgID \<and> s = nodeID) = edge_from orgID nodeID"
  by (rule ext) (auto split: prod.splits)

lemma clear_source_loop:
  "foldE (clear_source_edge env m) items t = Inr t' \<Longrightarrow>
    only_rels (fst t) (fst t') \<and> db_rels (fst t') = db_rels (fst t) \<and>
    (\<forall>k. k |\<in>| db_rels_rev (fst t') \<longleftrightarrow> k |\<in>| db_rels_rev (fst t) \<and> reverse_key k \<notin> fst ` set items)"
proof (induction items arbitrary: t)
  case (Cons x items)
  obtain o' n r d stored where x: "x = ((o', n, r, d), stored)" by (cases x) auto
  obtain u where u: "clear_source_edge env m x t = Inr u" "foldE (clear_source_edge env m) items u = Inr t'"
    using Cons.prems by (auto simp: err_simps)
  have fst_u: "fst u = (fst t)\<lparr>db_rels_rev := db_rels_rev (fst t) |-| {|(o', d, r, n)|}\<rparr>"
    using u(1) unfolding x clear_source_edge_def by (cases t) (auto simp: err_simps)
  have frame: "only_rels (fst t) (fst u)" "db_rels (fst u) = db_rels (fst t)"
    by (simp_all add: fst_u only_rels_def)
  have key: "reverse_key k = (o', n, r, d) \<longleftrightarrow> k = (o', d, r, n)" for k by (cases k) auto
  have step: "k |\<in>| db_rels_rev (fst u) \<longleftrightarrow> k |\<in>| db_rels_rev (fst t) \<and> reverse_key k \<noteq> fst x" for k
    by (auto simp: fst_u x key)
  show ?case
    using Cons.IH [OF u(2)] frame step only_rels_trans [of "fst t" "fst u" "fst t'"] by auto
qed simp

lemma clearSourceRelationships_Inr:
  assumes "clearSourceRelationships env m orgID nodeID (db, cs) = Inr (targets, db', cs')" "rels_ok db"
  shows "only_rels db db' \<and> rels_ok db' \<and>
    (\<forall>k. fmlookup (db_rels db') k = (if edge_from orgID nodeID k then None else fmlookup (db_rels db) k))"
proof -
  let ?items = "outgoing_range db orgID nodeID []"
  obtain dbL where run: "foldE (clear_source_edge env m) ?items (db, cs) = Inr (dbL, cs')"
    and db': "db' = dbL\<lparr>db_rels := kv_clear_range (edge_from orgID nodeID) (db_rels dbL)\<rparr>"
    using assms(1) unfolding clearSourceRelationships_def Let_def edge_from_lambda by (auto simp: err_simps)
  note loop = clear_source_loop [OF run, simplified]
  have items: "k \<in> fst ` set ?items \<longleftrightarrow> edge_from orgID nodeID k \<and> fmlookup (db_rels db) k \<noteq> None" for k
  proof -
    obtain o' s t d where k: "k = (o', s, t, d)" by (cases k) auto
    have "k \<in> fst ` set ?items \<longleftrightarrow> (\<exists>e. (k, e) \<in> set ?items)" by force
    also have "\<dots> \<longleftrightarrow> (\<exists>e. fmlookup (db_rels db) k = Some e \<and> edge_from orgID nodeID k)"
      unfolding k outgoing_range_iff by simp
    finally show ?thesis by auto
  qed
  have look: "fmlookup (db_rels db') k = (if edge_from orgID nodeID k then None else fmlookup (db_rels db) k)" for k
    using loop by (simp add: db')
  have rev: "k |\<in>| db_rels_rev db' \<longleftrightarrow> fmlookup (db_rels db') (reverse_key k) \<noteq> None" for k
    using loop rels_ok_reverse [OF assms(2), of k] by (auto simp: db' items)
  have "rels_ok db'"
    by (rule rels_okI) (use look rev rels_ok_lookup [OF assms(2)] in \<open>auto simp: rel_fits_def split: if_splits\<close>)
  moreover have "only_rels dbL db'" by (simp add: db' only_rels_def)
  ultimately show ?thesis using look loop only_rels_trans by blast
qed

lemma remove_loop_lookup:
  "foldE (remove_relationship env m) xs t = Inr t' \<Longrightarrow>
    fmlookup (db_rels (fst t')) k = (if k \<in> (rel_key \<circ> fst) ` set xs then None else fmlookup (db_rels (fst t)) k)"
proof (induction xs arbitrary: t)
  case (Cons x xs)
  then obtain u where u: "remove_relationship env m x t = Inr u" "foldE (remove_relationship env m) xs u = Inr t'"
    by (auto simp: err_simps)
  have "fst u = clear_relationship (rel_key (fst x)) (fst t)"
    using u(1) remove_relationship_Inr [of env m x "fst t" "snd t" "fst u" "snd u"] by simp
  then show ?case using Cons.IH [OF u(2)] by (simp add: clear_relationship_def)
qed simp

lemma removeRelationships_lookup:
  assumes "removeRelationships env m removed (db, cs) = Inr (db', cs')"
  shows "fmlookup (db_rels db') k = (if k \<in> rel_key ` set removed then None else fmlookup (db_rels db) k)"
proof -
  let ?xs = "zip removed (readRelationshipValues db removed)"
  have "(rel_key \<circ> fst) ` set ?xs = rel_key ` set removed"
    by (rule image_fst_zip) (simp add: readRelationshipValues_def)
  then show ?thesis
    using remove_loop_lookup [OF assms [unfolded removeRelationships_def fst_conv], of k] by simp
qed

lemma removeRelationships_ok:
  assumes "removeRelationships env m removed (db, cs) = Inr (db', cs')" "rels_ok db"
  shows "rels_ok db' \<and> only_rels db db'"
proof -
  have "rels_ok (fst (db', cs')) \<and> only_rels db (fst (db', cs'))"
    by (rule removeRelationships_invariant [OF assms(1), where P = "\<lambda>x. rels_ok x \<and> only_rels db x"])
      (use assms(2) in \<open>auto intro: rels_ok_clear only_rels_trans\<close>)
  then show ?thesis by simp
qed

lemma clearTargetRelationships_Inr:
  assumes "clearTargetRelationships env m orgID nodeID (db, cs) = Inr (sources, db', cs')" "rels_ok db"
  shows "only_rels db db' \<and> rels_ok db' \<and>
    (\<forall>k. fmlookup (db_rels db') k = (if edge_to orgID nodeID k then None else fmlookup (db_rels db) k))"
proof -
  let ?in = "map (\<lambda>(_, _, relationType, sourceID). removed_edge orgID sourceID relationType nodeID)
    (incoming_range db orgID nodeID [])"
  obtain dbL where run: "removeRelationships env m ?in (db, cs) = Inr (dbL, cs')"
    and db': "db' = dbL\<lparr>db_rels_rev := ffilter (\<lambda>(o', d, _, _). \<not> (o' = orgID \<and> d = nodeID)) (db_rels_rev dbL)\<rparr>"
    using assms(1) unfolding clearTargetRelationships_def Let_def by (auto simp: err_simps)
  have keys: "k \<in> rel_key ` set ?in \<longleftrightarrow> edge_to orgID nodeID k \<and> fmlookup (db_rels db) k \<noteq> None" for k
  proof -
    obtain o' s t d where k: "k = (o', s, t, d)" by (cases k) auto
    have "k \<in> rel_key ` set ?in \<longleftrightarrow> o' = orgID \<and> d = nodeID \<and> (orgID, nodeID, t, s) \<in> set (incoming_range db orgID nodeID [])"
    proof
      assume "k \<in> rel_key ` set ?in"
      then obtain a b r x where "(a, b, r, x) \<in> set (incoming_range db orgID nodeID [])" "k = (orgID, x, r, nodeID)"
        by (auto simp: rel_key_def removed_edge_def)
      then show "o' = orgID \<and> d = nodeID \<and> (orgID, nodeID, t, s) \<in> set (incoming_range db orgID nodeID [])"
        using k by (auto simp: incoming_range_iff)
    next
      assume "o' = orgID \<and> d = nodeID \<and> (orgID, nodeID, t, s) \<in> set (incoming_range db orgID nodeID [])"
      then show "k \<in> rel_key ` set ?in"
        unfolding k by (force simp: rel_key_def removed_edge_def image_iff)
    qed
    then show ?thesis
      using rels_ok_reverse [OF assms(2), of "(orgID, nodeID, t, s)"] by (auto simp: k incoming_range_iff)
  qed
  note inv = removeRelationships_ok [OF run assms(2)]
  have look: "fmlookup (db_rels db') k = (if edge_to orgID nodeID k then None else fmlookup (db_rels db) k)" for k
    using removeRelationships_lookup [OF run, of k] keys [of k] by (auto simp: db')
  have rev: "k |\<in>| db_rels_rev db' \<longleftrightarrow> fmlookup (db_rels db') (reverse_key k) \<noteq> None" for k
  proof -
    have "k |\<in>| db_rels_rev db' \<longleftrightarrow> k |\<in>| db_rels_rev dbL \<and> \<not> edge_from orgID nodeID k"
      by (cases k) (auto simp: db')
    then show ?thesis
      using rels_ok_reverse [of dbL k] inv look [of "reverse_key k"] by (auto simp: db')
  qed
  have "rels_ok db'"
    by (rule rels_okI) (use look rev rels_ok_lookup [OF assms(2)] in \<open>auto simp: rel_fits_def split: if_splits\<close>)
  moreover have "only_rels dbL db'" by (simp add: db' only_rels_def)
  ultimately show ?thesis using look inv only_rels_trans by blast
qed

lemma schedule_deletion_Inr:
  assumes "schedule_deletion env cfg at orgID nodeID db = Inr (deletion, db')"
  obtains s where "db' = db\<lparr>db_search := s\<rparr>"
    "deletion = None \<Longrightarrow> s = db_search db"
    "\<And>d. deletion = Some d \<Longrightarrow>
      scheduleSearchChange (env_lib env) (at_schedule at) orgID nodeID searchChangeDeletion (db_search db) = Inr (d, s)"
proof (cases "cfg_search_work cfg")
  case True
  then obtain d where d: "schedule_change env (at_schedule at) orgID nodeID searchChangeDeletion db = Inr (d, db')" "deletion = Some d"
    using assms by (auto simp: schedule_deletion_def err_simps)
  show thesis using schedule_change_Inr [OF d(1)] that d(2) by (metis option.distinct(1) option.inject)
next
  case False
  then have "db' = db\<lparr>db_search := db_search db\<rparr>" "deletion = None"
    using assms by (simp_all add: schedule_deletion_def)
  then show thesis using that by simp
qed

lemma clearReferenceKeys_simps [simp]:
  "clearReferenceKeys orgID nodeID (db\<lparr>db_props := p\<rparr>) = (clearReferenceKeys orgID nodeID db)\<lparr>db_props := p\<rparr>"
  by (simp add: clearReferenceKeys_def Let_def)

definition cleared_frame :: "node \<Rightarrow> db \<Rightarrow> db \<Rightarrow> bool" where
  "cleared_frame n db db' \<longleftrightarrow>
     db_nodes db' = fmdrop (node_key n) (db_nodes db) \<and> db_views db' = fmdrop (node_key n) (db_views db) \<and>
     db_resolves db' = fmdrop (node_id n) (db_resolves db) \<and>
     db_ref_keys db' = db_ref_keys (clearReferenceKeys (node_org n) (node_id n) db) \<and>
     db_ref_owned db' = db_ref_owned (clearReferenceKeys (node_org n) (node_id n) db) \<and>
     db_props db' = db_props (clear_property_entries n db) \<and>
     db_idempotency db' = db_idempotency db \<and> db_checkpoints db' = db_checkpoints db \<and> db_fence db' = db_fence db \<and>
     db_activation db' = db_activation db \<and> db_types db' = db_types db \<and> db_types_by_key db' = db_types_by_key db \<and>
     db_defs db' = db_defs db \<and> db_epochs db' = db_epochs db \<and> db_outbox db' = db_outbox db"

lemma clearNode_Inr:
  assumes "clearNode env cfg at m n (db, cs) = Inr (db', cs')" "rels_ok db"
  shows "cleared_frame n db db' \<and> rels_ok db' \<and>
    (\<forall>k. fmlookup (db_rels db') k =
      (if edge_from (node_org n) (node_id n) k \<or> edge_to (node_org n) (node_id n) k then None
       else fmlookup (db_rels db) k)) \<and>
    (search_ok (env_lib env) (db_search db) \<longrightarrow> search_ok (env_lib env) (db_search db'))"
proof -
  let ?o = "node_org n" and ?n = "node_id n"
  note run = assms(1) [unfolded clearNode_def prod.case Let_def]
  obtain cs1 where 1: "record_change env m (nodeTarget n)
      (case fmlookup (db_nodes db) (?o, node_kind n, ?n) of None \<Rightarrow> [] | Some e \<Rightarrow> enc_text e) [] cs = Inr cs1"
    by (rule bindE_InrE [OF run]) (rule that)
  note run = run [unfolded 1 bindE_Inr]
  obtain deletion db1 where 2: "schedule_deletion env cfg at ?o ?n db = Inr (deletion, db1)"
    by (rule bindE_InrE2 [OF run]) (rule that)
  note run = run [unfolded 2 bindE_Inr prod.case]
  obtain targets db2 cs2 where 3: "clearSourceRelationships env m ?o ?n (clear_records n db1, cs1) = Inr (targets, db2, cs2)"
    by (rule bindE_InrE3 [OF run]) (rule that)
  note run = run [unfolded 3 bindE_Inr prod.case]
  obtain sources db3 cs3 where 4: "clearTargetRelationships env m ?o ?n (db2, cs2) = Inr (sources, db3, cs3)"
    by (rule bindE_InrE3 [OF run]) (rule that)
  note run = run [unfolded 4 bindE_Inr prod.case]
  obtain db4 where 5: "(case deletion of None \<Rightarrow> Inr db3 | Some d \<Rightarrow> schedule_fanout env d (targets @ sources) db3) = Inr db4"
    by (rule bindE_InrE [OF run]) (rule that)
  have db': "db' = clearReferenceKeys ?o ?n (clear_property_entries n db4)"
    using run [unfolded 5 bindE_Inr] by simp
  obtain s where s: "db1 = db\<lparr>db_search := s\<rparr>" "deletion = None \<Longrightarrow> s = db_search db"
    "\<And>d. deletion = Some d \<Longrightarrow>
      scheduleSearchChange (env_lib env) (at_schedule at) ?o ?n searchChangeDeletion (db_search db) = Inr (d, s)"
    by (rule schedule_deletion_Inr [OF 2]) (rule that)
  have "rels_ok (clear_records n db1)"
    using assms(2) rels_ok_cong [of "clear_records n db1" db] by (simp add: s(1) clear_records_def Let_def)
  note source = clearSourceRelationships_Inr [OF 3 this]
  have "rels_ok db2" using source by blast
  note target = clearTargetRelationships_Inr [OF 4 this]
  obtain f where f: "db4 = db3\<lparr>db_search := f\<rparr>" "deletion = None \<Longrightarrow> f = db_search db3"
    "\<And>d. deletion = Some d \<Longrightarrow> scheduleDeletedFanout (env_lib env) d (targets @ sources) (db_search db3) = Inr f"
  proof (cases deletion)
    case None
    then have "db4 = db3\<lparr>db_search := db_search db3\<rparr>" using 5 by simp
    then show thesis using that None by simp
  next
    case (Some d)
    then show thesis using 5 that by (auto simp: schedule_fanout_def err_simps)
  qed
  note k2 = only_relsD [OF conjunct1 [OF source]] and k3 = only_relsD [OF conjunct1 [OF target]]
  have keep3: "db_search db3 = s" by (simp add: k2 k3 s(1) clear_records_def Let_def)
  have search: "search_ok (env_lib env) f" if "search_ok (env_lib env) (db_search db)"
  proof (cases deletion)
    case None
    then show ?thesis using that f(2) s(2) keep3 by simp
  next
    case (Some d)
    then show ?thesis using deletion_fanout_ok [OF that s(3) f(3) [unfolded keep3]] by simp
  qed
  have "cleared_frame n db db'"
    unfolding cleared_frame_def
    by (simp add: db' f(1) k2 k3 s(1) clear_records_def clear_property_entries_def clearReferenceKeys_def Let_def node_key_def)
  moreover have "rels_ok db'"
    using target rels_ok_cong [of db' db3]
    by (simp add: db' f(1) clear_property_entries_def clearReferenceKeys_def Let_def)
  moreover have "db_rels db' = db_rels db3" "db_search db' = f"
    by (simp_all add: db' f(1) clear_property_entries_def clearReferenceKeys_def Let_def)
  ultimately show ?thesis
    using source target search by (simp add: s(1) clear_records_def Let_def)
qed

lemma cleared_source:
  assumes "cleared_frame n db db'"
  shows "readMutationSource db' orgID nodeID =
    (if nodeID = node_id n then Inr absent_source else readMutationSource db orgID nodeID)"
  using assms
  by (simp add: cleared_frame_def readMutationSource_def node_key_def kv_get_fmdrop cong: option.case_cong if_cong)

lemma cleared_lookup:
  assumes "refs_ok lib db" "uuid_law lib" "cleared_frame n db db'"
  shows "LookupReference lib db' (node_org n) t e =
    (if LookupReference lib db (node_org n) t e = Inr (node_id n) then Inr uuid_nil else LookupReference lib db (node_org n) t e)"
proof -
  let ?o = "node_org n" and ?n = "node_id n"
  have keys: "fmlookup (db_ref_keys db') (?o, t, e) =
    (if fmlookup (db_ref_owned db) (?o, ?n, t) = Some e then None else fmlookup (db_ref_keys db) (?o, t, e))"
    using assms(3) by (simp add: cleared_frame_def clearReferenceKeys_keys)
  show ?thesis
  proof (cases "?n = uuid_nil")
    case False
    then show ?thesis
      using LookupReference_iff [OF assms(1,2) False, of ?o t e] keys by (auto simp: LookupReference_def)
  next
    case True
    have "LookupReference lib db ?o t e = Inr uuid_nil" if "fmlookup (db_ref_owned db) (?o, ?n, t) = Some e"
      using refs_ok_owned [OF assms(1) that] uuid_lawD [OF assms(2)] by (simp add: LookupReference_def True)
    then show ?thesis using keys True by (auto simp: LookupReference_def)
  qed
qed

lemma clearNode_store_ok:
  assumes "clearNode env cfg at m n (db, cs) = Inr (db', cs')" "store_ok (env_lib env) db" "uuid_law (env_lib env)"
  shows "store_ok (env_lib env) db'"
proof -
  note ok = store_okD [OF assms(2)]
  note c = clearNode_Inr [OF assms(1) ok(2)]
  have "nodes_ok db'"
    by (rule nodes_okI) (use c nodes_ok_node [OF ok(1)] nodes_ok_resolve [OF ok(1)] in \<open>auto simp: cleared_frame_def split: if_splits\<close>)
  moreover have "refs_ok (env_lib env) db'"
    using clearReferenceKeys_ok [OF ok(3) assms(3), of "node_org n" "node_id n"] c
      refs_ok_cong [of db' "clearReferenceKeys (node_org n) (node_id n) db" "env_lib env"]
    by (simp add: cleared_frame_def)
  ultimately show ?thesis using c ok(4) by (simp add: store_ok_def)
qed

lemma deleteNodeAttempt_Inr:
  assumes "deleteNodeAttempt env cfg at m plan db = Inr (receipt, db', changes)"
  obtains source outgoing incoming c where
    "readMutationSource db (dp_org plan) (dp_node plan) = Inr source" "ms_exists source"
    "PrimaryDigest (env_lib env) (ms_encoding source) = src_digest (dp_source plan)"
    "readIncomingSnapshots (env_lib env) db (dp_org plan) (dp_node plan) = Inr (incoming, False)"
    "refuseHierarchyChild db plan incoming = Inr ()"
    "refuseReferencedNode (env_lib env) db (dp_org plan) source = Inr ()"
    "clearNode env cfg at m (ms_node source) ((fenced cfg (dp_org plan) (dp_node plan) db)\<lparr>db_checkpoints := c\<rparr>, []) = Inr (db', changes)"
    "receipt = \<lparr>mr_org = dp_org plan, mr_node = dp_node plan,
      mr_source_digest = PrimaryDigest (env_lib env) (ms_encoding source), mr_result_digest = 0\<rparr>"
proof -
  have present: "\<not> src_absent (dp_source plan)" using assms by (auto simp: deleteNodeAttempt_def)
  note run = assms [unfolded deleteNodeAttempt_def if_not_P [OF present]]
  obtain source where 1: "readMutationSource db (dp_org plan) (dp_node plan) = Inr source"
    by (rule bindE_InrE [OF run]) (rule that)
  note run = run [unfolded 1 bindE_Inr]
  have 2: "checkSource (env_lib env) (dp_source plan) source = Inr ()"
    by (rule bindE_InrE [OF run]) simp
  note run = run [unfolded 2 bindE_Inr]
  obtain records where 3: "checkGraphRecords (env_lib env) db (dp_org plan) (graph_records (dp_graph plan)) = Inr records"
    by (rule bindE_InrE [OF run]) (rule that)
  note run = run [unfolded 3 bindE_Inr]
  obtain outgoing where 4: "readOutgoingSnapshots (env_lib env) db (dp_org plan) (dp_node plan) [] = Inr outgoing"
    by (rule bindE_InrE [OF run]) (rule that)
  note run = run [unfolded 4 bindE_Inr]
  obtain incoming overflow where 5: "readIncomingSnapshots (env_lib env) db (dp_org plan) (dp_node plan) = Inr (incoming, overflow)"
    by (rule bindE_InrE2 [OF run]) (rule that)
  note run = run [unfolded 5 bindE_Inr prod.case]
  have 6: "guardE (\<not> (overflow \<or> MutationEdgeLimit < length outgoing)) ErrFailedPrecondition = Inr ()"
    by (rule bindE_InrE [OF run]) simp
  note run = run [unfolded 6 bindE_Inr]
  have 7: "refuseHierarchyChild db plan incoming = Inr ()"
    by (rule bindE_InrE [OF run]) simp
  note run = run [unfolded 7 bindE_Inr]
  have 8: "refuseReferencedNode (env_lib env) db (dp_org plan) source = Inr ()"
    by (rule bindE_InrE [OF run]) simp
  note run = run [unfolded 8 bindE_Inr]
  have 9: "guardE (outgoingMatches (graph_relationships (dp_graph plan)) outgoing \<and>
      incomingMatches (graph_incoming (dp_graph plan)) incoming) ErrConflict = Inr ()"
    by (rule bindE_InrE [OF run]) simp
  note run = run [unfolded 9 bindE_Inr]
  obtain strict dbF where 10: "callFence cfg (dp_org plan) (dp_node plan) db = Inr (strict, dbF)"
    by (rule bindE_InrE2 [OF run]) (rule that)
  have fence: "dbF = fenced cfg (dp_org plan) (dp_node plan) db" using callFence_Inr [OF 10] by blast
  note run = run [unfolded 10 bindE_Inr prod.case]
  obtain dbC where 11: "advanceMutationCheckpoint env (dp_checkpoint plan) None dbF = Inr dbC"
    by (rule bindE_InrE [OF run]) (rule that)
  note run = run [unfolded 11 bindE_Inr]
  obtain c where c: "dbC = dbF\<lparr>db_checkpoints := c\<rparr>" by (rule advanceMutationCheckpoint_Inr [OF 11]) (rule that)
  obtain dbL csL where 12: "clearNode env cfg at m (ms_node source) (dbC, []) = Inr (dbL, csL)"
    by (rule bindE_InrE2 [OF run]) (rule that)
  note run = run [unfolded 12 bindE_Inr]
  have eq: "dbL = db'" "csL = changes" and receipt: "receipt = \<lparr>mr_org = dp_org plan, mr_node = dp_node plan,
      mr_source_digest = PrimaryDigest (env_lib env) (ms_encoding source), mr_result_digest = 0\<rparr>"
    using run by simp_all
  have src: "ms_exists source" "PrimaryDigest (env_lib env) (ms_encoding source) = src_digest (dp_source plan)"
    using 2 present by (auto simp: checkSource_def split: if_splits)
  have in5: "readIncomingSnapshots (env_lib env) db (dp_org plan) (dp_node plan) = Inr (incoming, False)"
    using 5 6 by (auto simp: err_simps)
  show thesis
    by (rule that [OF 1 src in5 7 8 12 [unfolded c fence eq] receipt])
qed

section \<open>Hierarchy children\<close>

lemma hierarchy_parent_loop_subset:
  "hierarchy_parent_loop q ts = Inr p \<Longrightarrow> set ts \<subseteq> {uuid_nil, p} \<and> (\<forall>t \<in> set ts. t \<noteq> uuid_nil \<longrightarrow> t = p)"
proof (induction ts arbitrary: q)
  case (Cons t ts)
  then show ?case by (cases "t = uuid_nil") (auto simp: hierarchy_parent_loop_nonnil split: if_splits)
qed simp

lemma child_of_targets:
  "set (map de_target (readDeleteEdges db orgID nodeID RelChildOf False)) \<subseteq> {x. has_edge db (orgID, nodeID, RelChildOf, x)}"
  "distinct (map de_target (readDeleteEdges db orgID nodeID RelChildOf False))"
  "length (readDeleteEdges db orgID nodeID RelChildOf False) \<le> maxDeleteEdgePage \<Longrightarrow>
    set (map de_target (readDeleteEdges db orgID nodeID RelChildOf False)) = {x. has_edge db (orgID, nodeID, RelChildOf, x)}"
proof -
  let ?r = "outgoing_range db orgID nodeID RelChildOf"
  let ?d = "\<lambda>((_, _, _, d), _). d"
  have map_eq: "map de_target (readDeleteEdges db orgID nodeID RelChildOf False) = take (maxDeleteEdgePage + 1) (map ?d ?r)"
    by (simp add: readDeleteEdges_def take_map case_prod_beta comp_def)
  have mem: "x \<in> set (map ?d ?r) \<longleftrightarrow> has_edge db (orgID, nodeID, RelChildOf, x)" for x
  proof -
    have "x \<in> set (map ?d ?r) \<longleftrightarrow> (\<exists>a b c e. ((a, b, c, x), e) \<in> set ?r)" by (force simp: image_iff)
    also have "\<dots> \<longleftrightarrow> has_edge db (orgID, nodeID, RelChildOf, x)" by (auto simp: outgoing_range_iff has_edge_def)
    finally show ?thesis .
  qed
  have "inj_on (\<lambda>(a, b, c, d). d) (set (map fst ?r))"
    by (auto intro!: inj_onI simp: outgoing_range_iff)
  moreover have "distinct (map fst ?r)" unfolding outgoing_range_def by (rule distinct_kv_range_keys)
  ultimately have dist: "distinct (map (\<lambda>(a, b, c, d). d) (map fst ?r))"
    by (subst distinct_map) blast
  moreover have "map ?d ?r = map (\<lambda>(a, b, c, d). d) (map fst ?r)" by auto
  ultimately have "distinct (map ?d ?r)" by (simp only:)
  then show "distinct (map de_target (readDeleteEdges db orgID nodeID RelChildOf False))" by (simp add: map_eq)
  show "set (map de_target (readDeleteEdges db orgID nodeID RelChildOf False)) \<subseteq> {x. has_edge db (orgID, nodeID, RelChildOf, x)}"
    unfolding map_eq using mem set_take_subset by fastforce
  show "set (map de_target (readDeleteEdges db orgID nodeID RelChildOf False)) = {x. has_edge db (orgID, nodeID, RelChildOf, x)}"
    if "length (readDeleteEdges db orgID nodeID RelChildOf False) \<le> maxDeleteEdgePage"
  proof -
    have "length ?r \<le> maxDeleteEdgePage" using that by (simp add: readDeleteEdges_def)
    then have "take (maxDeleteEdgePage + 1) (map ?d ?r) = map ?d ?r" by simp
    then have eq: "set (map de_target (readDeleteEdges db orgID nodeID RelChildOf False)) = set (map ?d ?r)"
      unfolding map_eq by (rule arg_cong)
    show ?thesis unfolding eq by (intro equalityI subsetI CollectI) (simp_all only: mem mem_Collect_eq)
  qed
qed

text \<open>
  A node with a \<open>child_of\<close> edge to \<open>parentID\<close>, when the guard reads its edges without an error, has
  \<open>parentID\<close> as its hierarchy parent: the edges of one node never name two parents.
\<close>

lemma hasHierarchyParent_edge:
  assumes "hasHierarchyParent db orgID hn parentID = Inr b" "parentID \<noteq> uuid_nil"
    and "has_edge db (orgID, hn_id hn, RelChildOf, parentID)"
  shows b
proof -
  let ?ts = "map de_target (readDeleteEdges db orgID (hn_id hn) RelChildOf False)"
  obtain p where p: "HierarchyParent (hn_kind hn) ?ts = Inr p" "b \<longleftrightarrow> p = parentID"
    using assms(1) by (auto simp: hasHierarchyParent_def err_simps)
  have "hierarchy_parent_loop uuid_nil ?ts = Inr p"
    using p(1) by (auto simp: HierarchyParent_def err_simps split: option.splits if_splits)
  note sub = hierarchy_parent_loop_subset [OF this]
  have "card (set ?ts) \<le> card {uuid_nil, p}" by (rule card_mono) (use sub in auto)
  also have "\<dots> \<le> 2" by (simp add: card_insert_if)
  finally have "length (readDeleteEdges db orgID (hn_id hn) RelChildOf False) \<le> 2"
    using distinct_card [OF child_of_targets(2), of db orgID "hn_id hn"] by simp
  then have "parentID \<in> set ?ts"
    using child_of_targets(3) [of db orgID "hn_id hn"] assms(3) by (simp add: maxDeleteEdgePage_def)
  then show b using sub assms(2) p(2) by blast
qed

lemma readIncomingSnapshots_edges:
  assumes "readIncomingSnapshots lib db orgID nodeID = Inr (incoming, False)" "rels_ok db"
    and "has_edge db (orgID, sourceID, relationType, nodeID)"
  shows "\<exists>s \<in> set incoming. rel_source (snap_relationship s) = sourceID \<and> rel_type (snap_relationship s) = relationType"
proof -
  let ?edges = "readDeleteEdges db orgID nodeID [] True"
  have few: "\<not> MutationEdgeLimit < length ?edges"
    and run: "mapE (\<lambda>edge. case fmlookup (db_rels db) (orgID, de_source edge, de_type edge, de_target edge) of
        None \<Rightarrow> Inl ErrDecode | Some metadata \<Rightarrow> decodeRelationshipSnapshot lib metadata) ?edges = Inr incoming"
    using assms(1) by (auto simp: readIncomingSnapshots_def Let_def err_simps split: if_splits)
  have all: "?edges = map (\<lambda>(_, _, t, s). \<lparr>de_source = s, de_type = t, de_target = nodeID\<rparr>) (incoming_range db orgID nodeID [])"
    using few by (simp add: readDeleteEdges_def MutationEdgeLimit_def maxDeleteEdgePage_def)
  have "(orgID, nodeID, relationType, sourceID) \<in> set (incoming_range db orgID nodeID [])"
    using assms(3) rels_ok_reverse [OF assms(2)] by (simp add: incoming_range_iff has_edge_def)
  then have "\<lparr>de_source = sourceID, de_type = relationType, de_target = nodeID\<rparr> \<in> set ?edges" unfolding all by force
  from mapE_mem [OF run this] obtain s e where s: "s \<in> set incoming"
    "fmlookup (db_rels db) (orgID, sourceID, relationType, nodeID) = Some e" "decodeRelationshipSnapshot lib e = Inr s"
    by (auto split: option.splits)
  then show ?thesis
    using rels_ok_lookup [OF assms(2) s(2)] by (intro bexI [of _ s]) (auto simp: decodeRelationshipSnapshot_def rel_key_def)
qed

lemma refuseHierarchyChild_none:
  assumes "refuseHierarchyChild db plan incoming = Inr ()" "rels_ok db" "dp_node plan \<noteq> uuid_nil"
    and "readIncomingSnapshots lib db (dp_org plan) (dp_node plan) = Inr (incoming, False)"
    and "readHierarchyNode db (dp_org plan) childID = Inr hn" "hn_found hn"
  shows "\<not> has_edge db (dp_org plan, childID, RelChildOf, dp_node plan)"
proof
  assume edge: "has_edge db (dp_org plan, childID, RelChildOf, dp_node plan)"
  obtain s where "s \<in> set incoming" "rel_source (snap_relationship s) = childID" "rel_type (snap_relationship s) = RelChildOf"
    using readIncomingSnapshots_edges [OF assms(4,2) edge] by blast
  then have mem: "childID \<in> set (map (\<lambda>edge. rel_source (snap_relationship edge))
      (filter (\<lambda>edge. rel_type (snap_relationship edge) = RelChildOf) incoming))" by auto
  obtain sources where read: "mapE (readHierarchyNode db (dp_org plan)) (map (\<lambda>edge. rel_source (snap_relationship edge))
      (filter (\<lambda>edge. rel_type (snap_relationship edge) = RelChildOf) incoming)) = Inr sources"
    and loop: "foldE (refuse_child db (dp_org plan) (dp_node plan)) sources () = Inr ()"
    using assms(1) by (auto simp: refuseHierarchyChild_def readHierarchyNodes_def err_simps)
  have "hn \<in> set sources" using mapE_mem [OF read mem] assms(5) by auto
  then have "refuse_child db (dp_org plan) (dp_node plan) hn () = Inr ()" by (rule foldE_unit_mem [OF loop])
  then have "hasHierarchyParent db (dp_org plan) hn (dp_node plan) = Inr False"
    using assms(6) by (auto simp: refuse_child_def err_simps split: if_splits)
  moreover have "hn_id hn = childID"
    using assms(5) by (auto simp: readHierarchyNode_def Let_def err_simps split: option.splits if_splits)
  ultimately show False using hasHierarchyParent_edge [of db "dp_org plan" hn "dp_node plan" False] assms(3) edge by simp
qed

section \<open>A sample deletion\<close>

definition delete_plan :: deletion_plan where
  "delete_plan = \<lparr>dp_org = 1, dp_node = 4, dp_actor = 3,
     dp_source = \<lparr>src_absent = False, src_digest = PrimaryDigest demo_lib [0x7B]\<rparr>,
     dp_graph = \<lparr>graph_records = [], graph_relationships = [], graph_incoming = []\<rparr>, dp_checkpoint = None\<rparr>"

lemma delete_plan_simps [simp]:
  "dp_org delete_plan = 1" "dp_node delete_plan = 4" "dp_checkpoint delete_plan = None"
  "dp_source delete_plan = \<lparr>src_absent = False, src_digest = PrimaryDigest demo_lib [0x7B]\<rparr>"
  "dp_graph delete_plan = \<lparr>graph_records = [], graph_relationships = [], graph_incoming = []\<rparr>"
  by (simp_all add: delete_plan_def)

definition isolated :: "db \<Rightarrow> uuid \<Rightarrow> uuid \<Rightarrow> bool" where
  "isolated db orgID nodeID \<longleftrightarrow>
     (\<forall>k e. fmlookup (db_rels db) k = Some e \<longrightarrow> \<not> edge_from orgID nodeID k) \<and>
     (\<forall>k. k |\<in>| db_rels_rev db \<longrightarrow> \<not> edge_from orgID nodeID k)"

lemma isolated_ranges:
  assumes "isolated db orgID nodeID"
  shows "outgoing_range db orgID nodeID t = []" "incoming_range db orgID nodeID t = []"
proof -
  have "x \<notin> set (outgoing_range db orgID nodeID t)" for x
    using assms by (cases x; cases "fst x") (auto simp: outgoing_range_iff isolated_def)
  then show "outgoing_range db orgID nodeID t = []" by (metis last_in_set)
  have "x \<notin> set (incoming_range db orgID nodeID t)" for x
    using assms by (cases x) (auto simp: incoming_range_iff isolated_def)
  then show "incoming_range db orgID nodeID t = []" by (metis last_in_set)
qed

lemma clear_isolated:
  assumes "isolated db (node_org n) (node_id n)"
    and "record_change env m (nodeTarget n)
      (case fmlookup (db_nodes db) (node_org n, node_kind n, node_id n) of None \<Rightarrow> [] | Some e \<Rightarrow> enc_text e) [] cs = Inr cs'"
    and "\<not> cfg_search_work cfg"
  shows "\<exists>db'. clearNode env cfg at m n (db, cs) = Inr (db', cs')"
proof -
  have iso: "isolated (clear_records n db) (node_org n) (node_id n)"
    using assms(1) by (simp add: isolated_def clear_records_def Let_def)
  obtain t where t: "clearSourceRelationships env m (node_org n) (node_id n) (clear_records n db, cs') = Inr ([], t, cs')"
    "isolated t (node_org n) (node_id n)"
    using iso by (simp add: clearSourceRelationships_def isolated_ranges [OF iso] Let_def isolated_def)
  have "\<exists>u. clearTargetRelationships env m (node_org n) (node_id n) (t, cs') = Inr ([], u, cs')"
    by (simp add: clearTargetRelationships_def removeRelationships_def isolated_ranges [OF t(2)] Let_def)
  then show ?thesis
    using t(1) assms(2,3) by (auto simp: clearNode_def schedule_deletion_def Let_def)
qed

text \<open>A state that differs from the sample one in edges and resolutions of other nodes alone.\<close>

definition like_demo :: "db \<Rightarrow> bool" where
  "like_demo db \<longleftrightarrow> isolated db 1 4 \<and> kv_get (db_resolves db) 4 = kv_get (db_resolves demo_db) 4 \<and>
     db_nodes db = db_nodes demo_db \<and> db_defs db = db_defs demo_db \<and> db_types db = db_types demo_db \<and> db_activation db = None"

lemma sample_delete:
  assumes "like_demo db"
  shows "\<exists>receipt db'. DeleteNode sample_env sample_config sample_instants (Some sample_operation) 77 delete_plan db =
    Inr (receipt, db')"
proof -
  let ?f = "fenced sample_config 1 4 db" and ?m = "demo_audit 1"
  note like = assms [unfolded like_demo_def]
  have source: "readMutationSource db 1 4 =
      Inr \<lparr>ms_exists = True, ms_kind = ''task'', ms_encoding = [0x7B], ms_node = demo_node\<rparr>"
    using like demo_source(1) by (simp add: readMutationSource_def cong: option.case_cong if_cong)
  note ranges = isolated_ranges [OF conjunct1 [OF like]]
  have out: "readOutgoingSnapshots demo_lib db 1 4 [] = Inr []"
    by (simp add: readOutgoingSnapshots_def ranges)
  have inc: "readIncomingSnapshots demo_lib db 1 4 = Inr ([], False)"
    by (simp add: readIncomingSnapshots_def readDeleteEdges_def ranges Let_def)
  have defs: "kv_range (\<lambda>(o', _). o' = 1) (db_defs db) = [((1, 8), json_object [] (sample_definition 8 ''parent_id'' PropertyTypeUUID))]"
    "kv_range (\<lambda>(o', _). o' = 1) (db_types db) = [((1, 2), json_object [] (sample_type ''task''))]"
    using like by (simp_all add: demo_db_def kv_range_def sorted_list_of_fmap_def sorted_list_of_fset.rep_eq)
  have refs: "refuseReferencedNode demo_lib db 1 \<lparr>ms_exists = True, ms_kind = ''task'', ms_encoding = [0x7B], ms_node = demo_node\<rparr> = Inr ()"
    by (simp add: refuseReferencedNode_def readSchemaRecords_def defs sample_definition_def Let_def)
  have fence: "callFence sample_config 1 4 db = Inr (False, ?f)"
    by (rule sample_fence) (use like in simp)
  have node: "fmlookup (db_nodes ?f) (node_org demo_node, node_kind demo_node, node_id demo_node) = Some (json_object [] demo_node)"
    using like by (simp add: demo_db_def demo_node_def)
  have iso: "isolated ?f (node_org demo_node) (node_id demo_node)"
    using like by (simp add: isolated_def demo_node_def)
  have "validateTarget (nodeTarget demo_node)"
    by (simp add: validateTarget_def nodeTarget_def nodeIdentityTarget_def demo_node_def)
  then obtain c where c: "record_change sample_env ?m (nodeTarget demo_node) (enc_text (json_object [] demo_node)) [] [] = Inr c"
    "list_all (\<lambda>c. ValidateChange demo_lib c \<and> chg_protected c = []) c" "length c \<le> 1"
    using demo_record [of "nodeTarget demo_node" "enc_text (json_object [] demo_node)" "[]" ?m "[]"] by auto
  obtain db' where clear: "clearNode sample_env sample_config sample_instants ?m demo_node (?f, []) = Inr (db', c)"
    using clear_isolated [OF iso, of sample_env ?m "[]" c sample_config sample_instants] c(1) node
    by (auto simp: sample_config_def)
  have att: "deleteNodeAttempt sample_env sample_config sample_instants ?m delete_plan db =
      Inr (\<lparr>mr_org = 1, mr_node = 4, mr_source_digest = PrimaryDigest demo_lib [0x7B], mr_result_digest = 0\<rparr>, db', c)"
    by (simp add: deleteNodeAttempt_def source checkSource_def checkGraphRecords_def out inc refs fence clear
      refuseHierarchyChild_def readHierarchyNodes_def outgoingMatches_def incomingMatches_def MutationEdgeLimit_def
      advanceMutationCheckpoint_def)
  obtain db'' where "append_changes sample_env ?m 200 (db', c) = Inr db''"
    using demo_append [OF c(2), of 1 200 db'] c(3) by auto
  then show ?thesis using demo_begin [of 1] att by (simp add: DeleteNode_def sample_instants_def)
qed

lemma demo_like: "like_demo demo_db"
  by (simp add: like_demo_def isolated_def demo_db_def empty_db_def)

text \<open>The sample state with a node below another parent.\<close>

definition family_db :: db where
  "family_db = set_relationship (1, 6, RelChildOf, 7) (json_object [] (removed_edge 1 6 RelChildOf 7))
     (demo_db\<lparr>db_resolves := fmupd 6 (json_object [] \<lparr>resolve_org = 1, resolve_kind = ''task''\<rparr>) (db_resolves demo_db)\<rparr>)"

lemma family_like: "like_demo family_db"
  by (auto simp: like_demo_def isolated_def family_db_def set_relationship_def demo_db_def empty_db_def split: if_splits)

lemma family_ok: "store_ok lib family_db"
proof -
  let ?d = "demo_db\<lparr>db_resolves := fmupd 6 (json_object [] \<lparr>resolve_org = 1, resolve_kind = ''task''\<rparr>) (db_resolves demo_db)\<rparr>"
  note ok = store_okD [OF demo_db_ok [of lib]]
  have "nodes_ok ?d"
    by (rule nodes_okI) (use nodes_ok_node [OF ok(1)] nodes_ok_resolve [OF ok(1)] in \<open>auto split: if_splits\<close>)
  then have "store_ok lib ?d"
    using ok rels_ok_cong [of ?d demo_db] refs_ok_cong [of ?d demo_db lib] by (simp add: store_ok_def)
  moreover have "rel_fits (1, 6, RelChildOf, 7) (json_object [] (removed_edge 1 6 RelChildOf 7))"
    by (simp add: rel_fits_def rel_key_def removed_edge_def)
  ultimately show ?thesis
    unfolding family_db_def by (intro only_rels_store_ok [OF only_rels_set] rels_ok_set store_okD(2))
qed

section \<open>Properties\<close>

lemma DeleteNode_Inr:
  assumes "DeleteNode env cfg at operation base plan db = Inr (receipt, db')" "store_ok (env_lib env) db"
  obtains source incoming m c dbL changes w where
    "readMutationSource db (dp_org plan) (dp_node plan) = Inr source" "ms_exists source"
    "node_org (ms_node source) = dp_org plan" "node_id (ms_node source) = dp_node plan"
    "readIncomingSnapshots (env_lib env) db (dp_org plan) (dp_node plan) = Inr (incoming, False)"
    "refuseHierarchyChild db plan incoming = Inr ()"
    "clearNode env cfg at m (ms_node source) ((fenced cfg (dp_org plan) (dp_node plan) db)\<lparr>db_checkpoints := c\<rparr>, []) = Inr (dbL, changes)"
    "receipt = \<lparr>mr_org = dp_org plan, mr_node = dp_node plan,
      mr_source_digest = PrimaryDigest (env_lib env) (ms_encoding source), mr_result_digest = 0\<rparr>"
    "db' = dbL\<lparr>db_outbox := db_outbox dbL @ w\<rparr>"
proof -
  obtain m dbL changes where att: "deleteNodeAttempt env cfg at m plan db = Inr (receipt, dbL, changes)"
    and app: "append_changes env m (at_append at) (dbL, changes) = Inr db'"
    using assms(1) by (auto simp: DeleteNode_def elim!: bindE_InrE bindE_InrE3)
  obtain w where w: "db' = dbL\<lparr>db_outbox := db_outbox dbL @ w\<rparr>" by (rule append_changes_Inr [OF app]) (rule that)
  obtain source incoming c where a:
    "readMutationSource db (dp_org plan) (dp_node plan) = Inr source" "ms_exists source"
    "readIncomingSnapshots (env_lib env) db (dp_org plan) (dp_node plan) = Inr (incoming, False)"
    "refuseHierarchyChild db plan incoming = Inr ()"
    "clearNode env cfg at m (ms_node source) ((fenced cfg (dp_org plan) (dp_node plan) db)\<lparr>db_checkpoints := c\<rparr>, []) = Inr (dbL, changes)"
    "receipt = \<lparr>mr_org = dp_org plan, mr_node = dp_node plan,
      mr_source_digest = PrimaryDigest (env_lib env) (ms_encoding source), mr_result_digest = 0\<rparr>"
    by (rule deleteNodeAttempt_Inr [OF att]) (rule that)
  have key: "node_org (ms_node source) = dp_org plan" "node_id (ms_node source) = dp_node plan"
    using readMutationSource_exists(1) [OF a(1,2) store_okD(1) [OF assms(2)]] by (simp_all add: node_key_def)
  show thesis by (rule that [OF a(1,2) key a(3-6) w])
qed

text \<open>
  C8: What a planned deletion leaves. After a successful \<open>DeleteNode\<close> the node is absent, no relationship
  of the organisation starts or ends at it and every other relationship is untouched, each of its
  references is free and every other reference still finds its node, every other node is as it was, the
  fence of the node's bucket is incremented, the receipt has the digest of the deleted record, and the
  store stays consistent.
\<close>

theorem DeleteNode_removes:
  assumes "DeleteNode env cfg at operation base plan db = Inr (receipt, db')"
    and "store_ok (env_lib env) db" "uuid_law (env_lib env)"
  shows "store_ok (env_lib env) db' \<and>
    (\<exists>source. readMutationSource db (dp_org plan) (dp_node plan) = Inr source \<and> ms_exists source \<and>
      mr_source_digest receipt = PrimaryDigest (env_lib env) (ms_encoding source)) \<and>
    (\<forall>orgID nodeID. readMutationSource db' orgID nodeID =
      (if nodeID = dp_node plan then Inr absent_source else readMutationSource db orgID nodeID)) \<and>
    (\<forall>k. fmlookup (db_rels db') k =
      (if edge_from (dp_org plan) (dp_node plan) k \<or> edge_to (dp_org plan) (dp_node plan) k then None
       else fmlookup (db_rels db) k)) \<and>
    (\<forall>t e. LookupReference (env_lib env) db' (dp_org plan) t e =
      (if LookupReference (env_lib env) db (dp_org plan) t e = Inr (dp_node plan) then Inr uuid_nil
       else LookupReference (env_lib env) db (dp_org plan) t e)) \<and>
    db_fence db' = db_fence (fenced cfg (dp_org plan) (dp_node plan) db)"
proof -
  let ?f = "fenced cfg (dp_org plan) (dp_node plan) db"
  obtain source m c dbL changes w where d:
    "readMutationSource db (dp_org plan) (dp_node plan) = Inr source" "ms_exists source"
    "node_org (ms_node source) = dp_org plan" "node_id (ms_node source) = dp_node plan"
    "clearNode env cfg at m (ms_node source) (?f\<lparr>db_checkpoints := c\<rparr>, []) = Inr (dbL, changes)"
    "receipt = \<lparr>mr_org = dp_org plan, mr_node = dp_node plan,
      mr_source_digest = PrimaryDigest (env_lib env) (ms_encoding source), mr_result_digest = 0\<rparr>"
    "db' = dbL\<lparr>db_outbox := db_outbox dbL @ w\<rparr>"
    by (rule DeleteNode_Inr [OF assms(1,2)]) (rule that)
  have ok: "store_ok (env_lib env) (?f\<lparr>db_checkpoints := c\<rparr>)" using assms(2) by simp
  note cleared = clearNode_Inr [OF d(5) store_okD(2) [OF ok], unfolded d(3,4)]
  have same: "readMutationSource db' = readMutationSource dbL" "readMutationSource (?f\<lparr>db_checkpoints := c\<rparr>) = readMutationSource db"
    by (rule readMutationSource_cong; simp add: d(7))+
  have lookup: "LookupReference (env_lib env) db' o' t e = LookupReference (env_lib env) dbL o' t e"
    "LookupReference (env_lib env) (?f\<lparr>db_checkpoints := c\<rparr>) o' t e = LookupReference (env_lib env) db o' t e" for o' t e
    by (simp_all add: LookupReference_def d(7))
  have "store_ok (env_lib env) db'" using clearNode_store_ok [OF d(5) ok assms(3)] by (simp add: d(7))
  moreover have "db_fence db' = db_fence ?f" using cleared by (simp add: d(7) cleared_frame_def)
  moreover have "readMutationSource db' o' u = (if u = dp_node plan then Inr absent_source else readMutationSource db o' u)" for o' u
    using cleared_source [OF conjunct1 [OF cleared], of o' u] by (simp only: same d(4))
  moreover have "LookupReference (env_lib env) db' (dp_org plan) t e =
      (if LookupReference (env_lib env) db (dp_org plan) t e = Inr (dp_node plan) then Inr uuid_nil
       else LookupReference (env_lib env) db (dp_org plan) t e)" for t e
    using cleared_lookup [OF store_okD(3) [OF ok] assms(3) conjunct1 [OF cleared], of t e] by (simp only: lookup d(3,4))
  moreover have "fmlookup (db_rels db') k =
      (if edge_from (dp_org plan) (dp_node plan) k \<or> edge_to (dp_org plan) (dp_node plan) k then None
       else fmlookup (db_rels db) k)" for k
    using cleared by (simp add: d(7))
  ultimately show ?thesis using d(1,2,6) by auto
qed

theorem DeleteNode_removes_witness:
  "\<exists>receipt db'. DeleteNode sample_env sample_config sample_instants (Some sample_operation) 77 delete_plan demo_db =
      Inr (receipt, db') \<and> readMutationSource db' 1 4 = Inr absent_source \<and> store_ok demo_lib db' \<and>
      mr_source_digest receipt = PrimaryDigest demo_lib [0x7B]"
proof -
  obtain receipt db' where run: "DeleteNode sample_env sample_config sample_instants (Some sample_operation) 77 delete_plan demo_db =
      Inr (receipt, db')"
    using sample_delete [OF demo_like] by blast
  show ?thesis
    using DeleteNode_removes [OF run] run demo_db_ok by (auto simp: demo_source)
qed

text \<open>
  C10: No planned deletion orphans a child. When \<open>DeleteNode\<close> succeeds, no stored node of the organisation
  has a \<open>child_of\<close> relationship to the deleted node, so the parent edges of every node other than the
  deleted one are the same before and after.
\<close>

theorem DeleteNode_no_orphan:
  assumes "DeleteNode env cfg at operation base plan db = Inr (receipt, db')"
    and "store_ok (env_lib env) db" "dp_node plan \<noteq> uuid_nil"
    and "readHierarchyNode db (dp_org plan) childID = Inr hn" "hn_found hn" "childID \<noteq> dp_node plan"
  shows "\<not> has_edge db (dp_org plan, childID, RelChildOf, dp_node plan) \<and>
    (\<forall>parentID. has_edge db' (dp_org plan, childID, RelChildOf, parentID) \<longleftrightarrow>
      has_edge db (dp_org plan, childID, RelChildOf, parentID))"
proof -
  let ?f = "fenced cfg (dp_org plan) (dp_node plan) db"
  obtain source incoming m c dbL changes w where
    "readMutationSource db (dp_org plan) (dp_node plan) = Inr source" "ms_exists source" and d:
    "node_org (ms_node source) = dp_org plan" "node_id (ms_node source) = dp_node plan"
    "readIncomingSnapshots (env_lib env) db (dp_org plan) (dp_node plan) = Inr (incoming, False)"
    "refuseHierarchyChild db plan incoming = Inr ()"
    "clearNode env cfg at m (ms_node source) (?f\<lparr>db_checkpoints := c\<rparr>, []) = Inr (dbL, changes)"
    "db' = dbL\<lparr>db_outbox := db_outbox dbL @ w\<rparr>"
    by (rule DeleteNode_Inr [OF assms(1,2)]) (rule that)
  have ok: "store_ok (env_lib env) (?f\<lparr>db_checkpoints := c\<rparr>)" using assms(2) by simp
  have none: "\<not> has_edge db (dp_org plan, childID, RelChildOf, dp_node plan)"
    by (rule refuseHierarchyChild_none [OF d(4) store_okD(2) [OF assms(2)] assms(3) d(3) assms(4,5)])
  show ?thesis
    using none clearNode_Inr [OF d(5) store_okD(2) [OF ok], unfolded d(1,2)] assms(6) by (auto simp: has_edge_def d(6))
qed

theorem DeleteNode_no_orphan_witness:
  "\<exists>receipt db' hn. DeleteNode sample_env sample_config sample_instants (Some sample_operation) 77 delete_plan family_db =
      Inr (receipt, db') \<and> readHierarchyNode family_db 1 6 = Inr hn \<and> hn_found hn \<and> has_edge db' (1, 6, RelChildOf, 7)"
proof -
  obtain receipt db' where run: "DeleteNode sample_env sample_config sample_instants (Some sample_operation) 77 delete_plan family_db =
      Inr (receipt, db')"
    using sample_delete [OF family_like] by blast
  have edge: "has_edge family_db (1, 6, RelChildOf, 7)" by (simp add: family_db_def)
  have ids: "indexedIDs (db_types_by_key demo_db) 1 ''task'' = [2]"
    by (simp add: indexedIDs_def demo_db_def maxIndexedMatches_def sorted_list_of_fset.rep_eq)
  obtain hn where hn: "readHierarchyNode family_db 1 6 = Inr hn" "hn_found hn"
    by (simp add: readHierarchyNode_def family_db_def set_relationship_def kv_get_def cachedNodeTypeByKey_def ids Let_def)
      (simp add: demo_db_def json_object_def)
  show ?thesis
    using DeleteNode_no_orphan [OF run _ _ _ hn(2), of 6] hn edge run family_ok by auto
qed

section \<open>Index entries after the older deletion\<close>

lemma clear_property_entries_iff:
  "entry |\<in>| db_props (clear_property_entries n db) \<longleftrightarrow>
    entry |\<in>| db_props db \<and> (\<nexists>name v. fmlookup (node_props n) name = Some v \<and> entry = property_entry n name v)"
proof -
  have fold: "entry |\<in>| fold (\<lambda>(name, value) index. index |-| {|property_entry n name value|}) xs index \<longleftrightarrow>
      entry |\<in>| index \<and> (\<forall>(name, v) \<in> set xs. entry \<noteq> property_entry n name v)" for xs index
    by (induction xs arbitrary: index) auto
  show ?thesis by (auto simp: clear_property_entries_def fold set_sorted_list_of_fmap)
qed

text \<open>
  \<open>Delete\<close> clears the index entries of the values it read in its first transaction. An entry that
  another write added before the second transaction stays although the node is gone.
\<close>

lemma Delete_leaves_newer_entry:
  assumes "Delete env cfg at operation base orgID nodeID seen db = Inr db'" "rels_ok db"
    and "Get seen orgID nodeID = Inr (Some n)" "entry |\<in>| db_props db"
    and "\<nexists>name v. fmlookup (node_props n) name = Some v \<and> entry = property_entry n name v"
  shows "entry |\<in>| db_props db' \<and> readMutationSource db' orgID (node_id n) = Inr absent_source"
proof -
  obtain m dbL cs where run: "clearNode env cfg at m n (fenced cfg orgID nodeID db, []) = Inr (dbL, cs)"
    "append_changes env m (at_append at) (dbL, cs) = Inr db'"
    using assms(1,3) callFence_Inr [of cfg orgID nodeID db]
    by (auto simp: Delete_def elim!: bindE_InrE bindE_InrE2)
  obtain w where w: "db' = dbL\<lparr>db_outbox := db_outbox dbL @ w\<rparr>" by (rule append_changes_Inr [OF run(2)]) (rule that)
  have "rels_ok (fenced cfg orgID nodeID db)" using assms(2) rels_ok_cong [of "fenced cfg orgID nodeID db" db] by simp
  then have frame: "cleared_frame n (fenced cfg orgID nodeID db) dbL" using clearNode_Inr [OF run(1)] by blast
  have "readMutationSource db' = readMutationSource dbL" by (rule readMutationSource_cong) (simp_all add: w)
  then show ?thesis
    using frame assms(4,5) cleared_source [OF frame, of orgID "node_id n"]
    by (simp add: w cleared_frame_def clear_property_entries_iff)
qed

end
