(* ===== verification/Node_Store.thy ===== *)
theory Node_Store
  imports Node_Deletion
begin

text \<open>
  The unplanned writes and the reads of the node store (\<open>node.go\<close>, \<open>node_create.go\<close>, \<open>node_update.go\<close>,
  \<open>node_update_checked.go\<close>, \<open>node_properties.go\<close>, \<open>node_idempotency.go\<close>): storing a node, creating one with
  its indexes and relationships, updating one with or without a check of the record it was read from,
  replacing references, and listing nodes by an indexed property.
\<close>

section \<open>Writes\<close>

definition stored_text :: "db \<Rightarrow> node \<Rightarrow> bytes" where
  "stored_text db current =
     (case fmlookup (db_nodes db) (node_org current, node_kind current, node_id current) of None \<Rightarrow> [] | Some e \<Rightarrow> enc_text e)"

definition schedule_content :: "env \<Rightarrow> store_config \<Rightarrow> timestamp \<Rightarrow> uuid \<Rightarrow> uuid \<Rightarrow> db \<Rightarrow> db result" where
  "schedule_content env cfg now orgID nodeID db =
     (if cfg_search_work cfg then bindE (schedule_change env now orgID nodeID searchChangeContent db) (\<lambda>(_, db). Inr db)
      else Inr db)"

definition Set_node ::
  "env \<Rightarrow> store_config \<Rightarrow> instants \<Rightarrow> audit_event option \<Rightarrow> uuid \<Rightarrow> node \<Rightarrow> node_view option \<Rightarrow> db \<Rightarrow> db result" where
  "Set_node env cfg at operation base current view db =
     bindE (beginMutationAudit operation base (node_org current)) (\<lambda>m.
     bindE (callFence cfg (node_org current) (node_id current) db) (\<lambda>(strict, db).
     let source = stored_text db current in
     bindE (writeNodeRecords env current view db) (\<lambda>(encoded, db).
     bindE (checkStrictRecord (env_lib env) db strict current) (\<lambda>_.
     bindE (schedule_content env cfg (at_schedule at) (node_org current) (node_id current) db) (\<lambda>db.
     bindE (record_change env m (nodeTarget current) source encoded []) (\<lambda>changes.
     append_changes env m (at_append at) (db, changes)))))))"

definition writeCreateIdempotency :: "env \<Rightarrow> uuid \<Rightarrow> idempotency_record option \<Rightarrow> db \<Rightarrow> db result" where
  "writeCreateIdempotency env orgID planned db =
     (case planned of
        None \<Rightarrow> Inr db
      | Some record \<Rightarrow>
          if kv_get (db_idempotency db) (orgID, idem_key record) \<noteq> None then Inl ErrConflict
          else bindE (marshal_idempotency env record) (\<lambda>encoded.
            Inr (db\<lparr>db_idempotency := fmupd (orgID, idem_key record) encoded (db_idempotency db)\<rparr>)))"

definition with_org :: "uuid \<Rightarrow> relationship \<Rightarrow> relationship" where
  "with_org orgID r = (if rel_org r = uuid_nil then r\<lparr>rel_org := orgID\<rparr> else r)"

definition CreateAtomic ::
  "env \<Rightarrow> store_config \<Rightarrow> instants \<Rightarrow> audit_event option \<Rightarrow> uuid \<Rightarrow> node \<Rightarrow> node_view option \<Rightarrow> relationship list \<Rightarrow>
    string list \<Rightarrow> reference_key list \<Rightarrow> idempotency_record option \<Rightarrow> db \<Rightarrow> db result" where
  "CreateAtomic env cfg at operation base current view relationships indexedProps referenceKeys idempotency db =
     bindE (beginMutationAudit operation base (node_org current)) (\<lambda>m.
     let relationships = map (with_org (node_org current)) relationships in
     bindE (callFence cfg (node_org current) (node_id current) db) (\<lambda>(strict, db).
     bindE (writeCreateIdempotency env (node_org current) idempotency db) (\<lambda>db.
     let source = stored_text db current in
     bindE (writeNodeRecords env current view db) (\<lambda>(encoded, db).
     bindE (claimReferenceKeys (env_lib env) (node_org current) (node_id current) referenceKeys
       (writeCreatePropertyIndexes current indexedProps db)) (\<lambda>db.
     bindE (addRelationships env m relationships (db, [])) (\<lambda>(db, changes).
     bindE (checkStrictWrite (env_lib env) db strict current [\<lparr>rels_add = relationships, rels_remove = []\<rparr>]) (\<lambda>_.
     bindE (schedule_content env cfg (at_schedule at) (node_org current) (node_id current) db) (\<lambda>db.
     bindE (record_change env m (nodeTarget current) source encoded changes) (\<lambda>changes.
     append_changes env m (at_append at) (db, changes))))))))))"

definition schedule_update ::
  "env \<Rightarrow> store_config \<Rightarrow> timestamp \<Rightarrow> uuid \<Rightarrow> uuid \<Rightarrow> relationship_changes list \<Rightarrow> db \<Rightarrow> db result" where
  "schedule_update env cfg now orgID nodeID changes db =
     (if cfg_search_work cfg
      then bindE (schedule_change env now orgID nodeID searchChangeContent db) (\<lambda>(_, db). schedule_related env now changes db)
      else Inr db)"

text \<open>A nil list of reference keys keeps the references of the node.\<close>

definition updateAtomic ::
  "env \<Rightarrow> store_config \<Rightarrow> instants \<Rightarrow> audit_event option \<Rightarrow> uuid \<Rightarrow> digest option \<Rightarrow> node \<Rightarrow> node_view option \<Rightarrow> props \<Rightarrow>
    string list \<Rightarrow> reference_key list option \<Rightarrow> relationship_changes list \<Rightarrow> db \<Rightarrow> db result" where
  "updateAtomic env cfg at operation base readDigest current view oldProps indexedProps referenceKeys relationshipChanges db =
     bindE (beginMutationAudit operation base (node_org current)) (\<lambda>m.
     let source = stored_text db current in
     if readDigest \<noteq> None \<and> readDigest \<noteq> Some (PrimaryDigest (env_lib env) source) then Inl ErrConflict
     else bindE (callFence cfg (node_org current) (node_id current) db) (\<lambda>(strict, db).
       bindE (writeNodeRecords env current view db) (\<lambda>(encoded, db).
       let db = reconcilePropertyIndexes current oldProps indexedProps db in
       bindE (case referenceKeys of None \<Rightarrow> Inr db
         | Some keys \<Rightarrow> writeReferenceKeys (env_lib env) (node_org current) (node_id current) keys db) (\<lambda>db.
       bindE (applyRelationshipChanges env m relationshipChanges (db, [])) (\<lambda>(db, changes).
       bindE (checkStrictWrite (env_lib env) db strict current relationshipChanges) (\<lambda>_.
       bindE (schedule_update env cfg (at_schedule at) (node_org current) (node_id current) relationshipChanges db) (\<lambda>db.
       bindE (record_change env m (nodeTarget current) source encoded changes) (\<lambda>changes.
       append_changes env m (at_append at) (db, changes)))))))))"

definition UpdateAtomic ::
  "env \<Rightarrow> store_config \<Rightarrow> instants \<Rightarrow> audit_event option \<Rightarrow> uuid \<Rightarrow> node \<Rightarrow> node_view option \<Rightarrow> props \<Rightarrow>
    string list \<Rightarrow> reference_key list option \<Rightarrow> relationship_changes list \<Rightarrow> db \<Rightarrow> db result" where
  "UpdateAtomic env cfg at operation base = updateAtomic env cfg at operation base None"

definition UpdateAtomicFrom ::
  "env \<Rightarrow> store_config \<Rightarrow> instants \<Rightarrow> audit_event option \<Rightarrow> uuid \<Rightarrow> digest \<Rightarrow> node \<Rightarrow> node_view option \<Rightarrow> props \<Rightarrow>
    string list \<Rightarrow> reference_key list option \<Rightarrow> db \<Rightarrow> db result" where
  "UpdateAtomicFrom env cfg at operation base readDigest current view oldProps indexedProps referenceKeys =
     updateAtomic env cfg at operation base (Some readDigest) current view oldProps indexedProps referenceKeys []"

definition SetReferenceKeys ::
  "env \<Rightarrow> store_config \<Rightarrow> instants \<Rightarrow> audit_event option \<Rightarrow> uuid \<Rightarrow> uuid \<Rightarrow> uuid \<Rightarrow> reference_key list \<Rightarrow> db \<Rightarrow> db result" where
  "SetReferenceKeys env cfg at operation base orgID nodeID keys db =
     bindE (beginMutationAudit operation base orgID) (\<lambda>m.
     bindE (callFence cfg orgID nodeID db) (\<lambda>(_, db).
     let before = readOwnedReferences db orgID nodeID in
     bindE (writeReferenceKeys (env_lib env) orgID nodeID keys db) (\<lambda>db.
     bindE (recordReferenceChange env m orgID nodeID before keys (db, [])) (append_changes env m (at_append at)))))"

definition EnsurePropertyIndex :: "store_config \<Rightarrow> node \<Rightarrow> string list \<Rightarrow> db \<Rightarrow> db result" where
  "EnsurePropertyIndex cfg current indexedProps db =
     bindE (callFence cfg (node_org current) (node_id current) db) (\<lambda>(_, db).
     Inr (writeCreatePropertyIndexes current indexedProps db))"

section \<open>Reads\<close>

definition GetForUpdate :: "lib \<Rightarrow> db \<Rightarrow> uuid \<Rightarrow> uuid \<Rightarrow> (node \<times> digest) option result" where
  "GetForUpdate lib db orgID nodeID =
     bindE (readMutationSource db orgID nodeID) (\<lambda>source.
     Inr (if ms_exists source then Some (ms_node source, PrimaryDigest lib (ms_encoding source)) else None))"

definition LookupIdempotencyKey :: "db \<Rightarrow> uuid \<Rightarrow> string \<Rightarrow> idempotency_record option result" where
  "LookupIdempotencyKey db orgID key =
     (case kv_get (db_idempotency db) (orgID, key) of
        None \<Rightarrow> Inr None
      | Some e \<Rightarrow> bindE (decodeIdempotencyRecord key e) (\<lambda>r. Inr (Some r)))"

text \<open>Index entries in key order; an entry whose record is absent or does not decode is left out.\<close>

definition property_range ::
  "db \<Rightarrow> uuid \<Rightarrow> string \<Rightarrow> string \<Rightarrow> bytes \<Rightarrow> (uuid \<times> string \<times> string \<times> bytes \<times> uuid) list" where
  "property_range db orgID nodeType propName value =
     sorted_list_of_fset (ffilter (\<lambda>(o', t, p, v, _). o' = orgID \<and> t = nodeType \<and> p = propName \<and> v = value) (db_props db))"

definition readIndexedNodes :: "db \<Rightarrow> (uuid \<times> string \<times> string \<times> bytes \<times> uuid) list \<Rightarrow> uuid \<Rightarrow> string \<Rightarrow> node list" where
  "readIndexedNodes db items orgID nodeType =
     List.map_filter (\<lambda>(_, _, _, _, nodeID). case kv_get (db_nodes db) (orgID, nodeType, nodeID) of
         None \<Rightarrow> None | Some e \<Rightarrow> enc_value e) items"

definition ListByProperty :: "db \<Rightarrow> uuid \<Rightarrow> string \<Rightarrow> string \<Rightarrow> raw \<Rightarrow> node list" where
  "ListByProperty db orgID nodeType propName value =
     readIndexedNodes db (property_range db orgID nodeType propName (encodePropertyValue value)) orgID nodeType"

section \<open>What the writes keep\<close>

lemma only_nodes_store_ok:
  assumes "only_nodes db db'" "nodes_ok db'" "store_ok lib db"
  shows "store_ok lib db'"
  using assms only_nodesD [OF assms(1)] rels_ok_cong [of db' db] refs_ok_cong [of db' db lib] by (simp add: store_ok_def)

lemma only_refs_store_ok:
  assumes "only_refs db db'" "refs_ok lib db'" "store_ok lib db"
  shows "store_ok lib db'"
  using assms only_refsD [OF assms(1)] rels_ok_cong [of db' db] nodes_ok_cong [of db' db] by (simp add: store_ok_def)

lemma schedule_content_Inr:
  assumes "schedule_content env cfg now orgID nodeID db = Inr db'"
  obtains s where "db' = db\<lparr>db_search := s\<rparr>" "search_ok (env_lib env) (db_search db) \<Longrightarrow> search_ok (env_lib env) s"
proof (cases "cfg_search_work cfg")
  case True
  then obtain current where one: "schedule_change env now orgID nodeID searchChangeContent db = Inr (current, db')"
    using assms by (auto simp: schedule_content_def elim!: bindE_InrE2)
  obtain s where s: "scheduleSearchChange (env_lib env) now orgID nodeID searchChangeContent (db_search db) = Inr (current, s)"
    "db' = db\<lparr>db_search := s\<rparr>"
    by (rule schedule_change_Inr [OF one]) (rule that)
  show thesis by (rule that [OF s(2)]) (use scheduleSearchChange_ok [OF s(1)] in auto)
next
  case False
  then have "db' = db\<lparr>db_search := db_search db\<rparr>" using assms by (simp add: schedule_content_def)
  then show thesis using that by blast
qed

lemma schedule_update_Inr:
  assumes "schedule_update env cfg now orgID nodeID changes db = Inr db'"
  obtains s where "db' = db\<lparr>db_search := s\<rparr>" "search_ok (env_lib env) (db_search db) \<Longrightarrow> search_ok (env_lib env) s"
proof (cases "cfg_search_work cfg")
  case True
  then obtain current dbS where one: "schedule_change env now orgID nodeID searchChangeContent db = Inr (current, dbS)"
    and two: "schedule_related env now changes dbS = Inr db'"
    using assms by (auto simp: schedule_update_def elim!: bindE_InrE2)
  obtain s1 where s1: "scheduleSearchChange (env_lib env) now orgID nodeID searchChangeContent (db_search db) = Inr (current, s1)"
    "dbS = db\<lparr>db_search := s1\<rparr>"
    by (rule schedule_change_Inr [OF one]) (rule that)
  obtain s2 where s2: "scheduleRelatedSearchWork (env_lib env) now (resolved dbS) changes (db_search dbS) = Inr s2"
    "db' = dbS\<lparr>db_search := s2\<rparr>"
    by (rule schedule_related_Inr [OF two]) (rule that)
  show thesis
    by (rule that [of s2])
      (use s1 s2 scheduleSearchChange_ok [OF s1(1)] scheduleRelatedSearchWork_ok [OF s2(1)] in auto)
next
  case False
  then have "db' = db\<lparr>db_search := db_search db\<rparr>" using assms by (simp add: schedule_update_def)
  then show thesis using that by blast
qed

text \<open>
  \<open>wrote\<close>: the fence of the node's bucket is incremented, the node reads back with its properties as the
  encoder writes them, and every other node reads as before.
\<close>

definition wrote :: "store_config \<Rightarrow> node \<Rightarrow> db \<Rightarrow> db \<Rightarrow> bool" where
  "wrote cfg n db db' \<longleftrightarrow>
     db_fence db' = db_fence (fenced cfg (node_org n) (node_id n) db) \<and>
     (\<exists>encoded. readMutationSource db' (node_org n) (node_id n) = Inr \<lparr>ms_exists = True, ms_kind = node_kind n,
        ms_encoding = encoded, ms_node = n\<lparr>node_props := fmmap raw_stored (node_props n)\<rparr>\<rparr>) \<and>
     (\<forall>o' u. u \<noteq> node_id n \<longrightarrow> readMutationSource db' o' u = readMutationSource db o' u)"

lemma wrote_write:
  assumes "writeNodeRecords env n view db1 = Inr (encoded, db2)" "store_ok lib db1"
    and "db_nodes db1 = db_nodes db" "db_resolves db1 = db_resolves db" "db_fence db1 = db_fence (fenced cfg (node_org n) (node_id n) db)"
  shows "store_ok lib db2 \<and> wrote cfg n db db2"
proof -
  have frame: "only_nodes db1 db2" by (rule writeNodeRecords_Inr [OF assms(1)])
  have "store_ok lib db2"
    by (rule only_nodes_store_ok [OF frame writeNodeRecords_ok [OF assms(1) store_okD(1) [OF assms(2)]] assms(2)])
  moreover have "readMutationSource db1 o' u = readMutationSource db o' u" for o' u
    using readMutationSource_cong [OF assms(3,4)] by simp
  ultimately show ?thesis
    using readMutationSource_write [OF assms(1)] only_nodesD(8) [OF frame] assms(5) by (auto simp: wrote_def)
qed

lemma wrote_cong:
  assumes "wrote cfg n db db1" "db_nodes db2 = db_nodes db1" "db_resolves db2 = db_resolves db1" "db_fence db2 = db_fence db1"
  shows "wrote cfg n db db2"
proof -
  have "readMutationSource db2 o' u = readMutationSource db1 o' u" for o' u
    using readMutationSource_cong [OF assms(2,3)] by simp
  then show ?thesis using assms(1,4) by (simp add: wrote_def)
qed

lemma wrote_tail:
  assumes "store_ok lib db1 \<and> wrote cfg n db db1" "db2 = db1\<lparr>db_search := s\<rparr>" "search_ok lib (db_search db1) \<Longrightarrow> search_ok lib s"
    and "append_changes env m at (db2, cs) = Inr db3"
  shows "store_ok lib db3 \<and> wrote cfg n db db3"
proof -
  obtain w where w: "db3 = db2\<lparr>db_outbox := db_outbox db2 @ w\<rparr>" by (rule append_changes_Inr [OF assms(4)]) (rule that)
  have "store_ok lib db2"
    unfolding assms(2) by (rule store_ok_search) (use assms(1,3) store_okD(4) in blast)+
  moreover have "wrote cfg n db db3"
    by (rule wrote_cong [OF conjunct2 [OF assms(1)]]) (simp_all add: w assms(2))
  ultimately show ?thesis by (simp add: w)
qed

lemma wrote_refs:
  assumes "store_ok lib db1 \<and> wrote cfg n db db1" "writeReferenceKeys lib orgID nodeID keys db1 = Inr db2"
    and "uuid_law lib" "distinct (map ref_template keys)"
  shows "store_ok lib db2 \<and> wrote cfg n db db2"
proof -
  note frame = writeReferenceKeys_frame [OF assms(2)]
  have ok: "store_ok lib db1" using assms(1) by blast
  have "store_ok lib db2"
    by (rule only_refs_store_ok [OF frame writeReferenceKeys_ok(1) [OF assms(2) store_okD(3) [OF ok] assms(3,4)] ok])
  moreover have "wrote cfg n db db2"
    by (rule wrote_cong [OF conjunct2 [OF assms(1)]]) (simp_all add: only_refsD [OF frame])
  ultimately show ?thesis by blast
qed

lemma wrote_rels:
  assumes "store_ok lib db1 \<and> wrote cfg n db db1" "rels_ok db2 \<and> only_rels db1 db2"
  shows "store_ok lib db2 \<and> wrote cfg n db db2"
  using assms only_rels_store_ok [of db1 db2 lib] wrote_cong [of cfg n db db1 db2] only_relsD [of db1 db2] by auto

lemma addRelationships_ok:
  assumes "addRelationships env m added t = Inr t'" "rels_ok (fst t)"
  shows "rels_ok (fst t') \<and> only_rels (fst t) (fst t')"
  by (rule addRelationships_invariant [OF assms(1), where P = "\<lambda>d. rels_ok d \<and> only_rels (fst t) d"])
    (use assms(2) in \<open>auto intro: rels_ok_set marshal_relationship_fits only_rels_trans\<close>)

lemma Set_node_wrote:
  assumes "Set_node env cfg at operation base n view db = Inr db'" "store_ok (env_lib env) db"
  shows "store_ok (env_lib env) db' \<and> wrote cfg n db db'"
proof -
  note run = assms(1) [unfolded Set_node_def Let_def]
  obtain m where 1: "beginMutationAudit operation base (node_org n) = Inr m" by (rule bindE_InrE [OF run]) (rule that)
  note run = run [unfolded 1 bindE_Inr]
  obtain strict db1 where 2: "callFence cfg (node_org n) (node_id n) db = Inr (strict, db1)" by (rule bindE_InrE2 [OF run]) (rule that)
  note run = run [unfolded 2 bindE_Inr prod.case]
  have db1: "db1 = fenced cfg (node_org n) (node_id n) db" using callFence_Inr [OF 2] by blast
  obtain encoded db2 where 3: "writeNodeRecords env n view db1 = Inr (encoded, db2)" by (rule bindE_InrE2 [OF run]) (rule that)
  note run = run [unfolded 3 bindE_Inr prod.case]
  obtain u where 4: "checkStrictRecord (env_lib env) db2 strict n = Inr u" by (rule bindE_InrE [OF run]) (rule that)
  note run = run [unfolded 4 bindE_Inr]
  obtain db3 where 5: "schedule_content env cfg (at_schedule at) (node_org n) (node_id n) db2 = Inr db3"
    by (rule bindE_InrE [OF run]) (rule that)
  note run = run [unfolded 5 bindE_Inr]
  obtain cs where 6: "append_changes env m (at_append at) (db3, cs) = Inr db'" by (rule bindE_InrE [OF run]) (rule that)
  have w: "store_ok (env_lib env) db2 \<and> wrote cfg n db db2" by (rule wrote_write [OF 3]) (simp_all add: db1 assms(2))
  obtain s where s: "db3 = db2\<lparr>db_search := s\<rparr>" "search_ok (env_lib env) (db_search db2) \<Longrightarrow> search_ok (env_lib env) s"
    by (rule schedule_content_Inr [OF 5]) (rule that)
  show ?thesis by (rule wrote_tail [OF w s 6])
qed

lemma writeCreateIdempotency_Inr:
  assumes "writeCreateIdempotency env orgID planned db = Inr db'"
  obtains i where "db' = db\<lparr>db_idempotency := i\<rparr>"
proof (cases planned)
  case None
  then have "db' = db\<lparr>db_idempotency := db_idempotency db\<rparr>" using assms by (simp add: writeCreateIdempotency_def)
  then show thesis by (rule that)
next
  case (Some r)
  then show thesis using assms that by (auto simp: writeCreateIdempotency_def err_simps split: if_splits)
qed

lemma wrote_index:
  "store_ok lib db1 \<and> wrote cfg n db db1 \<Longrightarrow> store_ok lib (db1\<lparr>db_props := p\<rparr>) \<and> wrote cfg n db (db1\<lparr>db_props := p\<rparr>)"
  using wrote_cong [of cfg n db db1 "db1\<lparr>db_props := p\<rparr>"] by simp

lemma CreateAtomic_wrote:
  assumes "CreateAtomic env cfg at operation base n view rels names keys idempotency db = Inr db'" "store_ok (env_lib env) db"
    and "uuid_law (env_lib env)" "distinct (map ref_template keys)"
  shows "store_ok (env_lib env) db' \<and> wrote cfg n db db'"
proof -
  let ?rels = "map (with_org (node_org n)) rels"
  note run = assms(1) [unfolded CreateAtomic_def Let_def]
  obtain m where 1: "beginMutationAudit operation base (node_org n) = Inr m" by (rule bindE_InrE [OF run]) (rule that)
  note run = run [unfolded 1 bindE_Inr]
  obtain strict db0 where 2: "callFence cfg (node_org n) (node_id n) db = Inr (strict, db0)" by (rule bindE_InrE2 [OF run]) (rule that)
  note run = run [unfolded 2 bindE_Inr prod.case]
  have db0: "db0 = fenced cfg (node_org n) (node_id n) db" using callFence_Inr [OF 2] by blast
  obtain db1 where i: "writeCreateIdempotency env (node_org n) idempotency db0 = Inr db1" by (rule bindE_InrE [OF run]) (rule that)
  note run = run [unfolded i bindE_Inr]
  obtain ids where ids: "db1 = db0\<lparr>db_idempotency := ids\<rparr>" by (rule writeCreateIdempotency_Inr [OF i]) (rule that)
  obtain encoded db2 where 3: "writeNodeRecords env n view db1 = Inr (encoded, db2)" by (rule bindE_InrE2 [OF run]) (rule that)
  note run = run [unfolded 3 bindE_Inr prod.case]
  let ?db2 = "writeCreatePropertyIndexes n names db2"
  obtain db3 where 4: "claimReferenceKeys (env_lib env) (node_org n) (node_id n) keys ?db2 = Inr db3"
    by (rule bindE_InrE [OF run]) (rule that)
  note run = run [unfolded 4 bindE_Inr]
  obtain db4 cs where 5: "addRelationships env m ?rels (db3, []) = Inr (db4, cs)" by (rule bindE_InrE2 [OF run]) (rule that)
  note run = run [unfolded 5 bindE_Inr prod.case]
  obtain u where 6: "checkStrictWrite (env_lib env) db4 strict n [\<lparr>rels_add = ?rels, rels_remove = []\<rparr>] = Inr u"
    by (rule bindE_InrE [OF run]) (rule that)
  note run = run [unfolded 6 bindE_Inr]
  obtain db5 where 7: "schedule_content env cfg (at_schedule at) (node_org n) (node_id n) db4 = Inr db5"
    by (rule bindE_InrE [OF run]) (rule that)
  note run = run [unfolded 7 bindE_Inr]
  obtain cs2 where 8: "append_changes env m (at_append at) (db5, cs2) = Inr db'" by (rule bindE_InrE [OF run]) (rule that)
  have w2: "store_ok (env_lib env) ?db2 \<and> wrote cfg n db ?db2"
    unfolding writeCreatePropertyIndexes_def
    by (rule wrote_index, rule wrote_write [OF 3]) (simp_all add: ids db0 assms(2))
  have w3: "store_ok (env_lib env) db3 \<and> wrote cfg n db db3"
    using w2 4 wrote_refs [OF w2 _ assms(3,4)] by (cases "keys = []") (auto simp: claimReferenceKeys_def)
  have "rels_ok db4 \<and> only_rels db3 db4" using addRelationships_ok [OF 5] store_okD(2) [of "env_lib env" db3] w3 by simp
  then have w4: "store_ok (env_lib env) db4 \<and> wrote cfg n db db4" by (rule wrote_rels [OF w3])
  obtain s where s: "db5 = db4\<lparr>db_search := s\<rparr>" "search_ok (env_lib env) (db_search db4) \<Longrightarrow> search_ok (env_lib env) s"
    by (rule schedule_content_Inr [OF 7]) (rule that)
  show ?thesis by (rule wrote_tail [OF w4 s 8])
qed

lemma updateAtomic_wrote:
  assumes "updateAtomic env cfg at operation base readDigest n view oldProps names keys changes db = Inr db'"
    and "store_ok (env_lib env) db" "uuid_law (env_lib env)" "\<And>ks. keys = Some ks \<Longrightarrow> distinct (map ref_template ks)"
  shows "store_ok (env_lib env) db' \<and> wrote cfg n db db' \<and>
    (\<forall>d. readDigest = Some d \<longrightarrow> d = PrimaryDigest (env_lib env) (stored_text db n))"
proof -
  note run = assms(1) [unfolded updateAtomic_def Let_def]
  obtain m where 1: "beginMutationAudit operation base (node_org n) = Inr m" by (rule bindE_InrE [OF run]) (rule that)
  note run = run [unfolded 1 bindE_Inr]
  have same: "\<not> (readDigest \<noteq> None \<and> readDigest \<noteq> Some (PrimaryDigest (env_lib env) (stored_text db n)))"
    using run by (auto split: if_splits)
  note run = run [unfolded if_not_P [OF same]]
  obtain strict db1 where 2: "callFence cfg (node_org n) (node_id n) db = Inr (strict, db1)" by (rule bindE_InrE2 [OF run]) (rule that)
  note run = run [unfolded 2 bindE_Inr prod.case]
  have db1: "db1 = fenced cfg (node_org n) (node_id n) db" using callFence_Inr [OF 2] by blast
  obtain encoded db2 where 3: "writeNodeRecords env n view db1 = Inr (encoded, db2)" by (rule bindE_InrE2 [OF run]) (rule that)
  note run = run [unfolded 3 bindE_Inr prod.case]
  let ?db2 = "reconcilePropertyIndexes n oldProps names db2"
  obtain db3 where 4: "(case keys of None \<Rightarrow> Inr ?db2
      | Some keys \<Rightarrow> writeReferenceKeys (env_lib env) (node_org n) (node_id n) keys ?db2) = Inr db3"
    by (rule bindE_InrE [OF run]) (rule that)
  note run = run [unfolded 4 bindE_Inr]
  obtain db4 cs where 5: "applyRelationshipChanges env m changes (db3, []) = Inr (db4, cs)" by (rule bindE_InrE2 [OF run]) (rule that)
  note run = run [unfolded 5 bindE_Inr prod.case]
  obtain u where 6: "checkStrictWrite (env_lib env) db4 strict n changes = Inr u" by (rule bindE_InrE [OF run]) (rule that)
  note run = run [unfolded 6 bindE_Inr]
  obtain db5 where 7: "schedule_update env cfg (at_schedule at) (node_org n) (node_id n) changes db4 = Inr db5"
    by (rule bindE_InrE [OF run]) (rule that)
  note run = run [unfolded 7 bindE_Inr]
  obtain cs2 where 8: "append_changes env m (at_append at) (db5, cs2) = Inr db'" by (rule bindE_InrE [OF run]) (rule that)
  have w2: "store_ok (env_lib env) ?db2 \<and> wrote cfg n db ?db2"
    unfolding reconcilePropertyIndexes_def
    by (rule wrote_index, rule wrote_write [OF 3]) (simp_all add: db1 assms(2))
  have w3: "store_ok (env_lib env) db3 \<and> wrote cfg n db db3"
    using w2 4 wrote_refs [OF w2 _ assms(3) assms(4)] by (cases keys) auto
  have "rels_ok db4 \<and> only_rels db3 db4" using applyRelationshipChanges_ok [OF 5] store_okD(2) [of "env_lib env" db3] w3 by simp
  then have w4: "store_ok (env_lib env) db4 \<and> wrote cfg n db db4" by (rule wrote_rels [OF w3])
  obtain s where s: "db5 = db4\<lparr>db_search := s\<rparr>" "search_ok (env_lib env) (db_search db4) \<Longrightarrow> search_ok (env_lib env) s"
    by (rule schedule_update_Inr [OF 7]) (rule that)
  show ?thesis using wrote_tail [OF w4 s 8] same by auto
qed

lemma SetReferenceKeys_store_ok:
  assumes "SetReferenceKeys env cfg at operation base orgID nodeID keys db = Inr db'"
    and "store_ok (env_lib env) db" "uuid_law (env_lib env)" "distinct (map ref_template keys)"
  shows "store_ok (env_lib env) db' \<and> db_fence db' = db_fence (fenced cfg orgID nodeID db)"
proof -
  note run = assms(1) [unfolded SetReferenceKeys_def Let_def]
  obtain m where 1: "beginMutationAudit operation base orgID = Inr m" by (rule bindE_InrE [OF run]) (rule that)
  note run = run [unfolded 1 bindE_Inr]
  obtain strict db1 where 2: "callFence cfg orgID nodeID db = Inr (strict, db1)" by (rule bindE_InrE2 [OF run]) (rule that)
  note run = run [unfolded 2 bindE_Inr prod.case]
  have db1: "db1 = fenced cfg orgID nodeID db" using callFence_Inr [OF 2] by blast
  obtain db2 where 3: "writeReferenceKeys (env_lib env) orgID nodeID keys db1 = Inr db2" by (rule bindE_InrE [OF run]) (rule that)
  note run = run [unfolded 3 bindE_Inr]
  obtain db3 cs where 4: "recordReferenceChange env m orgID nodeID (readOwnedReferences db1 orgID nodeID) keys (db2, []) = Inr (db3, cs)"
    "append_changes env m (at_append at) (db3, cs) = Inr db'"
    by (rule bindE_InrE2 [OF run]) (rule that)
  have db3: "db3 = db2" using 4(1) by (auto simp: recordReferenceChange_def Let_def err_simps split: option.splits if_splits)
  obtain w where w: "db' = db3\<lparr>db_outbox := db_outbox db3 @ w\<rparr>" by (rule append_changes_Inr [OF 4(2)]) (rule that)
  note frame = writeReferenceKeys_frame [OF 3]
  have ok: "store_ok (env_lib env) db1" using assms(2) by (simp add: db1)
  have "store_ok (env_lib env) db2"
    by (rule only_refs_store_ok [OF frame writeReferenceKeys_ok(1) [OF 3 store_okD(3) [OF ok] assms(3,4)] ok])
  then show ?thesis using only_refsD [OF frame] by (simp add: w db3 db1)
qed

lemma EnsurePropertyIndex_store_ok:
  assumes "EnsurePropertyIndex cfg n names db = Inr db'" "store_ok lib db"
  shows "store_ok lib db' \<and> db_fence db' = db_fence (fenced cfg (node_org n) (node_id n) db)"
  using assms callFence_Inr [of cfg "node_org n" "node_id n" db]
  by (fastforce simp: EnsurePropertyIndex_def writeCreatePropertyIndexes_def elim!: bindE_InrE2)

lemma Delete_store_ok:
  assumes "Delete env cfg at operation base orgID nodeID seen db = Inr db'" "store_ok (env_lib env) db" "uuid_law (env_lib env)"
  shows "store_ok (env_lib env) db'"
proof -
  note run = assms(1) [unfolded Delete_def]
  obtain m where 1: "beginMutationAudit operation base orgID = Inr m" by (rule bindE_InrE [OF run]) (rule that)
  note run = run [unfolded 1 bindE_Inr]
  obtain current where 2: "Get seen orgID nodeID = Inr current" by (rule bindE_InrE [OF run]) (rule that)
  note run = run [unfolded 2 bindE_Inr]
  show ?thesis
  proof (cases current)
    case None
    then show ?thesis using run assms(2) by simp
  next
    case (Some n)
    note run = run [unfolded Some option.case]
    obtain strict db1 where 3: "callFence cfg orgID nodeID db = Inr (strict, db1)" by (rule bindE_InrE2 [OF run]) (rule that)
    note run = run [unfolded 3 bindE_Inr prod.case]
    have db1: "db1 = fenced cfg orgID nodeID db" using callFence_Inr [OF 3] by blast
    obtain db2 cs where 4: "clearNode env cfg at m n (db1, []) = Inr (db2, cs)" "append_changes env m (at_append at) (db2, cs) = Inr db'"
      by (rule bindE_InrE2 [OF run]) (rule that)
    obtain w where w: "db' = db2\<lparr>db_outbox := db_outbox db2 @ w\<rparr>" by (rule append_changes_Inr [OF 4(2)]) (rule that)
    have "store_ok (env_lib env) db2" by (rule clearNode_store_ok [OF 4(1) _ assms(3)]) (simp add: db1 assms(2))
    then show ?thesis by (simp add: w)
  qed
qed

section \<open>Checked updates\<close>

lemma GetForUpdate_digest:
  assumes "GetForUpdate lib db orgID nodeID = Inr (Some (n, digest))" "nodes_ok db"
  shows "node_key n = (orgID, node_kind n, nodeID) \<and> digest = PrimaryDigest lib (stored_text db n)"
proof -
  obtain source where source: "readMutationSource db orgID nodeID = Inr source" "ms_exists source" "n = ms_node source"
    "digest = PrimaryDigest lib (ms_encoding source)"
    using assms(1) by (auto simp: GetForUpdate_def split: if_splits elim!: bindE_InrE)
  note exists = readMutationSource_exists [OF source(1,2) assms(2)]
  then show ?thesis using source(3,4) by (auto simp: stored_text_def node_key_def)
qed


lemma demo_update:
  "\<exists>db'. UpdateAtomicFrom sample_env sample_config sample_instants (Some sample_operation) 77 (PrimaryDigest demo_lib [0x7B])
      demo_node None fmempty [] None demo_db = Inr db'"
proof -
  have lib: "env_lib sample_env = demo_lib" by (simp add: sample_env_def)
  have n: "node_org demo_node = 1" "node_id demo_node = 4" "node_kind demo_node = ''task''" by (simp_all add: demo_node_def)
  have stored: "stored_text demo_db demo_node = [0x7B]"
    by (simp add: stored_text_def demo_db_def n json_object_def)
  have fence: "callFence sample_config 1 4 demo_db = Inr (False, fenced sample_config 1 4 demo_db)"
    by (rule sample_fence) (simp add: demo_db_def empty_db_def)
  obtain db1 where w: "writeNodeRecords sample_env demo_node None (fenced sample_config 1 4 demo_db) = Inr ([0x7B], db1)"
    by (simp add: writeNodeRecords_def marshal_node_def marshal_props_def demo_node_def absentNode_def time_json_ok_def sample_env_def
      json_object_def Let_def)
  have search: "\<not> cfg_search_work sample_config" by (simp add: sample_config_def)
  show ?thesis
    by (simp add: UpdateAtomicFrom_def updateAtomic_def demo_begin stored lib fence w n Let_def applyRelationshipChanges_def
      checkStrictWrite_def checkStrictRelationshipAdds_def checkStrictRecord_def checkStrictMutation_def schedule_update_def
      search record_change_def append_changes_def AppendChanges_def)
qed


lemma demo_set:
  "\<exists>db'. Set_node sample_env sample_config sample_instants (Some sample_operation) 77 demo_node None empty_db = Inr db'"
proof -
  have lib: "env_lib sample_env = demo_lib" "at_append sample_instants = 200" by (simp_all add: sample_env_def sample_instants_def)
  have n: "node_org demo_node = 1" "node_id demo_node = 4" "node_kind demo_node = ''task''" by (simp_all add: demo_node_def)
  have fence: "callFence sample_config 1 4 empty_db = Inr (False, fenced sample_config 1 4 empty_db)"
    by (rule sample_fence) (simp add: empty_db_def)
  obtain db1 where w: "writeNodeRecords sample_env demo_node None (fenced sample_config 1 4 empty_db) = Inr ([0x7B], db1)"
    by (simp add: writeNodeRecords_def marshal_node_def marshal_props_def demo_node_def absentNode_def time_json_ok_def sample_env_def
      json_object_def Let_def)
  have "validateTarget (nodeTarget demo_node)"
    by (simp add: validateTarget_def nodeTarget_def nodeIdentityTarget_def demo_node_def)
  then obtain c where c: "record_change sample_env (demo_audit 1) (nodeTarget demo_node) (stored_text (fenced sample_config 1 4 empty_db) demo_node)
      [0x7B] [] = Inr c"
    "list_all (\<lambda>c. ValidateChange demo_lib c \<and> chg_protected c = []) c" "length c \<le> 1"
    using demo_record [of "nodeTarget demo_node" "stored_text (fenced sample_config 1 4 empty_db) demo_node" "[0x7B]" "demo_audit 1" "[]"]
    by auto
  obtain db' where "append_changes sample_env (demo_audit 1) 200 (db1, c) = Inr db'"
    using demo_append [OF c(2), of 1 200 db1] c(3) by auto
  moreover have "\<not> cfg_search_work sample_config" by (simp add: sample_config_def)
  ultimately show ?thesis
    by (simp add: Set_node_def demo_begin n fence w c(1) lib Let_def checkStrictRecord_def checkStrictMutation_def schedule_content_def)
qed

end
