(* ===== verification/Subtree_Deletion.thy ===== *)
theory Subtree_Deletion
  imports Node_Store
begin

text \<open>
  The deletion of a node with its descendants as a durable job (\<open>node_delete_job.go\<close>,
  \<open>node_delete_step.go\<close>, \<open>node_delete_top.go\<close>, \<open>node_delete_move.go\<close>, \<open>node_delete_edges.go\<close>). Each step is
  one transaction that reads the job record, examines the node on top of its stack and writes the
  record back; direct children of the root move to the root's parent when their type allows it.
\<close>

section \<open>Jobs\<close>

text \<open>
  The encoded operation and the audit template of older records decode to an event; the empty text
  is an absent one.
\<close>

record subtree_delete_job =
  sj_id :: uuid
  sj_org :: uuid
  sj_root :: uuid
  sj_root_parent :: uuid
  sj_actor :: uuid
  sj_operation :: "audit_event encoded"
  sj_template :: "audit_event encoded"
  sj_stack :: "uuid list"
  sj_deleted :: int
  sj_moved :: int
  sj_updated_at :: timestamp
  sj_finished_at :: timestamp

definition Finished :: "subtree_delete_job \<Rightarrow> bool" where
  "Finished job \<longleftrightarrow> sj_finished_at job \<noteq> 0"

record subtree_progress =
  pg_deleted :: int
  pg_moved :: int
  pg_done :: bool

datatype subtree_state = SubtreeDeleteRunning | SubtreeDeleteFinished

definition job_state_of :: "subtree_delete_job \<Rightarrow> subtree_state" where
  "job_state_of job = (if Finished job then SubtreeDeleteFinished else SubtreeDeleteRunning)"

text \<open>
  The text of an encoded job, and the version and time of a UUID. The job records are a key family
  of their own beside the stored state.
\<close>

record job_env =
  je_env :: env
  je_text :: "subtree_delete_job \<Rightarrow> bytes"
  je_uuid_version :: "uuid \<Rightarrow> nat"
  je_uuid_time :: "uuid \<Rightarrow> timestamp"

type_synonym jobs = "(uuid, subtree_delete_job encoded) kv"

abbreviation je_lib :: "job_env \<Rightarrow> lib" where
  "je_lib je \<equiv> env_lib (je_env je)"

definition readDeleteJob :: "jobs \<Rightarrow> uuid \<Rightarrow> subtree_delete_job option result" where
  "readDeleteJob jobs jobID =
     (case kv_get jobs jobID of
        None \<Rightarrow> Inr None
      | Some e \<Rightarrow> (case enc_value e of None \<Rightarrow> Inl ErrDecode | Some job \<Rightarrow> Inr (Some job)))"

definition writeDeleteJob ::
  "job_env \<Rightarrow> subtree_delete_job \<Rightarrow> timestamp \<Rightarrow> jobs \<Rightarrow> (subtree_delete_job \<times> jobs) result" where
  "writeDeleteJob je job now jobs =
     (let job = job\<lparr>sj_updated_at := now\<rparr> in
      if time_json_ok now \<and> (sj_finished_at job = 0 \<or> time_json_ok (sj_finished_at job))
      then Inr (job, fmupd (sj_id job) (json_object (je_text je job) job) jobs)
      else Inl ErrInternal)"

definition SubtreeDelete :: "jobs \<Rightarrow> uuid \<Rightarrow> subtree_delete_job option result" where
  "SubtreeDelete jobs jobID = readDeleteJob jobs jobID"

definition ClearSubtreeDelete :: "jobs \<Rightarrow> uuid \<Rightarrow> jobs result" where
  "ClearSubtreeDelete jobs jobID =
     bindE (readDeleteJob jobs jobID) (\<lambda>stored.
     case stored of
       None \<Rightarrow> Inr jobs
     | Some job \<Rightarrow> if Finished job then Inr (fmdrop jobID jobs) else Inr jobs)"

definition maxSubtreeDeleteJobPage :: int where
  "maxSubtreeDeleteJobPage = 100"

definition SubtreeDeletes :: "jobs \<Rightarrow> uuid \<Rightarrow> int \<Rightarrow> subtree_delete_job list result" where
  "SubtreeDeletes jobs after limit =
     (if limit < 1 \<or> maxSubtreeDeleteJobPage < limit then Inl ErrInternal
      else mapE (\<lambda>(_, e). case decode e of None \<Rightarrow> Inl ErrDecode | Some job \<Rightarrow> Inr job)
        (take (nat limit) (kv_range (\<lambda>jobID. after = uuid_nil \<or> after < jobID) jobs)))"

section \<open>The audit operation of a job\<close>

definition operationEvent :: "job_env \<Rightarrow> actor \<Rightarrow> uuid \<Rightarrow> event_context \<Rightarrow> bytes \<Rightarrow> audit_event" where
  "operationEvent je actor operationID ctx extra =
     (let started = je_uuid_time je operationID;
          ctx = ctx\<lparr>ctx_operation := operationID, ctx_started_at := started\<rparr> in
      \<lparr>ev_verb = [], ev_id = uuid_nil, ev_actor = actor,
       ev_entity = \<lparr>ent_kind = [], ent_node_type = [], ent_id = uuid_nil, ent_identifier = [], ent_name = []\<rparr>,
       ev_context = ctx, ev_delta = None, ev_outcome = OutcomeOther [], ev_error = None, ev_idempotency_key = [],
       ev_occurred_at = started, ev_extra = extra, ev_protected = []\<rparr>)"

definition empty_context :: event_context where
  "empty_context =
     \<lparr>ctx_org = uuid_nil, ctx_workspace = uuid_nil, ctx_scope = uuid_nil, ctx_parent = uuid_nil, ctx_request = [],
      ctx_trace = [], ctx_source = ''system'', ctx_tool = [], ctx_rpc = [], ctx_reason = [], ctx_api_token = uuid_nil,
      ctx_commit_version = [], ctx_format_version = 0, ctx_operation_class = OperationOther [], ctx_phase = PhaseOther [],
      ctx_operation = uuid_nil, ctx_parent_operation = uuid_nil, ctx_started_at = 0, ctx_completed_at = 0,
      ctx_target = None, ctx_read = None, ctx_committed_steps = [], ctx_selection = None, ctx_http_method = [],
      ctx_request_path = []\<rparr>"

definition LegacyJobOperation :: "job_env \<Rightarrow> uuid \<Rightarrow> uuid \<Rightarrow> audit_event encoded \<Rightarrow> audit_event result" where
  "LegacyJobOperation je jobID actorID tmpl =
     (if je_uuid_version je jobID \<noteq> 7 then Inl ErrInternal
      else
        bindE (if enc_text tmpl = [] then
            Inr (\<lparr>act_type = ActorUser, act_id = actorID, act_email = [], act_name = [], act_session = [], act_ip = [],
              act_user_agent = [], act_request = [], act_token_label = []\<rparr>, empty_context)
          else (case enc_value tmpl of
             None \<Rightarrow> Inl ErrDecode
           | Some staged \<Rightarrow> Inr (ev_actor staged, empty_context\<lparr>ctx_source := ctx_source (ev_context staged),
               ctx_tool := ctx_tool (ev_context staged), ctx_request := ctx_request (ev_context staged),
               ctx_trace := ctx_trace (ev_context staged)\<rparr>))) (\<lambda>(actor, ctx).
        let operation = operationEvent je actor jobID ctx [] in
        Inr (operation\<lparr>ev_context := (ev_context operation)
          \<lparr>ctx_operation := lib_uuid_sha1 (je_lib je) jobID ''subtree-delete-operation''\<rparr>\<rparr>)))"

definition MarshalEvent :: "job_env \<Rightarrow> audit_event \<Rightarrow> audit_event encoded result" where
  "MarshalEvent je event =
     (case wire_event (env_wire (je_env je)) event of None \<Rightarrow> Inl ErrInternal | Some t \<Rightarrow> Inr (Enc t (Some event)))"

definition jobOperation :: "job_env \<Rightarrow> subtree_delete_job \<Rightarrow> audit_event result" where
  "jobOperation je job =
     bindE (if enc_text (sj_operation job) = [] then
         bindE (LegacyJobOperation je (sj_id job) (sj_actor job) (sj_template job)) (MarshalEvent je)
       else Inr (sj_operation job)) (\<lambda>encoded.
     case enc_value encoded of
       None \<Rightarrow> Inl ErrDecode
     | Some operation \<Rightarrow> if mutation_operation_ok operation then Inr operation else Inl ErrInternal)"

definition jobMutationAudit :: "lib \<Rightarrow> audit_event \<Rightarrow> uuid \<Rightarrow> uuid \<Rightarrow> mutation_audit" where
  "jobMutationAudit lib operation orgID jobID =
     \<lparr>ma_operation = operation\<lparr>ev_context := (ev_context operation)\<lparr>ctx_org := orgID\<rparr>\<rparr>,
      ma_base = lib_uuid_sha1 lib (ctx_operation (ev_context operation)) (''job:'' @ lib_uuid_string lib jobID)\<rparr>"

section \<open>Starting a job\<close>

definition readRootParent :: "db \<Rightarrow> uuid \<Rightarrow> uuid \<Rightarrow> uuid result" where
  "readRootParent db orgID rootID =
     (let edges = readDeleteEdges db orgID rootID RelChildOf False in
      if edges = [] \<or> maxDeleteEdgePage < length edges then Inr uuid_nil
      else bindE (HierarchyParent None (map de_target edges)) (\<lambda>parentID.
        bindE (readHierarchyNode db orgID parentID) (\<lambda>parent.
        Inr (if hn_found parent then parentID else uuid_nil))))"

definition StartSubtreeDelete ::
  "job_env \<Rightarrow> timestamp \<Rightarrow> audit_event option \<Rightarrow> subtree_delete_job \<Rightarrow> db \<times> jobs \<Rightarrow> (db \<times> jobs) result" where
  "StartSubtreeDelete je now operation job = (\<lambda>(db, jobs).
     case operation of
       None \<Rightarrow> Inl ErrInternal
     | Some op \<Rightarrow>
         if \<not> mutation_operation_ok op then Inl ErrInternal
         else bindE (MarshalEvent je op) (\<lambda>encoded.
           bindE (readRootParent db (sj_org job) (sj_root job)) (\<lambda>parentID.
           bindE (writeDeleteJob je (job\<lparr>sj_operation := encoded, sj_stack := [sj_root job], sj_deleted := 0, sj_moved := 0,
             sj_finished_at := 0, sj_root_parent := parentID\<rparr>) now jobs) (\<lambda>(_, jobs).
           Inr (db, jobs)))))"

section \<open>Moving a child\<close>

definition setProperty :: "props \<Rightarrow> string \<Rightarrow> raw \<Rightarrow> props" where
  "setProperty props name value = fmupd name value props"

definition delete_edge_rel :: "uuid \<Rightarrow> delete_edge \<Rightarrow> relationship" where
  "delete_edge_rel orgID edge = removed_edge orgID (de_source edge) (de_type edge) (de_target edge)"

definition parentEdgeChanges :: "subtree_delete_job \<Rightarrow> uuid \<Rightarrow> delete_edge list \<Rightarrow> timestamp \<Rightarrow> relationship_changes list" where
  "parentEdgeChanges job childID edges now =
     [\<lparr>rels_add = [\<lparr>rel_org = sj_org job, rel_source = childID, rel_type = RelChildOf, rel_target = sj_root_parent job,
         rel_created_by = sj_actor job, rel_created_at = now, rel_props = fmempty\<rparr>],
       rels_remove = map (delete_edge_rel (sj_org job)) edges\<rparr>]"

definition moveParentIndexEntry :: "node \<Rightarrow> raw \<Rightarrow> db \<Rightarrow> db" where
  "moveParentIndexEntry current oldValue db =
     (let oldKey = property_entry current parentIDName oldValue in
      if raw_empty oldValue \<or> oldKey |\<notin>| db_props db then db
      else db\<lparr>db_props := finsert (property_entry current parentIDName (prop_of (node_props current) parentIDName))
        (db_props db |-| {|oldKey|})\<rparr>)"

definition moved_record :: "lib \<Rightarrow> subtree_delete_job \<Rightarrow> timestamp \<Rightarrow> node \<Rightarrow> node" where
  "moved_record lib job now n =
     n\<lparr>node_props := setProperty (node_props n) parentIDName (quoted (lib_uuid_string lib (sj_root_parent job))),
       updated_at := now, updated_by := sj_actor job\<rparr>"

definition schedule_move ::
  "env \<Rightarrow> store_config \<Rightarrow> timestamp \<Rightarrow> uuid \<Rightarrow> uuid \<Rightarrow> relationship_changes list \<Rightarrow> db \<Rightarrow> db result" where
  "schedule_move env cfg now orgID nodeID changes db =
     (if cfg_search_work cfg
      then bindE (schedule_change env now orgID nodeID searchChangeContent db) (\<lambda>(_, db). schedule_related env now changes db)
      else Inr db)"

definition moveChild ::
  "env \<Rightarrow> store_config \<Rightarrow> instants \<Rightarrow> mutation_audit \<Rightarrow> subtree_delete_job \<Rightarrow> hierarchy_node \<Rightarrow> txn \<Rightarrow> (bool \<times> txn) result" where
  "moveChild env cfg at m job child = (\<lambda>(db, changes).
     if sj_root_parent job = uuid_nil then Inr (False, db, changes)
     else bindE (readHierarchyNode db (sj_org job) (sj_root_parent job)) (\<lambda>parent.
       if \<not> hn_found parent \<or> \<not> LivesUnder (hn_kind child) (hn_kind parent) then Inr (False, db, changes)
       else
         let edges = readDeleteEdges db (sj_org job) (hn_id child) RelChildOf False in
         if maxDeleteEdgePage < length edges then Inr (False, db, changes)
         else bindE (readNodeAndView db (sj_org job) child) (\<lambda>found.
           case found of
             None \<Rightarrow> Inr (False, db, changes)
           | Some (stored, view, source) \<Rightarrow>
               bindE (callFence cfg (sj_org job) (hn_id child) db) (\<lambda>(strict, db).
               let now = at_write at;
                   current = moved_record (env_lib env) job now stored;
                   edgeChanges = parentEdgeChanges job (hn_id child) edges now in
               bindE (writeNodeRecords env current (map_option (moved_record (env_lib env) job now) view) db) (\<lambda>(encoded, db).
               bindE (record_change env m (nodeTarget current) source encoded changes) (\<lambda>changes.
               bindE (applyRelationshipChanges env m edgeChanges
                 (moveParentIndexEntry current (prop_of (node_props stored) parentIDName) db, changes)) (\<lambda>(db, changes).
               bindE (checkStrictRecord (env_lib env) db strict current) (\<lambda>_.
               bindE (schedule_move env cfg now (sj_org job) (hn_id child) edgeChanges db) (\<lambda>db.
               Inr (True, db, changes))))))))))"

section \<open>One step\<close>

definition clearDeleteEdges ::
  "env \<Rightarrow> store_config \<Rightarrow> instants \<Rightarrow> mutation_audit \<Rightarrow> uuid \<Rightarrow> delete_edge list \<Rightarrow> txn \<Rightarrow> txn result" where
  "clearDeleteEdges env cfg at m orgID edges t =
     (let removed = map (delete_edge_rel orgID) edges in
      bindE (removeRelationships env m removed t) (\<lambda>(db, changes).
      if \<not> cfg_search_work cfg \<or> removed = [] then Inr (db, changes)
      else bindE (schedule_related env (at_schedule at) [\<lparr>rels_add = [], rels_remove = removed\<rparr>] db) (\<lambda>db.
        Inr (db, changes))))"

fun find_child ::
  "db \<Rightarrow> uuid \<Rightarrow> uuid list \<Rightarrow> uuid \<Rightarrow> (delete_edge \<times> hierarchy_node) list \<Rightarrow> delete_edge list \<Rightarrow>
    (hierarchy_node option \<times> delete_edge list) result" where
  "find_child db orgID stack topID [] others = Inr (None, others)"
| "find_child db orgID stack topID ((edge, source) # rest) others =
     bindE (if de_type edge = RelChildOf \<and> hn_found source \<and> hn_id source \<notin> set stack
            then hasHierarchyParent db orgID source topID else Inr False) (\<lambda>isChild.
     if isChild then Inr (Some source, others)
     else find_child db orgID stack topID rest (others @ [edge]))"

definition findHierarchyChild ::
  "db \<Rightarrow> subtree_delete_job \<Rightarrow> hierarchy_node \<Rightarrow> delete_edge list \<Rightarrow> (hierarchy_node option \<times> delete_edge list) result" where
  "findHierarchyChild db job topNode edges =
     bindE (readHierarchyNodes db (sj_org job) (map de_source edges)) (\<lambda>sources.
     find_child db (sj_org job) (sj_stack job) (hn_id topNode) (zip edges sources) [])"

definition takeChild ::
  "env \<Rightarrow> store_config \<Rightarrow> instants \<Rightarrow> mutation_audit \<Rightarrow> subtree_delete_job \<Rightarrow> hierarchy_node \<Rightarrow> txn \<Rightarrow>
    (subtree_delete_job \<times> txn) result" where
  "takeChild env cfg at m job child t =
     bindE (if length (sj_stack job) = 1 then moveChild env cfg at m job child t else Inr (False, t)) (\<lambda>(moved, t).
     if moved then Inr (job\<lparr>sj_moved := sj_moved job + 1\<rparr>, t)
     else Inr (job\<lparr>sj_stack := sj_stack job @ [hn_id child]\<rparr>, t))"

definition deleteTop ::
  "env \<Rightarrow> store_config \<Rightarrow> instants \<Rightarrow> mutation_audit \<Rightarrow> subtree_delete_job \<Rightarrow> hierarchy_node \<Rightarrow> txn \<Rightarrow>
    (subtree_delete_job \<times> txn) result" where
  "deleteTop env cfg at m job topNode = (\<lambda>(db, changes).
     bindE (case kv_get (db_nodes db) (sj_org job, hn_type_key topNode, hn_id topNode) of
         None \<Rightarrow> Inr \<lparr>node_id = hn_id topNode, node_org = sj_org job, node_kind = hn_type_key topNode, node_name = [],
           node_props = fmempty, created_by = uuid_nil, updated_by = uuid_nil,
           created_at = sj_updated_at job, updated_at = sj_updated_at job\<rparr>
       | Some e \<Rightarrow> (case enc_value e of None \<Rightarrow> Inl ErrDecode | Some n \<Rightarrow> Inr n)) (\<lambda>current.
     bindE (callFence cfg (sj_org job) (hn_id topNode) db) (\<lambda>(_, db).
     bindE (clearNode env cfg at m current (db, changes)) (\<lambda>t.
     Inr (job\<lparr>sj_stack := butlast (sj_stack job), sj_deleted := sj_deleted job + 1\<rparr>, t)))))"

text \<open>\<open>advance\<close> runs on a stack that is not empty; its last entry is the node to examine.\<close>

definition advance ::
  "env \<Rightarrow> store_config \<Rightarrow> instants \<Rightarrow> mutation_audit \<Rightarrow> subtree_delete_job \<Rightarrow> txn \<Rightarrow> (subtree_delete_job \<times> txn) result" where
  "advance env cfg at m job = (\<lambda>(db, changes).
     let topID = last (sj_stack job) in
     bindE (readHierarchyNode db (sj_org job) topID) (\<lambda>topNode.
     if \<not> hn_found topNode then Inr (job\<lparr>sj_stack := butlast (sj_stack job)\<rparr>, db, changes)
     else
       let incoming = readDeleteEdges db (sj_org job) topID [] True;
           outgoing = readDeleteEdges db (sj_org job) topID [] False in
       bindE (findHierarchyChild db job topNode (take maxDeleteEdgePage incoming)) (\<lambda>(child, others).
       case child of
         Some c \<Rightarrow>
           bindE (takeChild env cfg at m job c (db, changes)) (\<lambda>(job, t).
           bindE (clearDeleteEdges env cfg at m (sj_org job) others t) (\<lambda>t. Inr (job, t)))
       | None \<Rightarrow>
           if maxDeleteEdgePage < length incoming \<or> maxDeleteEdgePage < length outgoing
           then bindE (clearDeleteEdges env cfg at m (sj_org job) (others @ take maxDeleteEdgePage outgoing) (db, changes)) (\<lambda>t.
             Inr (job, t))
           else deleteTop env cfg at m job topNode (db, changes))))"

text \<open>The instant of the job record is read after the step.\<close>

definition DeleteSubtreeStep ::
  "job_env \<Rightarrow> store_config \<Rightarrow> instants \<Rightarrow> timestamp \<Rightarrow> uuid \<Rightarrow> db \<times> jobs \<Rightarrow> (subtree_progress \<times> db \<times> jobs) result" where
  "DeleteSubtreeStep je cfg at now jobID = (\<lambda>(db, jobs).
     bindE (readDeleteJob jobs jobID) (\<lambda>stored.
     case stored of
       None \<Rightarrow> Inr (\<lparr>pg_deleted = 0, pg_moved = 0, pg_done = True\<rparr>, db, jobs)
     | Some job \<Rightarrow>
         if Finished job then Inr (\<lparr>pg_deleted = sj_deleted job, pg_moved = sj_moved job, pg_done = True\<rparr>, db, jobs)
         else
           bindE (jobOperation je job) (\<lambda>operation.
           let m = jobMutationAudit (je_lib je) operation (sj_org job) (sj_id job) in
           bindE (if sj_stack job = [] then Inr (job, db, []) else advance (je_env je) cfg at m job (db, [])) (\<lambda>(job, db, changes).
           let finished = (sj_stack job = []);
               job = (if finished then job\<lparr>sj_finished_at := now\<rparr> else job) in
           bindE (writeDeleteJob je job now jobs) (\<lambda>(job, jobs).
           bindE (append_changes (je_env je) m (at_append at) (db, changes)) (\<lambda>db.
           Inr (\<lparr>pg_deleted = sj_deleted job, pg_moved = sj_moved job, pg_done = finished\<rparr>, db, jobs)))))))"

text \<open>
  The loop of \<open>runSubtreeDelete\<close> without a budget, for at most \<open>fuel\<close> steps: \<open>None\<close> when the fuel is used up, otherwise the error
  or the progress of the step that reported it was done. The instants of step \<open>i\<close> are \<open>ats i\<close>.
\<close>

fun run_job ::
  "job_env \<Rightarrow> store_config \<Rightarrow> (nat \<Rightarrow> instants) \<Rightarrow> (nat \<Rightarrow> timestamp) \<Rightarrow> uuid \<Rightarrow> nat \<Rightarrow> nat \<Rightarrow> db \<times> jobs \<Rightarrow>
    (subtree_progress \<times> db \<times> jobs) result option" where
  "run_job je cfg ats nows jobID i 0 s = None"
| "run_job je cfg ats nows jobID i (Suc fuel) s =
     (case DeleteSubtreeStep je cfg (ats i) (nows i) jobID s of
        Inl e \<Rightarrow> Some (Inl e)
      | Inr (progress, s') \<Rightarrow>
          if pg_done progress then Some (Inr (progress, s'))
          else run_job je cfg ats nows jobID (Suc i) fuel s')"

text \<open>\<open>startSubtreeDelete\<close> with a zero budget: the job is stored and then run until it reports done.\<close>

definition startSubtreeDelete ::
  "job_env \<Rightarrow> store_config \<Rightarrow> timestamp \<Rightarrow> (nat \<Rightarrow> instants) \<Rightarrow> (nat \<Rightarrow> timestamp) \<Rightarrow> audit_event option \<Rightarrow>
    uuid \<Rightarrow> uuid \<Rightarrow> uuid \<Rightarrow> uuid \<Rightarrow> nat \<Rightarrow> db \<times> jobs \<Rightarrow> (subtree_progress \<times> db \<times> jobs) result option" where
  "startSubtreeDelete je cfg now ats nows operation jobID orgID nodeID actorID fuel s =
     (case StartSubtreeDelete je now operation
         \<lparr>sj_id = jobID, sj_org = orgID, sj_root = nodeID, sj_root_parent = uuid_nil, sj_actor = actorID,
          sj_operation = Enc [] None, sj_template = Enc [] None, sj_stack = [], sj_deleted = 0, sj_moved = 0,
          sj_updated_at = 0, sj_finished_at = 0\<rparr> s of
        Inl e \<Rightarrow> Some (Inl e)
      | Inr s' \<Rightarrow> run_job je cfg ats nows jobID 0 fuel s')"

section \<open>Edges and resolutions\<close>

definition resolved_in :: "db \<Rightarrow> uuid \<Rightarrow> uuid set" where
  "resolved_in db orgID = {u. \<exists>e r. kv_get (db_resolves db) u = Some e \<and> enc_value e = Some r \<and> resolve_org r = orgID}"

definition edges_at :: "db \<Rightarrow> uuid \<Rightarrow> uuid set \<Rightarrow> (uuid \<times> uuid \<times> string \<times> uuid) set" where
  "edges_at db orgID nodes = {k. has_edge db k \<and> (\<exists>x \<in> nodes. edge_from orgID x k \<or> edge_to orgID x k)}"

lemma finite_resolved [simp]: "finite (resolved_in db orgID)"
proof (rule finite_subset)
  show "resolved_in db orgID \<subseteq> fset (fmdom (db_resolves db))"
    by (auto simp: resolved_in_def kv_get_def fmdomI split: option.splits if_splits)
qed simp

lemma finite_edges [simp]: "finite (edges_at db orgID nodes)"
proof (rule finite_subset)
  show "edges_at db orgID nodes \<subseteq> fset (fmdom (db_rels db))"
    by (auto simp only: edges_at_def has_edge_def fmlookup_dom_iff mem_Collect_eq)
qed simp

lemma readHierarchyNode_id: "readHierarchyNode db orgID nodeID = Inr hn \<Longrightarrow> hn_id hn = nodeID"
  by (auto simp: readHierarchyNode_def Let_def err_simps split: option.splits if_splits)

lemma readHierarchyNode_found:
  "readHierarchyNode db orgID nodeID = Inr hn \<Longrightarrow> hn_found hn \<Longrightarrow> nodeID \<in> resolved_in db orgID"
  by (auto simp: readHierarchyNode_def resolved_in_def Let_def err_simps split: option.splits if_splits)

lemma delete_edges_incoming:
  assumes "edge \<in> set (readDeleteEdges db orgID nodeID t True)" "rels_ok db"
  shows "has_edge db (orgID, de_source edge, de_type edge, nodeID) \<and> de_target edge = nodeID"
proof -
  obtain a b r s where e: "(a, b, r, s) \<in> set (incoming_range db orgID nodeID t)"
    "edge = \<lparr>de_source = s, de_type = r, de_target = nodeID\<rparr>"
    using assms(1) by (auto simp: readDeleteEdges_def dest!: in_set_takeD)
  then show ?thesis using rels_ok_reverse [OF assms(2), of "(a, b, r, s)"] by (auto simp: incoming_range_iff has_edge_def)
qed

lemma delete_edges_outgoing:
  assumes "edge \<in> set (readDeleteEdges db orgID nodeID t False)"
  shows "has_edge db (orgID, nodeID, de_type edge, de_target edge) \<and> de_source edge = nodeID"
proof -
  obtain a b r d e where "((a, b, r, d), e) \<in> set (outgoing_range db orgID nodeID t)"
    "edge = \<lparr>de_source = nodeID, de_type = r, de_target = d\<rparr>"
    using assms by (auto simp: readDeleteEdges_def dest!: in_set_takeD)
  then show ?thesis by (auto simp: outgoing_range_iff has_edge_def)
qed

definition edge_key :: "uuid \<Rightarrow> delete_edge \<Rightarrow> uuid \<times> uuid \<times> string \<times> uuid" where
  "edge_key orgID edge = (orgID, de_source edge, de_type edge, de_target edge)"

lemma rel_key_delete_edge [simp]: "rel_key (delete_edge_rel orgID edge) = edge_key orgID edge"
  by (simp add: rel_key_def delete_edge_rel_def removed_edge_def edge_key_def)

text \<open>Clearing a page of edges touches relationships and the search state alone.\<close>

lemma clearDeleteEdges_Inr:
  assumes "clearDeleteEdges env cfg at m orgID edges (db, cs) = Inr (db', cs')" "store_ok (env_lib env) db"
  shows "store_ok (env_lib env) db' \<and> db_nodes db' = db_nodes db \<and> db_resolves db' = db_resolves db \<and>
    (\<forall>k. has_edge db' k \<longleftrightarrow> k \<notin> edge_key orgID ` set edges \<and> has_edge db k)"
proof -
  let ?removed = "map (delete_edge_rel orgID) edges"
  obtain dbL csL where run: "removeRelationships env m ?removed (db, cs) = Inr (dbL, csL)"
    and rest: "(if \<not> cfg_search_work cfg \<or> ?removed = [] then Inr (dbL, csL)
      else bindE (schedule_related env (at_schedule at) [\<lparr>rels_add = [], rels_remove = ?removed\<rparr>] dbL) (\<lambda>db. Inr (db, csL))) =
      Inr (db', cs')"
    using assms(1) unfolding clearDeleteEdges_def Let_def by (auto elim!: bindE_InrE2)
  note ok = removeRelationships_ok [OF run store_okD(2) [OF assms(2)]]
  have keys: "rel_key ` set ?removed = edge_key orgID ` set edges" by (simp add: image_image)
  have edges: "has_edge dbL k \<longleftrightarrow> k \<notin> edge_key orgID ` set edges \<and> has_edge db k" for k
    using removeRelationships_lookup [OF run, of k] by (simp only: keys has_edge_def split: if_splits) auto
  have okL: "store_ok (env_lib env) dbL" using ok assms(2) by (blast intro: only_rels_store_ok)
  obtain s where s: "db' = dbL\<lparr>db_search := s\<rparr>" "search_ok (env_lib env) (db_search dbL) \<Longrightarrow> search_ok (env_lib env) s"
  proof -
    have "related_if \<lparr>cfg_search_work = cfg_search_work cfg \<and> ?removed \<noteq> [], cfg_write_fence = True\<rparr> env (at_schedule at)
        [\<lparr>rels_add = [], rels_remove = ?removed\<rparr>] dbL = Inr db'"
      using rest by (auto simp: related_if_def err_simps split: if_splits)
    then show thesis by (rule related_if_Inr) (rule that)
  qed
  show ?thesis
    using edges okL s store_okD(4) [OF okL] only_relsD [OF conjunct2 [OF ok]] by (simp add: store_ok_search has_edge_def)
qed

section \<open>A moved child\<close>

lemma moveParentIndexEntry_frame: "\<exists>p. moveParentIndexEntry n old db = db\<lparr>db_props := p\<rparr>"
proof -
  have "db = db\<lparr>db_props := db_props db\<rparr>" by simp
  then show ?thesis unfolding moveParentIndexEntry_def Let_def by metis
qed

lemma schedule_move_update: "schedule_move env cfg now orgID nodeID changes db = schedule_update env cfg now orgID nodeID changes db"
  by (simp add: schedule_move_def schedule_update_def)

lemmas schedule_move_Inr = schedule_update_Inr [folded schedule_move_update]

lemma moveChild_False:
  "moveChild env cfg at m job child (db, cs) = Inr (False, db', cs') \<Longrightarrow> db' = db \<and> cs' = cs"
  by (auto simp: moveChild_def Let_def split: if_splits option.splits elim!: bindE_InrE bindE_InrE2)

lemma moveChild_steps:
  assumes "moveChild env cfg at m job child (db, cs) = Inr (True, db', cs')"
  obtains parent stored view source strict encoded dbW cs1 dbR where
    "sj_root_parent job \<noteq> uuid_nil"
    "readHierarchyNode db (sj_org job) (sj_root_parent job) = Inr parent" "hn_found parent"
    "LivesUnder (hn_kind child) (hn_kind parent)"
    "length (readDeleteEdges db (sj_org job) (hn_id child) RelChildOf False) \<le> maxDeleteEdgePage"
    "readNodeAndView db (sj_org job) child = Inr (Some (stored, view, source))"
    "writeNodeRecords env (moved_record (env_lib env) job (at_write at) stored)
      (map_option (moved_record (env_lib env) job (at_write at)) view) (fenced cfg (sj_org job) (hn_id child) db) = Inr (encoded, dbW)"
    "applyRelationshipChanges env m (parentEdgeChanges job (hn_id child)
      (readDeleteEdges db (sj_org job) (hn_id child) RelChildOf False) (at_write at))
      (moveParentIndexEntry (moved_record (env_lib env) job (at_write at) stored) (prop_of (node_props stored) parentIDName) dbW, cs1) =
      Inr (dbR, cs')"
    "checkStrictRecord (env_lib env) dbR strict (moved_record (env_lib env) job (at_write at) stored) = Inr ()"
    "schedule_move env cfg (at_write at) (sj_org job) (hn_id child) (parentEdgeChanges job (hn_id child)
      (readDeleteEdges db (sj_org job) (hn_id child) RelChildOf False) (at_write at)) dbR = Inr db'"
proof -
  let ?edges = "readDeleteEdges db (sj_org job) (hn_id child) RelChildOf False"
  note run = assms [unfolded moveChild_def prod.case Let_def]
  have p: "sj_root_parent job \<noteq> uuid_nil" using run by (auto split: if_splits)
  note run = run [unfolded if_not_P [OF p]]
  obtain parent where 1: "readHierarchyNode db (sj_org job) (sj_root_parent job) = Inr parent"
    by (rule bindE_InrE [OF run]) (rule that)
  note run = run [unfolded 1 bindE_Inr]
  have live: "\<not> (\<not> hn_found parent \<or> \<not> LivesUnder (hn_kind child) (hn_kind parent))" using run by (auto split: if_splits)
  note run = run [unfolded if_not_P [OF live]]
  have few: "\<not> maxDeleteEdgePage < length ?edges" using run by (auto split: if_splits)
  note run = run [unfolded if_not_P [OF few]]
  obtain found where 2: "readNodeAndView db (sj_org job) child = Inr found"
    by (rule bindE_InrE [OF run]) (rule that)
  note run = run [unfolded 2 bindE_Inr]
  obtain stored view source where found: "found = Some (stored, view, source)" using run by (cases found) auto
  note run = run [unfolded found option.case prod.case]
  obtain strict dbF where 3: "callFence cfg (sj_org job) (hn_id child) db = Inr (strict, dbF)"
    by (rule bindE_InrE2 [OF run]) (rule that)
  have fence: "dbF = fenced cfg (sj_org job) (hn_id child) db" using callFence_Inr [OF 3] by blast
  note run = run [unfolded 3 bindE_Inr prod.case]
  obtain encoded dbW where 4: "writeNodeRecords env (moved_record (env_lib env) job (at_write at) stored)
      (map_option (moved_record (env_lib env) job (at_write at)) view) dbF = Inr (encoded, dbW)"
    by (rule bindE_InrE2 [OF run]) (rule that)
  note run = run [unfolded 4 bindE_Inr prod.case]
  obtain cs1 where 5: "record_change env m (nodeTarget (moved_record (env_lib env) job (at_write at) stored)) source encoded cs = Inr cs1"
    by (rule bindE_InrE [OF run]) (rule that)
  note run = run [unfolded 5 bindE_Inr]
  obtain dbR cs2 where 6: "applyRelationshipChanges env m (parentEdgeChanges job (hn_id child) ?edges (at_write at))
      (moveParentIndexEntry (moved_record (env_lib env) job (at_write at) stored) (prop_of (node_props stored) parentIDName) dbW, cs1) =
      Inr (dbR, cs2)"
    by (rule bindE_InrE2 [OF run]) (rule that)
  note run = run [unfolded 6 bindE_Inr prod.case]
  have 7: "checkStrictRecord (env_lib env) dbR strict (moved_record (env_lib env) job (at_write at) stored) = Inr ()"
    by (rule bindE_InrE [OF run]) simp
  note run = run [unfolded 7 bindE_Inr]
  obtain dbS where 8: "schedule_move env cfg (at_write at) (sj_org job) (hn_id child) (parentEdgeChanges job (hn_id child)
      ?edges (at_write at)) dbR = Inr dbS"
    by (rule bindE_InrE [OF run]) (rule that)
  have eq: "dbS = db'" "cs2 = cs'" using run [unfolded 8 bindE_Inr] by simp_all
  show thesis
    by (rule that [OF p 1 _ _ _ 2 [unfolded found] 4 [unfolded fence] 6 [unfolded eq] 7 8 [unfolded eq]])
      (use live few in auto)
qed

lemma readNodeAndView_source:
  assumes "readNodeAndView db orgID hn = Inr (Some (stored, view, source))"
    and "readHierarchyNode db orgID nodeID = Inr hn" "hn_found hn"
  shows "readMutationSource db orgID nodeID =
    Inr \<lparr>ms_exists = True, ms_kind = hn_type_key hn, ms_encoding = source, ms_node = stored\<rparr>"
proof -
  obtain e r where e: "kv_get (db_resolves db) nodeID = Some e" "enc_value e = Some r" "resolve_org r = orgID"
    "hn_type_key hn = resolve_kind r" "hn_id hn = nodeID"
    using assms(2,3) by (auto simp: readHierarchyNode_def Let_def err_simps split: option.splits if_splits)
  obtain n where "kv_get (db_nodes db) (orgID, hn_type_key hn, hn_id hn) = Some n" "enc_value n = Some stored" "source = enc_text n"
    using assms(1) by (auto simp: readNodeAndView_def split: option.splits)
  then show ?thesis using e by (simp add: readMutationSource_def)
qed

lemma moved_record_simps [simp]:
  "node_id (moved_record lib job now n) = node_id n" "node_org (moved_record lib job now n) = node_org n"
  "node_kind (moved_record lib job now n) = node_kind n"
  "node_props (moved_record lib job now n) = fmupd parentIDName (quoted (lib_uuid_string lib (sj_root_parent job))) (node_props n)"
  by (simp_all add: moved_record_def setProperty_def)

lemma moveChild_edges:
  assumes "applyRelationshipChanges env m (parentEdgeChanges job childID edges now) (db, cs) = Inr (db', cs')"
    and "edges = readDeleteEdges db0 (sj_org job) childID RelChildOf False" "length edges \<le> maxDeleteEdgePage"
    and "db_rels db = db_rels db0"
  shows "has_edge db' k \<longleftrightarrow> k = (sj_org job, childID, RelChildOf, sj_root_parent job) \<or>
    (has_edge db0 k \<and> (\<forall>x. k \<noteq> (sj_org job, childID, RelChildOf, x)))"
proof -
  let ?c = "\<lparr>rels_add = [\<lparr>rel_org = sj_org job, rel_source = childID, rel_type = RelChildOf, rel_target = sj_root_parent job,
         rel_created_by = sj_actor job, rel_created_at = now, rel_props = fmempty\<rparr>],
       rels_remove = map (delete_edge_rel (sj_org job)) edges\<rparr>"
  have "apply_change_set env m ?c (db, cs) = Inr (db', cs')"
    using assms(1) by (auto simp: applyRelationshipChanges_def parentEdgeChanges_def err_simps)
  note set = apply_change_set_edges [OF this, of k, unfolded fst_conv]
  have removed: "k \<in> rel_key ` set (rels_remove ?c) \<longleftrightarrow> has_edge db0 k \<and> (\<exists>x. k = (sj_org job, childID, RelChildOf, x))"
  proof -
    have "k \<in> rel_key ` set (rels_remove ?c) \<longleftrightarrow> k \<in> edge_key (sj_org job) ` set edges" by (simp add: image_image)
    also have "\<dots> \<longleftrightarrow> (\<exists>x \<in> set (map de_target edges). k = (sj_org job, childID, RelChildOf, x))"
    proof -
      have "edge_key (sj_org job) e = (sj_org job, childID, RelChildOf, de_target e)" if "e \<in> set edges" for e
        using that assms(2) by (auto simp: edge_key_def readDeleteEdges_def outgoing_range_iff dest!: in_set_takeD)
      then show ?thesis by (auto simp: image_iff)
    qed
    also have "set (map de_target edges) = {x. has_edge db0 (sj_org job, childID, RelChildOf, x)}"
      unfolding assms(2) by (rule child_of_targets(3)) (use assms(2,3) in simp)
    finally show ?thesis by auto
  qed
  have "has_edge db k = has_edge db0 k" by (simp add: has_edge_def assms(4))
  then show ?thesis using set removed by (auto simp: rel_key_def)
qed

definition moved_to :: "lib \<Rightarrow> uuid \<Rightarrow> uuid \<Rightarrow> uuid \<Rightarrow> db \<Rightarrow> db \<Rightarrow> bool" where
  "moved_to lib orgID childID parentID db db' \<longleftrightarrow>
     (\<forall>k. has_edge db' k \<longleftrightarrow> k = (orgID, childID, RelChildOf, parentID) \<or>
        (has_edge db k \<and> (\<forall>x. k \<noteq> (orgID, childID, RelChildOf, x)))) \<and>
     resolved_in db' orgID = resolved_in db orgID \<and>
     (\<exists>s. readMutationSource db' orgID childID = Inr s \<and> ms_exists s \<and> parent_in lib s = parentID) \<and>
     (\<exists>s. readMutationSource db orgID childID = Inr s \<and> ms_exists s) \<and>
     (\<forall>o' u. (o', u) \<noteq> (orgID, childID) \<longrightarrow> readMutationSource db' o' u = readMutationSource db o' u)"

lemma moveChild_True:
  assumes "moveChild env cfg at m job child (db, cs) = Inr (True, db', cs')"
    and "readHierarchyNode db (sj_org job) childID = Inr child" "hn_found child"
    and "store_ok (env_lib env) db" "uuid_law (env_lib env)"
  shows "store_ok (env_lib env) db' \<and> moved_to (env_lib env) (sj_org job) childID (sj_root_parent job) db db'"
proof -
  let ?lib = "env_lib env" and ?o = "sj_org job" and ?p = "sj_root_parent job"
  have id: "hn_id child = childID" using readHierarchyNode_id [OF assms(2)] .
  let ?f = "fenced cfg ?o childID db" and ?edges = "readDeleteEdges db ?o childID RelChildOf False"
  obtain parent stored view source strict encoded dbW cs1 dbR where
    s: "?p \<noteq> uuid_nil" "readHierarchyNode db ?o ?p = Inr parent" "hn_found parent"
    "LivesUnder (hn_kind child) (hn_kind parent)" "length ?edges \<le> maxDeleteEdgePage"
    "readNodeAndView db ?o child = Inr (Some (stored, view, source))"
    "writeNodeRecords env (moved_record ?lib job (at_write at) stored)
      (map_option (moved_record ?lib job (at_write at)) view) ?f = Inr (encoded, dbW)"
    "applyRelationshipChanges env m (parentEdgeChanges job childID ?edges (at_write at))
      (moveParentIndexEntry (moved_record ?lib job (at_write at) stored) (prop_of (node_props stored) parentIDName) dbW, cs1) =
      Inr (dbR, cs')"
    "schedule_move env cfg (at_write at) ?o childID (parentEdgeChanges job childID ?edges (at_write at)) dbR = Inr db'"
    by (rule moveChild_steps [OF assms(1), unfolded id]) (rule that)
  let ?n = "moved_record ?lib job (at_write at) stored"
  note ok = store_okD [OF assms(4)]
  note src = readNodeAndView_source [OF s(6) assms(2,3)]
  have key: "node_org stored = ?o" "node_id stored = childID" "node_kind stored = hn_type_key child"
    using readMutationSource_exists(1) [OF src _ ok(1)] by (simp_all add: node_key_def)
  obtain e where w: "marshal_node (env_node_text env) ?n = Inr e" "encoded = enc_text e" "only_nodes ?f dbW"
    by (rule writeNodeRecords_Inr [OF s(7)]) (rule that)
  note keepW = only_nodesD [OF w(3)]
  obtain p where p: "moveParentIndexEntry ?n (prop_of (node_props stored) parentIDName) dbW = dbW\<lparr>db_props := p\<rparr>"
    using moveParentIndexEntry_frame by blast
  have okW: "store_ok ?lib dbW"
    using writeNodeRecords_ok [OF s(7)] ok nodes_ok_cong [of ?f db] rels_ok_cong [of dbW db] refs_ok_cong [of dbW db ?lib] keepW
    by (simp add: store_ok_def)
  have rels: "rels_ok dbR \<and> only_rels (dbW\<lparr>db_props := p\<rparr>) dbR"
    using applyRelationshipChanges_ok [OF s(8) [unfolded p]] store_okD(2) [OF okW] rels_ok_cong [of "dbW\<lparr>db_props := p\<rparr>" dbW] by simp
  have okR: "store_ok ?lib dbR"
    using only_rels_store_ok [OF conjunct2 [OF rels] conjunct1 [OF rels]] okW by simp
  obtain z where z: "db' = dbR\<lparr>db_search := z\<rparr>" "search_ok ?lib (db_search dbR) \<Longrightarrow> search_ok ?lib z"
    by (rule schedule_move_Inr [OF s(9)]) (rule that)
  have ok': "store_ok ?lib db'" unfolding z(1) by (rule store_ok_search) (use okR z(2) store_okD(4) in blast)+
  note keepR = only_relsD [OF conjunct2 [OF rels]]
  have sameF: "readMutationSource ?f = readMutationSource db" by (rule readMutationSource_cong) simp_all
  have "readMutationSource db' = readMutationSource dbW" by (rule readMutationSource_cong) (simp_all add: z(1) keepR)
  then have read: "readMutationSource db' o' u = (if u = childID then (if o' = ?o
      then Inr \<lparr>ms_exists = True, ms_kind = hn_type_key child, ms_encoding = encoded,
        ms_node = ?n\<lparr>node_props := fmmap raw_stored (node_props ?n)\<rparr>\<rparr> else Inr absent_source)
      else readMutationSource db o' u)" for o' u
    using readMutationSource_write [OF s(7), of o' u] by (simp add: key sameF)
  have other: "readMutationSource db o' childID = Inr absent_source" if "o' \<noteq> ?o" for o'
    by (rule readMutationSource_resolve [OF src]) (use that in \<open>auto simp: readMutationSource_def\<close>)
  have "fmpred (\<lambda>_. raw_ok) (node_props ?n)" using w(1) by (auto simp: marshal_node_def marshal_props_def err_simps split: if_splits)
  then have par: "parent_in ?lib \<lparr>ms_exists = True, ms_kind = hn_type_key child, ms_encoding = encoded,
      ms_node = ?n\<lparr>node_props := fmmap raw_stored (node_props ?n)\<rparr>\<rparr> = ?p"
    using prop_of_fmmap_raw_stored [OF assms(5), of "node_props ?n" parentIDName]
    by (simp add: parent_in_def prop_of_fmupd quoted_UUID [OF assms(5)])
  have edges: "has_edge db' k \<longleftrightarrow> k = (?o, childID, RelChildOf, ?p) \<or> (has_edge db k \<and> (\<forall>x. k \<noteq> (?o, childID, RelChildOf, x)))" for k
    using moveChild_edges [OF s(8) [unfolded p] refl s(5), of k] by (simp add: keepW z(1) has_edge_def)
  have "childID \<in> resolved_in db ?o" by (rule readHierarchyNode_found [OF assms(2,3)])
  moreover have "db_resolves db' = fmupd childID (json_object
       (env_resolve_text env \<lparr>resolve_org = ?o, resolve_kind = hn_type_key child\<rparr>)
       \<lparr>resolve_org = ?o, resolve_kind = hn_type_key child\<rparr>) (db_resolves db)"
  proof -
    have "db_resolves db' = db_resolves dbW" by (simp add: z(1) keepR)
    also have "\<dots> = fmupd (node_id ?n) (json_object (env_resolve_text env \<lparr>resolve_org = node_org ?n, resolve_kind = node_kind ?n\<rparr>)
       \<lparr>resolve_org = node_org ?n, resolve_kind = node_kind ?n\<rparr>) (db_resolves ?f)"
      by (rule writeNodeRecords_Inr [OF s(7)]) assumption
    finally show ?thesis by (simp add: key)
  qed
  ultimately have "resolved_in db' ?o = resolved_in db ?o"
    by (auto simp: resolved_in_def kv_get_fmupd split: if_splits)
  then show ?thesis using ok' edges read other par src unfolding moved_to_def by auto
qed

section \<open>What one step does\<close>

lemma find_child_Some:
  "find_child db orgID stack topID xs others0 = Inr (Some c, others) \<Longrightarrow>
    (\<exists>edge. (edge, c) \<in> set xs \<and> de_type edge = RelChildOf \<and> hn_found c \<and> hn_id c \<notin> set stack) \<and>
    set others \<subseteq> set others0 \<union> fst ` set xs"
proof (induction xs arbitrary: others0)
  case (Cons x xs)
  obtain edge source where x: "x = (edge, source)" by (cases x)
  obtain isChild where child: "(if de_type edge = RelChildOf \<and> hn_found source \<and> hn_id source \<notin> set stack
      then hasHierarchyParent db orgID source topID else Inr False) = Inr isChild"
    and rest: "(if isChild then Inr (Some source, others0) else find_child db orgID stack topID xs (others0 @ [edge])) = Inr (Some c, others)"
    using Cons.prems unfolding x find_child.simps by (auto elim!: bindE_InrE)
  show ?case
  proof (cases isChild)
    case True
    then show ?thesis using child rest by (auto simp: x split: if_splits)
  next
    case False
    then show ?thesis using Cons.IH [of "others0 @ [edge]"] rest by (auto simp: x)
  qed
qed simp

lemma find_child_None:
  "find_child db orgID stack topID xs others0 = Inr (None, others) \<Longrightarrow> others = others0 @ map fst xs"
proof (induction xs arbitrary: others0)
  case (Cons x xs)
  obtain edge source where x: "x = (edge, source)" by (cases x)
  have "find_child db orgID stack topID xs (others0 @ [edge]) = Inr (None, others)"
    using Cons.prems unfolding x by (auto split: if_splits elim!: bindE_InrE)
  then show ?case using Cons.IH [of "others0 @ [edge]"] by (simp add: x)
qed simp

lemma findHierarchyChild_Some:
  assumes "findHierarchyChild db job topNode edges = Inr (Some c, others)"
  shows "\<exists>edge \<in> set edges. de_type edge = RelChildOf \<and> readHierarchyNode db (sj_org job) (de_source edge) = Inr c \<and>
      hn_found c \<and> de_source edge \<notin> set (sj_stack job)" "set others \<subseteq> set edges"
proof -
  obtain sources where s: "mapE (readHierarchyNode db (sj_org job)) (map de_source edges) = Inr sources"
    "find_child db (sj_org job) (sj_stack job) (hn_id topNode) (zip edges sources) [] = Inr (Some c, others)"
    using assms by (auto simp: findHierarchyChild_def readHierarchyNodes_def elim!: bindE_InrE)
  note f = find_child_Some [OF s(2)]
  then obtain edge where e: "(edge, c) \<in> set (zip edges sources)" "de_type edge = RelChildOf" "hn_found c" "hn_id c \<notin> set (sj_stack job)"
    by blast
  obtain i where i: "i < length edges" "i < length sources" "edges ! i = edge" "sources ! i = c"
    using e(1) by (auto simp: set_zip)
  have "readHierarchyNode db (sj_org job) (de_source edge) = Inr c"
    using mapE_nth [OF s(1), of i] i by simp
  then show "\<exists>edge \<in> set edges. de_type edge = RelChildOf \<and> readHierarchyNode db (sj_org job) (de_source edge) = Inr c \<and>
      hn_found c \<and> de_source edge \<notin> set (sj_stack job)"
    using e i(1,3) readHierarchyNode_id by (intro bexI [of _ edge]) auto
  have "fst ` set (zip edges sources) \<subseteq> set edges" by (auto dest: set_zip_leftD)
  then show "set others \<subseteq> set edges" using f by auto
qed

lemma findHierarchyChild_None:
  assumes "findHierarchyChild db job topNode edges = Inr (None, others)"
  shows "others = edges"
proof -
  obtain sources where s: "mapE (readHierarchyNode db (sj_org job)) (map de_source edges) = Inr sources"
    "find_child db (sj_org job) (sj_stack job) (hn_id topNode) (zip edges sources) [] = Inr (None, others)"
    using assms by (auto simp: findHierarchyChild_def readHierarchyNodes_def elim!: bindE_InrE)
  then show ?thesis using find_child_None [OF s(2)] mapE_length [OF s(1)] by simp
qed

definition step_edges :: "db \<Rightarrow> subtree_delete_job \<Rightarrow> delete_edge list \<Rightarrow> bool" where
  "step_edges db job edges \<longleftrightarrow>
     (\<forall>edge \<in> set edges. has_edge db (edge_key (sj_org job) edge) \<and>
        (de_source edge = last (sj_stack job) \<or> de_target edge = last (sj_stack job)))"

text \<open>The outcomes of a step that does not fail.\<close>

lemma advance_cases:
  assumes "advance env cfg at m job (db, cs) = Inr (job', db', cs')" "store_ok (env_lib env) db"
  obtains (gone) "last (sj_stack job) \<notin> resolved_in db (sj_org job)" "job' = job\<lparr>sj_stack := butlast (sj_stack job)\<rparr>" "db' = db"
  | (moved) childID child dbM csM others where "readHierarchyNode db (sj_org job) childID = Inr child" "hn_found child"
      "childID \<notin> set (sj_stack job)" "has_edge db (sj_org job, childID, RelChildOf, last (sj_stack job))"
      "length (sj_stack job) = 1" "moveChild env cfg at m job child (db, cs) = Inr (True, dbM, csM)"
      "clearDeleteEdges env cfg at m (sj_org job) others (dbM, csM) = Inr (db', cs')"
      "job' = job\<lparr>sj_moved := sj_moved job + 1\<rparr>"
  | (pushed) childID others where "childID \<in> resolved_in db (sj_org job)" "childID \<notin> set (sj_stack job)"
      "clearDeleteEdges env cfg at m (sj_org job) others (db, cs) = Inr (db', cs')"
      "job' = job\<lparr>sj_stack := sj_stack job @ [childID]\<rparr>"
  | (page) edges where "edges \<noteq> []" "step_edges db job edges"
      "clearDeleteEdges env cfg at m (sj_org job) edges (db, cs) = Inr (db', cs')" "job' = job"
  | (deleted) topNode where "readHierarchyNode db (sj_org job) (last (sj_stack job)) = Inr topNode" "hn_found topNode"
      "deleteTop env cfg at m job topNode (db, cs) = Inr (job', db', cs')"
proof -
  let ?o = "sj_org job" and ?top = "last (sj_stack job)"
  let ?in = "readDeleteEdges db ?o ?top [] True" and ?out = "readDeleteEdges db ?o ?top [] False"
  note run = assms(1) [unfolded advance_def prod.case Let_def]
  obtain topNode where top: "readHierarchyNode db ?o ?top = Inr topNode"
    by (rule bindE_InrE [OF run]) (rule that)
  note run = run [unfolded top bindE_Inr]
  show thesis
  proof (cases "hn_found topNode")
    case False
    then have "?top \<notin> resolved_in db ?o"
      using top by (auto simp: readHierarchyNode_def resolved_in_def Let_def err_simps)
    then show thesis using gone run False by simp
  next
    case True
    have not_gone: "\<not> \<not> hn_found topNode" using True by simp
    note run = run [unfolded if_not_P [OF not_gone]]
    have inE: "has_edge db (edge_key ?o e) \<and> de_target e = ?top" if "e \<in> set ?in" for e
      using delete_edges_incoming [OF that store_okD(2) [OF assms(2)]] by (simp add: edge_key_def)
    have outE: "has_edge db (edge_key ?o e) \<and> de_source e = ?top" if "e \<in> set ?out" for e
      using delete_edges_outgoing [OF that] by (simp add: edge_key_def)
    obtain found others where child: "findHierarchyChild db job topNode (take maxDeleteEdgePage ?in) = Inr (found, others)"
      by (rule bindE_InrE2 [OF run]) (rule that)
    note run = run [unfolded child bindE_Inr prod.case]
    show thesis
    proof (cases found)
      case (Some c)
      note run = run [unfolded Some option.case]
      obtain jobT dbT csT where take: "takeChild env cfg at m job c (db, cs) = Inr (jobT, dbT, csT)"
        by (rule bindE_InrE3 [OF run]) (rule that)
      note run = run [unfolded take bindE_Inr prod.case]
      obtain dbC csC where clear: "clearDeleteEdges env cfg at m (sj_org jobT) others (dbT, csT) = Inr (dbC, csC)"
        by (rule bindE_InrE2 [OF run]) (rule that)
      have eq: "jobT = job'" "dbC = db'" "csC = cs'" using run [unfolded clear bindE_Inr] by simp_all
      obtain edge where edge: "edge \<in> set (take maxDeleteEdgePage ?in)" "de_type edge = RelChildOf"
        "readHierarchyNode db ?o (de_source edge) = Inr c" "hn_found c" "de_source edge \<notin> set (sj_stack job)"
        using findHierarchyChild_Some(1) [OF child [unfolded Some]] by blast
      have has: "has_edge db (?o, de_source edge, RelChildOf, ?top)"
        using inE [OF in_set_takeD [OF edge(1)]] edge(2) by (auto simp: edge_key_def)
      obtain b t where mv: "(if length (sj_stack job) = 1 then moveChild env cfg at m job c (db, cs) else Inr (False, db, cs)) = Inr (b, t)"
        by (rule bindE_InrE2 [OF take [unfolded takeChild_def]]) (rule that)
      note res = take [unfolded takeChild_def mv bindE_Inr prod.case]
      show thesis
      proof (cases b)
        case True
        have job: "job' = job\<lparr>sj_moved := sj_moved job + 1\<rparr>" "t = (dbT, csT)" using res True eq(1) by auto
        have mv': "length (sj_stack job) = 1" "moveChild env cfg at m job c (db, cs) = Inr (True, dbT, csT)"
          using mv True job(2) by (auto split: if_splits)
        show thesis by (rule moved [OF edge(3,4,5) has mv']) (use clear eq job(1) in auto)
      next
        case False
        have job: "job' = job\<lparr>sj_stack := sj_stack job @ [de_source edge]\<rparr>" "t = (dbT, csT)"
          using res False eq(1) readHierarchyNode_id [OF edge(3)] by auto
        have "dbT = db \<and> csT = cs" using mv False job(2) moveChild_False by (auto split: if_splits)
        then show thesis
          using pushed [OF readHierarchyNode_found [OF edge(3,4)] edge(5)] clear eq job(1) by auto
      qed
    next
      case None
      note run = run [unfolded None option.case]
      have others: "others = take maxDeleteEdgePage ?in" using findHierarchyChild_None child None by blast
      show thesis
      proof (cases "maxDeleteEdgePage < length ?in \<or> maxDeleteEdgePage < length ?out")
        case True
        let ?page = "others @ take maxDeleteEdgePage ?out"
        have ne: "?page \<noteq> []" using True by (auto simp: others maxDeleteEdgePage_def)
        have se: "step_edges db job ?page" using inE outE by (auto simp: step_edges_def others dest!: in_set_takeD)
        show thesis using page [OF ne se] run [unfolded if_P [OF True]] by (auto elim!: bindE_InrE2)
      next
        case False
        show thesis using deleted [OF top \<open>hn_found topNode\<close>] run [unfolded if_not_P [OF False]] by blast
      qed
    qed
  qed
qed

lemma deleteTop_Inr:
  assumes "deleteTop env cfg at m job topNode (db, cs) = Inr (job', db', cs')"
    and "readHierarchyNode db (sj_org job) topID = Inr topNode" "hn_found topNode"
    and "store_ok (env_lib env) db" "uuid_law (env_lib env)"
  shows "store_ok (env_lib env) db' \<and> resolved_in db' (sj_org job) = resolved_in db (sj_org job) - {topID} \<and>
    (\<forall>k. has_edge db' k \<longleftrightarrow> has_edge db k \<and> \<not> edge_from (sj_org job) topID k \<and> \<not> edge_to (sj_org job) topID k) \<and>
    (\<forall>o' u. readMutationSource db' o' u = (if u = topID then Inr absent_source else readMutationSource db o' u)) \<and>
    job' = job\<lparr>sj_stack := butlast (sj_stack job), sj_deleted := sj_deleted job + 1\<rparr>"
proof -
  let ?o = "sj_org job"
  have id: "hn_id topNode = topID" using readHierarchyNode_id [OF assms(2)] .
  note ok = store_okD [OF assms(4)]
  note run = assms(1) [unfolded deleteTop_def prod.case]
  obtain current where 1: "(case kv_get (db_nodes db) (?o, hn_type_key topNode, hn_id topNode) of
         None \<Rightarrow> Inr \<lparr>node_id = hn_id topNode, node_org = ?o, node_kind = hn_type_key topNode, node_name = [],
           node_props = fmempty, created_by = uuid_nil, updated_by = uuid_nil,
           created_at = sj_updated_at job, updated_at = sj_updated_at job\<rparr>
       | Some e \<Rightarrow> (case enc_value e of None \<Rightarrow> Inl ErrDecode | Some n \<Rightarrow> Inr n)) = Inr current"
    by (rule bindE_InrE [OF run]) (rule that)
  note run = run [unfolded 1 bindE_Inr]
  obtain strict dbF where 2: "callFence cfg ?o (hn_id topNode) db = Inr (strict, dbF)"
    by (rule bindE_InrE2 [OF run]) (rule that)
  have fence: "dbF = fenced cfg ?o topID db" using callFence_Inr [OF 2] id by blast
  note run = run [unfolded 2 bindE_Inr prod.case]
  obtain dbL csL where 3: "clearNode env cfg at m current (dbF, cs) = Inr (dbL, csL)"
    by (rule bindE_InrE2 [OF run]) (rule that)
  have eq: "dbL = db'" "job' = job\<lparr>sj_stack := butlast (sj_stack job), sj_deleted := sj_deleted job + 1\<rparr>"
    using run [unfolded 3 bindE_Inr] by simp_all
  have key: "node_org current = ?o \<and> node_id current = topID"
  proof (cases "kv_get (db_nodes db) (?o, hn_type_key topNode, hn_id topNode)")
    case None
    then have "current = \<lparr>node_id = hn_id topNode, node_org = ?o, node_kind = hn_type_key topNode, node_name = [],
      node_props = fmempty, created_by = uuid_nil, updated_by = uuid_nil,
      created_at = sj_updated_at job, updated_at = sj_updated_at job\<rparr>" using 1 by simp
    then show ?thesis using id by simp
  next
    case (Some e)
    then have "fmlookup (db_nodes db) (?o, hn_type_key topNode, hn_id topNode) = Some e" by (simp add: kv_get_Some)
    moreover have "enc_value e = Some current" using 1 [unfolded Some option.case] by (simp split: option.splits)
    ultimately show ?thesis using nodes_ok_node [OF ok(1)] id by (fastforce simp: node_key_def decode_Some)
  qed
  have okF: "store_ok (env_lib env) dbF" using assms(4) by (simp add: fence)
  note cleared = clearNode_Inr [OF 3 store_okD(2) [OF okF], unfolded conjunct1 [OF key] conjunct2 [OF key]]
  have "resolved_in db' ?o = resolved_in db ?o - {topID}"
  proof -
    have "db_resolves db' = fmdrop topID (db_resolves db)" using cleared key eq(1) by (simp add: cleared_frame_def fence)
    then show ?thesis by (auto simp: resolved_in_def kv_get_fmdrop)
  qed
  moreover have "readMutationSource dbF = readMutationSource db" by (rule readMutationSource_cong) (simp_all add: fence)
  then have "readMutationSource db' o' u = (if u = topID then Inr absent_source else readMutationSource db o' u)" for o' u
    using cleared_source [OF conjunct1 [OF cleared], of o' u] key eq(1) by simp
  moreover have "has_edge db' k \<longleftrightarrow> has_edge db k \<and> \<not> edge_from ?o topID k \<and> \<not> edge_to ?o topID k" for k
    using cleared eq(1) by (auto simp: has_edge_def fence)
  ultimately show ?thesis using clearNode_store_ok [OF 3 okF assms(5)] eq by simp
qed

definition same_job :: "subtree_delete_job \<Rightarrow> subtree_delete_job \<Rightarrow> bool" where
  "same_job job job' \<longleftrightarrow> sj_id job' = sj_id job \<and> sj_org job' = sj_org job \<and> sj_root job' = sj_root job \<and>
     sj_root_parent job' = sj_root_parent job"

text \<open>
  The first entry of the stack is the root, and the root is not its own parent. The second part is
  needed: a root with a \<open>child_of\<close> edge to itself has itself as the destination of its children.
\<close>

definition job_ok :: "subtree_delete_job \<Rightarrow> bool" where
  "job_ok job \<longleftrightarrow> (sj_stack job \<noteq> [] \<longrightarrow> hd (sj_stack job) = sj_root job) \<and>
     (sj_root_parent job = uuid_nil \<or> sj_root_parent job \<noteq> sj_root job)"

text \<open>
  The order in which steps descend: nodes of the organisation, then nodes that are not on the stack,
  then edges at the nodes on the stack, then the stack.
\<close>

definition job_order :: "((db \<times> subtree_delete_job) \<times> (db \<times> subtree_delete_job)) set" where
  "job_order = measures [
     \<lambda>(db, job). card (resolved_in db (sj_org job)),
     \<lambda>(db, job). card (resolved_in db (sj_org job) - set (sj_stack job)),
     \<lambda>(db, job). card (edges_at db (sj_org job) (set (sj_stack job))),
     \<lambda>(db, job). length (sj_stack job)]"

lemma wf_job_order: "wf job_order"
  by (simp add: job_order_def)

lemma card_edges_less:
  assumes "\<And>k. has_edge db' k \<Longrightarrow> (\<exists>x \<in> nodes. edge_from orgID x k \<or> edge_to orgID x k) \<Longrightarrow> has_edge db k"
    and "has_edge db k0" "\<not> has_edge db' k0" "x \<in> nodes" "edge_from orgID x k0 \<or> edge_to orgID x k0"
  shows "card (edges_at db' orgID nodes) < card (edges_at db orgID nodes)"
proof (rule psubset_card_mono)
  show "edges_at db' orgID nodes \<subset> edges_at db orgID nodes"
    using assms unfolding edges_at_def psubset_eq by blast
qed simp

lemma resolved_in_cong: "db_resolves db' = db_resolves db \<Longrightarrow> resolved_in db' = resolved_in db"
  by (simp add: resolved_in_def fun_eq_iff)

lemma job_ok_butlast:
  assumes "job_ok job" "sj_stack job' = butlast (sj_stack job)" "same_job job job'"
  shows "job_ok job'"
  using assms by (cases "sj_stack job" rule: rev_cases) (auto simp: job_ok_def same_job_def hd_append)

lemma edges_at_mono: "nodes \<subseteq> nodes' \<Longrightarrow> card (edges_at db orgID nodes) \<le> card (edges_at db orgID nodes')"
  by (rule card_mono) (simp, auto simp: edges_at_def)

lemma last_stack:
  assumes "job_ok job" "sj_stack job \<noteq> []" "butlast (sj_stack job) = []"
  shows "last (sj_stack job) = sj_root job"
  using assms by (cases "sj_stack job" rule: rev_cases) (auto simp: job_ok_def)

lemma gone_order:
  assumes "last (sj_stack job) \<notin> resolved_in db (sj_org job)" "sj_stack job \<noteq> []"
  shows "((db, job\<lparr>sj_stack := butlast (sj_stack job)\<rparr>), (db, job)) \<in> job_order"
proof -
  have "set (sj_stack job) = insert (last (sj_stack job)) (set (butlast (sj_stack job)))"
    using assms(2) by (cases "sj_stack job" rule: rev_cases) auto
  then have "resolved_in db (sj_org job) - set (sj_stack job) = resolved_in db (sj_org job) - set (butlast (sj_stack job))"
    using assms(1) by auto
  moreover have "card (edges_at db (sj_org job) (set (butlast (sj_stack job)))) \<le> card (edges_at db (sj_org job) (set (sj_stack job)))"
    by (rule edges_at_mono) (auto dest: in_set_butlastD)
  ultimately show ?thesis using assms(2) by (auto simp: job_order_def)
qed

lemma moved_order:
  assumes "moved_to lib (sj_org job) childID (sj_root_parent job) db dbM" "sj_stack job = [sj_root job]"
    and "has_edge db (sj_org job, childID, RelChildOf, sj_root job)" "childID \<noteq> sj_root job" "sj_root_parent job \<noteq> sj_root job"
    and "\<And>k. has_edge db' k \<Longrightarrow> has_edge dbM k" "db_resolves db' = db_resolves dbM"
  shows "((db', job\<lparr>sj_moved := n\<rparr>), (db, job)) \<in> job_order"
proof -
  note to = assms(1) [unfolded moved_to_def]
  have "resolved_in db' (sj_org job) = resolved_in db (sj_org job)"
    using to resolved_in_cong [OF assms(7)] by simp
  moreover have "card (edges_at db' (sj_org job) {sj_root job}) < card (edges_at db (sj_org job) {sj_root job})"
  proof (rule card_edges_less [of db' _ "sj_org job" db "(sj_org job, childID, RelChildOf, sj_root job)" "sj_root job"])
    show "has_edge db k" if "has_edge db' k" "\<exists>x \<in> {sj_root job}. edge_from (sj_org job) x k \<or> edge_to (sj_org job) x k" for k
      using that(2) assms(4,5) assms(6) [OF that(1)] conjunct1 [OF to] by (cases k) auto
    show "\<not> has_edge db' (sj_org job, childID, RelChildOf, sj_root job)" using assms(5,6) to by fastforce
  qed (use assms(3) in auto)
  ultimately show ?thesis using assms(2) by (simp add: job_order_def)
qed

lemma pushed_order:
  assumes "childID \<in> resolved_in db (sj_org job)" "childID \<notin> set (sj_stack job)" "db_resolves db' = db_resolves db"
  shows "((db', job\<lparr>sj_stack := sj_stack job @ [childID]\<rparr>), (db, job)) \<in> job_order"
proof -
  have "card (resolved_in db (sj_org job) - insert childID (set (sj_stack job))) < card (resolved_in db (sj_org job) - set (sj_stack job))"
    by (rule psubset_card_mono) (use assms in auto)
  then show ?thesis using resolved_in_cong [OF assms(3)] by (simp add: job_order_def)
qed

lemma page_order:
  assumes "edges \<noteq> []" "step_edges db job edges" "sj_stack job \<noteq> []" "db_resolves db' = db_resolves db"
    and "\<And>k. has_edge db' k \<longleftrightarrow> k \<notin> edge_key (sj_org job) ` set edges \<and> has_edge db k"
  shows "((db', job), (db, job)) \<in> job_order"
proof -
  obtain e where e: "e \<in> set edges" using assms(1) by (cases edges) auto
  have "card (edges_at db' (sj_org job) (set (sj_stack job))) < card (edges_at db (sj_org job) (set (sj_stack job)))"
    by (rule card_edges_less [of db' _ _ db "edge_key (sj_org job) e" "last (sj_stack job)"])
      (use e assms(2,3,5) in \<open>auto simp: step_edges_def edge_key_def\<close>)
  then show ?thesis using resolved_in_cong [OF assms(4)] by (simp add: job_order_def)
qed

lemma deleted_order:
  assumes "resolved_in db' (sj_org job) = resolved_in db (sj_org job) - {topID}" "topID \<in> resolved_in db (sj_org job)"
    and "sj_org job' = sj_org job"
  shows "((db', job'), (db, job)) \<in> job_order"
proof -
  have "card (resolved_in db' (sj_org job)) < card (resolved_in db (sj_org job))"
    by (rule psubset_card_mono) (use assms in auto)
  then show ?thesis using assms(3) by (simp add: job_order_def)
qed

lemma advance_step:
  assumes "advance env cfg at m job (db, cs) = Inr (job', db', cs')" "sj_stack job \<noteq> []" "job_ok job"
    and "store_ok (env_lib env) db" "uuid_law (env_lib env)"
  shows "((db', job'), (db, job)) \<in> job_order \<and> store_ok (env_lib env) db' \<and> job_ok job' \<and> same_job job job' \<and>
    (sj_stack job' = [] \<longrightarrow> sj_root job \<notin> resolved_in db' (sj_org job))"
  using assms(1,4)
proof (cases rule: advance_cases)
  case gone
  have same: "same_job job job'" by (simp add: gone same_job_def)
  show ?thesis
    using gone gone_order [OF gone(1) assms(2)] same job_ok_butlast [OF assms(3) _ same] assms(4) last_stack [OF assms(3,2)] by auto
next
  case (moved childID child dbM csM others)
  have stack: "sj_stack job = [sj_root job]"
    using moved(5) assms(3) by (cases "sj_stack job") (auto simp: job_ok_def)
  note to = moveChild_True [OF moved(6,1,2) assms(4,5)]
  have parent: "sj_root_parent job \<noteq> sj_root job"
    using moved(6) assms(3) by (auto simp: moveChild_def job_ok_def)
  note clear = clearDeleteEdges_Inr [OF moved(7) conjunct1 [OF to]]
  have "((db', job'), (db, job)) \<in> job_order"
    unfolding moved(8)
    by (rule moved_order [OF conjunct2 [OF to] stack]) (use moved(3,4) stack parent clear in auto)
  then show ?thesis using clear assms(3) by (simp add: moved(8) same_job_def job_ok_def stack)
next
  case (pushed childID others)
  note clear = clearDeleteEdges_Inr [OF pushed(3) assms(4)]
  show ?thesis
    using pushed_order [OF pushed(1,2), of db'] clear assms(2,3) by (simp add: pushed(4) same_job_def job_ok_def hd_append)
next
  case (page edges)
  note clear = clearDeleteEdges_Inr [OF page(3) assms(4)]
  show ?thesis
    using page_order [OF page(1,2) assms(2), of db'] clear assms(2,3) by (simp add: page(4) same_job_def)
next
  case (deleted topNode)
  note del = deleteTop_Inr [OF deleted(3,1,2) assms(4,5)]
  have same: "same_job job job'" using del by (simp add: same_job_def)
  show ?thesis
    using del deleted_order [of db' job db "last (sj_stack job)" job'] readHierarchyNode_found [OF deleted(1,2)] same
      job_ok_butlast [OF assms(3) _ same] last_stack [OF assms(3,2)] by auto
qed

text \<open>A step that is not the last one leaves a job that the next step takes up.\<close>

definition job_at :: "lib \<Rightarrow> uuid \<Rightarrow> db \<times> jobs \<Rightarrow> subtree_delete_job \<Rightarrow> bool" where
  "job_at lib jobID s job \<longleftrightarrow> readDeleteJob (snd s) jobID = Inr (Some job) \<and> sj_id job = jobID \<and> job_ok job \<and>
     store_ok lib (fst s)"

definition running :: "subtree_delete_job \<Rightarrow> bool" where
  "running job \<longleftrightarrow> \<not> Finished job \<and> sj_stack job \<noteq> []"

lemma writeDeleteJob_Inr:
  assumes "writeDeleteJob je job now jobs = Inr (job', jobs')"
  shows "job' = job\<lparr>sj_updated_at := now\<rparr> \<and> readDeleteJob jobs' (sj_id job) = Inr (Some job')"
  using assms by (auto simp: writeDeleteJob_def readDeleteJob_def kv_get_def Let_def split: if_splits)

lemma job_order_times:
  "((db, job\<lparr>sj_updated_at := t\<rparr>), x) \<in> job_order \<longleftrightarrow> ((db, job), x) \<in> job_order"
  "((db, job\<lparr>sj_finished_at := t\<rparr>), x) \<in> job_order \<longleftrightarrow> ((db, job), x) \<in> job_order"
  "((db\<lparr>db_outbox := w\<rparr>, job), x) \<in> job_order \<longleftrightarrow> ((db, job), x) \<in> job_order"
  by (simp_all add: job_order_def resolved_in_def edges_at_def has_edge_def)

lemma resolved_in_outbox [simp]: "resolved_in (db\<lparr>db_outbox := w\<rparr>) orgID = resolved_in db orgID"
  by (simp add: resolved_in_def)

lemma deleteTop_job:
  "deleteTop env cfg at m job topNode (db, cs) = Inr (job', t) \<Longrightarrow>
    job' = job\<lparr>sj_stack := butlast (sj_stack job), sj_deleted := sj_deleted job + 1\<rparr>"
  by (auto simp: deleteTop_def elim!: bindE_InrE bindE_InrE2)

lemma advance_finished_at:
  assumes "advance env cfg at m job (db, cs) = Inr (job', db', cs')" "store_ok (env_lib env) db"
  shows "sj_finished_at job' = sj_finished_at job"
  using assms by (cases rule: advance_cases) (auto dest: deleteTop_job)

lemma DeleteSubtreeStep_advance:
  assumes "DeleteSubtreeStep je cfg at now jobID (db, jobs) = Inr (progress, db', jobs')"
    and "readDeleteJob jobs jobID = Inr (Some job)" "running job"
  obtains m job1 db1 cs w where "advance (je_env je) cfg at m job (db, []) = Inr (job1, db1, cs)"
    "writeDeleteJob je (if sj_stack job1 = [] then job1\<lparr>sj_finished_at := now\<rparr> else job1) now jobs =
      Inr ((if sj_stack job1 = [] then job1\<lparr>sj_finished_at := now\<rparr> else job1)\<lparr>sj_updated_at := now\<rparr>, jobs')"
    "db' = db1\<lparr>db_outbox := db_outbox db1 @ w\<rparr>"
    "progress = \<lparr>pg_deleted = sj_deleted job1, pg_moved = sj_moved job1, pg_done = (sj_stack job1 = [])\<rparr>"
proof -
  have live: "\<not> Finished job" "sj_stack job \<noteq> []" using assms(3) by (simp_all add: running_def)
  note run = assms(1) [unfolded DeleteSubtreeStep_def prod.case assms(2) bindE_Inr option.case if_not_P [OF live(1)] if_not_P [OF live(2)] Let_def]
  obtain operation where 1: "jobOperation je job = Inr operation" by (rule bindE_InrE [OF run]) (rule that)
  note run = run [unfolded 1 bindE_Inr]
  let ?m = "jobMutationAudit (je_lib je) operation (sj_org job) (sj_id job)"
  obtain job1 db1 cs where 2: "advance (je_env je) cfg at ?m job (db, []) = Inr (job1, db1, cs)"
    by (rule bindE_InrE3 [OF run]) (rule that)
  note run = run [unfolded 2 bindE_Inr prod.case]
  let ?job = "if sj_stack job1 = [] then job1\<lparr>sj_finished_at := now\<rparr> else job1"
  obtain job2 jobs2 where 3: "writeDeleteJob je ?job now jobs = Inr (job2, jobs2)" by (rule bindE_InrE2 [OF run]) (rule that)
  note run = run [unfolded 3 bindE_Inr prod.case]
  obtain db2 where 4: "append_changes (je_env je) ?m (at_append at) (db1, cs) = Inr db2" by (rule bindE_InrE [OF run]) (rule that)
  note run = run [unfolded 4 bindE_Inr]
  have job2: "job2 = ?job\<lparr>sj_updated_at := now\<rparr>" using writeDeleteJob_Inr [OF 3] by blast
  obtain w where w: "db2 = db1\<lparr>db_outbox := db_outbox db1 @ w\<rparr>" by (rule append_changes_Inr [OF 4]) (rule that)
  show thesis
    by (rule that [OF 2 _ _, of w]) (use run w 3 job2 in \<open>auto split: if_splits\<close>)
qed

lemma DeleteSubtreeStep_Inr:
  assumes "DeleteSubtreeStep je cfg at now jobID (db, jobs) = Inr (progress, db', jobs')"
    and "job_at (je_lib je) jobID (db, jobs) job" "running job" "uuid_law (je_lib je)" "now \<noteq> 0"
  shows "\<exists>job'. job_at (je_lib je) jobID (db', jobs') job' \<and> same_job job job' \<and> ((db', job'), (db, job)) \<in> job_order \<and>
    Finished job' = pg_done progress \<and> (sj_stack job' = []) = pg_done progress \<and>
    pg_deleted progress = sj_deleted job' \<and> pg_moved progress = sj_moved job' \<and>
    (pg_done progress \<longrightarrow> sj_root job \<notin> resolved_in db' (sj_org job))"
proof -
  note start = assms(2) [unfolded job_at_def fst_conv snd_conv]
  obtain m job1 db1 cs w where s: "advance (je_env je) cfg at m job (db, []) = Inr (job1, db1, cs)"
    "writeDeleteJob je (if sj_stack job1 = [] then job1\<lparr>sj_finished_at := now\<rparr> else job1) now jobs =
      Inr ((if sj_stack job1 = [] then job1\<lparr>sj_finished_at := now\<rparr> else job1)\<lparr>sj_updated_at := now\<rparr>, jobs')"
    "db' = db1\<lparr>db_outbox := db_outbox db1 @ w\<rparr>"
    "progress = \<lparr>pg_deleted = sj_deleted job1, pg_moved = sj_moved job1, pg_done = (sj_stack job1 = [])\<rparr>"
    by (rule DeleteSubtreeStep_advance [OF assms(1) conjunct1 [OF start] assms(3)]) (rule that)
  have "store_ok (je_lib je) db" "job_ok job" "sj_stack job \<noteq> []" using start assms(3) by (simp_all add: running_def)
  note step = advance_step [OF s(1) this(3,2,1) assms(4)]
  have unfinished: "\<not> Finished job1"
    using advance_finished_at [OF s(1)] start assms(3) by (simp add: Finished_def running_def)
  define job' where "job' = (if sj_stack job1 = [] then job1\<lparr>sj_finished_at := now\<rparr> else job1)\<lparr>sj_updated_at := now\<rparr>"
  have read: "readDeleteJob jobs' jobID = Inr (Some job')"
    using writeDeleteJob_Inr [OF s(2)] step start by (simp add: job'_def same_job_def split: if_splits)
  have fields: "sj_stack job' = sj_stack job1" "same_job job1 job'" "sj_deleted job' = sj_deleted job1" "sj_moved job' = sj_moved job1"
    "job_ok job' = job_ok job1" "Finished job' \<longleftrightarrow> sj_stack job1 = []"
    using unfinished assms(5) by (simp_all add: job'_def same_job_def job_ok_def Finished_def)
  have order: "((db', job'), (db, job)) \<in> job_order" using step by (simp add: job'_def s(3) job_order_times)
  show ?thesis
    by (rule exI [of _ job'])
      (use read fields order step start in \<open>simp add: job_at_def same_job_def running_def s(3,4)\<close>)
qed

section \<open>A job ends\<close>

definition job_done :: "lib \<Rightarrow> uuid \<Rightarrow> uuid \<Rightarrow> uuid \<Rightarrow> subtree_progress \<times> db \<times> jobs \<Rightarrow> bool" where
  "job_done lib jobID orgID rootID = (\<lambda>(progress, db, jobs).
     pg_done progress \<and> store_ok lib db \<and> rootID \<notin> resolved_in db orgID \<and>
     (\<exists>job. readDeleteJob jobs jobID = Inr (Some job) \<and> Finished job \<and> sj_stack job = [] \<and>
        pg_deleted progress = sj_deleted job \<and> pg_moved progress = sj_moved job))"

lemma run_job_terminates:
  assumes "job_at (je_lib je) jobID (db, jobs) job" "running job" "uuid_law (je_lib je)" "\<And>j. nows j \<noteq> 0"
  shows "\<exists>fuel r. run_job je cfg ats nows jobID i fuel (db, jobs) = Some r \<and>
    (\<forall>result. r = Inr result \<longrightarrow> job_done (je_lib je) jobID (sj_org job) (sj_root job) result)"
  using assms(1,2)
proof (induction "(db, job)" arbitrary: db job jobs i rule: wf_induct_rule [OF wf_job_order])
  case (1 db job jobs i)
  show ?case
  proof (cases "DeleteSubtreeStep je cfg (ats i) (nows i) jobID (db, jobs)")
    case (Inl e)
    then have "run_job je cfg ats nows jobID i (Suc 0) (db, jobs) = Some (Inl e)" by simp
    then show ?thesis by blast
  next
    case (Inr x)
    obtain progress db' jobs' where x: "x = (progress, db', jobs')" by (cases x)
    note run = Inr [unfolded x]
    obtain job' where step: "job_at (je_lib je) jobID (db', jobs') job'" "same_job job job'" "((db', job'), (db, job)) \<in> job_order"
      "Finished job' = pg_done progress" "(sj_stack job' = []) = pg_done progress"
      "pg_deleted progress = sj_deleted job'" "pg_moved progress = sj_moved job'"
      "pg_done progress \<longrightarrow> sj_root job \<notin> resolved_in db' (sj_org job)"
      using DeleteSubtreeStep_Inr [OF run 1(2,3) assms(3,4)] by (elim exE conjE) (rule that)
    show ?thesis
    proof (cases "pg_done progress")
      case True
      then have "run_job je cfg ats nows jobID i (Suc 0) (db, jobs) = Some (Inr x)" by (simp add: run x)
      moreover have "job_done (je_lib je) jobID (sj_org job) (sj_root job) x"
        using step True by (auto simp: job_done_def x job_at_def)
      ultimately show ?thesis by blast
    next
      case False
      have live: "running job'" using step(4,5) False by (simp add: running_def)
      obtain fuel r where ih: "run_job je cfg ats nows jobID (Suc i) fuel (db', jobs') = Some r"
        "\<forall>result. r = Inr result \<longrightarrow> job_done (je_lib je) jobID (sj_org job') (sj_root job') result"
        using 1(1) [OF step(3) step(1) live, of "Suc i"] by blast
      have "run_job je cfg ats nows jobID i (Suc fuel) (db, jobs) = Some r" using False ih(1) by (simp add: run)
      moreover have "sj_org job' = sj_org job" "sj_root job' = sj_root job" using step(2) by (simp_all add: same_job_def)
      ultimately show ?thesis using ih(2) by metis
    qed
  qed
qed

lemma hierarchy_parent_loop_mem: "hierarchy_parent_loop q ts = Inr p \<Longrightarrow> p = q \<or> p \<in> set ts"
  by (induction ts arbitrary: q) (auto split: if_splits)

lemma readRootParent_not_self:
  assumes "readRootParent db orgID rootID = Inr parentID" "\<not> has_edge db (orgID, rootID, RelChildOf, rootID)"
  shows "parentID = uuid_nil \<or> parentID \<noteq> rootID"
proof (rule disjCI)
  assume "\<not> parentID \<noteq> rootID"
  show "parentID = uuid_nil"
  proof (rule ccontr)
    assume nonnil: "parentID \<noteq> uuid_nil"
    let ?ts = "map de_target (readDeleteEdges db orgID rootID RelChildOf False)"
    have "HierarchyParent None ?ts = Inr parentID"
      using assms(1) nonnil by (auto simp: readRootParent_def Let_def split: if_splits elim!: bindE_InrE)
    then have "parentID \<in> set ?ts"
      using nonnil hierarchy_parent_loop_mem [of uuid_nil ?ts parentID] by (auto simp: HierarchyParent_def elim!: bindE_InrE)
    then show False using child_of_targets(1) [of db orgID rootID] assms(2) \<open>\<not> parentID \<noteq> rootID\<close> by auto
  qed
qed

lemma StartSubtreeDelete_Inr:
  assumes "StartSubtreeDelete je now operation job (db, jobs) = Inr (db', jobs')" "store_ok (je_lib je) db"
    and "\<not> has_edge db (sj_org job, sj_root job, RelChildOf, sj_root job)"
  shows "db' = db \<and> (\<exists>job'. job_at (je_lib je) (sj_id job) (db', jobs') job' \<and> running job' \<and> sj_org job' = sj_org job \<and>
    sj_root job' = sj_root job)"
proof -
  obtain op where op: "operation = Some op" using assms(1) by (cases operation) (simp_all add: StartSubtreeDelete_def)
  have ok: "\<not> \<not> mutation_operation_ok op" using assms(1) by (auto simp: StartSubtreeDelete_def op split: if_splits)
  note run = assms(1) [unfolded StartSubtreeDelete_def prod.case op option.case if_not_P [OF ok]]
  obtain encoded where 1: "MarshalEvent je op = Inr encoded" by (rule bindE_InrE [OF run]) (rule that)
  note run = run [unfolded 1 bindE_Inr]
  obtain parentID where 2: "readRootParent db (sj_org job) (sj_root job) = Inr parentID" by (rule bindE_InrE [OF run]) (rule that)
  note run = run [unfolded 2 bindE_Inr]
  obtain job1 jobs1 where 3: "writeDeleteJob je (job\<lparr>sj_operation := encoded, sj_stack := [sj_root job], sj_deleted := 0, sj_moved := 0,
             sj_finished_at := 0, sj_root_parent := parentID\<rparr>) now jobs = Inr (job1, jobs1)"
    by (rule bindE_InrE2 [OF run]) (rule that)
  have "db' = db" "jobs' = jobs1" using run [unfolded 3] by simp_all
  then show ?thesis
    using writeDeleteJob_Inr [OF 3] readRootParent_not_self [OF 2 assms(3)] assms(2)
    by (auto simp: job_at_def running_def job_ok_def Finished_def)
qed

text \<open>
  C9: A deletion of a node with its descendants ends. From every well-formed state in which the
  root is not a \<open>child_of\<close> itself, starting the job and running its steps reaches, after finitely many
  steps, either an error or a step that reports done; in the second case the job record is finished
  with an empty stack and the reported counts, the root no longer resolves in its organisation and
  the state is well-formed. No other transaction runs between the steps.
\<close>

theorem startSubtreeDelete_terminates:
  assumes "store_ok (je_lib je) db" "uuid_law (je_lib je)" "\<not> has_edge db (orgID, nodeID, RelChildOf, nodeID)"
    and "\<And>i. nows i \<noteq> 0"
  shows "\<exists>fuel r. startSubtreeDelete je cfg now ats nows operation jobID orgID nodeID actorID fuel (db, jobs) = Some r \<and>
    (\<forall>result. r = Inr result \<longrightarrow> job_done (je_lib je) jobID orgID nodeID result)"
proof -
  let ?job = "\<lparr>sj_id = jobID, sj_org = orgID, sj_root = nodeID, sj_root_parent = uuid_nil, sj_actor = actorID,
          sj_operation = Enc [] None, sj_template = Enc [] None, sj_stack = [], sj_deleted = 0, sj_moved = 0,
          sj_updated_at = 0, sj_finished_at = 0\<rparr>"
  show ?thesis
  proof (cases "StartSubtreeDelete je now operation ?job (db, jobs)")
    case (Inl e)
    then show ?thesis by (simp add: startSubtreeDelete_def)
  next
    case (Inr s)
    obtain db' jobs' where s: "s = (db', jobs')" by (cases s)
    obtain job' where job': "job_at (je_lib je) jobID (db', jobs') job'" "running job'" "sj_org job' = orgID" "sj_root job' = nodeID"
      using StartSubtreeDelete_Inr [OF Inr [unfolded s] assms(1)] assms(3) by auto
    show ?thesis
      using run_job_terminates [OF job'(1,2) assms(2,4), where cfg = cfg and ats = ats and i = 0] job'(3,4) Inr by (simp add: startSubtreeDelete_def s)
  qed
qed

definition sample_jobs :: job_env where
  "sample_jobs = \<lparr>je_env = sample_env, je_text = (\<lambda>_. []), je_uuid_version = (\<lambda>_. 7), je_uuid_time = (\<lambda>_. 100)\<rparr>"

lemma je_lib_sample [simp]: "je_lib sample_jobs = demo_lib" "je_env sample_jobs = sample_env"
  by (simp_all add: sample_jobs_def sample_env_def)

lemma sample_run:
  "\<exists>result. startSubtreeDelete sample_jobs sample_config 100 (\<lambda>_. sample_instants) (\<lambda>i. 100 + int i) (Some sample_operation)
      77 1 9 3 1 (demo_db, fmempty) = Some (Inr result)"
proof -
  have op: "mutation_operation_ok sample_operation"
    by (simp add: mutation_operation_ok_def sample_operation_def)
  have marshal: "MarshalEvent sample_jobs sample_operation = Inr (Enc [7] (Some sample_operation))"
    by (simp add: MarshalEvent_def sample_env_def sample_wire_def)
  have parent: "readRootParent demo_db 1 9 = Inr uuid_nil"
    by (simp add: readRootParent_def readDeleteEdges_def outgoing_range_def demo_db_def empty_db_def kv_range_def)
  have absent: "readHierarchyNode demo_db 1 9 = Inr hn \<Longrightarrow> \<not> hn_found hn" for hn
    using readHierarchyNode_found [of demo_db 1 9 hn] by (auto simp: resolved_in_def demo_db_def kv_get_def)
  have "\<exists>hn. readHierarchyNode demo_db 1 9 = Inr hn"
    by (simp add: readHierarchyNode_def demo_db_def kv_get_def Let_def)
  then obtain hn where hn: "readHierarchyNode demo_db 1 9 = Inr hn" "\<not> hn_found hn" using absent by blast
  show ?thesis
    by (simp add: startSubtreeDelete_def StartSubtreeDelete_def op marshal parent writeDeleteJob_def Let_def time_json_ok_def
      DeleteSubtreeStep_def readDeleteJob_def kv_get_def Finished_def jobOperation_def advance_def hn
      append_changes_def AppendChanges_def)
qed

theorem startSubtreeDelete_terminates_witness:
  "\<exists>fuel r. startSubtreeDelete sample_jobs sample_config 100 (\<lambda>_. sample_instants) (\<lambda>i. 100 + int i) (Some sample_operation)
      77 1 4 3 fuel (demo_db, fmempty) = Some r \<and> (\<forall>result. r = Inr result \<longrightarrow> job_done demo_lib 77 1 4 result) \<and>
    (\<exists>result. startSubtreeDelete sample_jobs sample_config 100 (\<lambda>_. sample_instants) (\<lambda>i. 100 + int i) (Some sample_operation)
      77 1 9 3 1 (demo_db, fmempty) = Some (Inr result))"
proof -
  have "\<not> has_edge demo_db (1, 4, RelChildOf, 4)" by (simp add: has_edge_def demo_db_def empty_db_def)
  then show ?thesis
    using startSubtreeDelete_terminates [of sample_jobs demo_db 1 4 "\<lambda>i. 100 + int i" sample_config 100 "\<lambda>_. sample_instants"
      "Some sample_operation" 77 3 fmempty] demo_db_ok sample_run by simp
qed

section \<open>Moves and the hierarchy\<close>

lemma rtrancl_first:
  assumes "(p, n) \<in> R\<^sup>*"
  shows "(p, n) \<in> {(a, b) \<in> R. a \<noteq> n}\<^sup>*"
  using assms
proof (induction rule: converse_rtrancl_induct)
  case (step y z)
  then show ?case by (cases "y = n") (auto intro: converse_rtrancl_into_rtrancl)
qed simp

lemma moved_parent_edges:
  assumes "moved_to lib orgID childID parentID db db'" "parentID \<noteq> uuid_nil"
  shows "parent_edges lib db' orgID = {(a, b) \<in> parent_edges lib db orgID. a \<noteq> childID} \<union> {(childID, parentID)}"
proof (rule set_eqI)
  fix e :: "uuid \<times> uuid"
  obtain a b where e: "e = (a, b)" by (cases e)
  show "e \<in> parent_edges lib db' orgID \<longleftrightarrow> e \<in> {(a, b) \<in> parent_edges lib db orgID. a \<noteq> childID} \<union> {(childID, parentID)}"
    using assms by (cases "a = childID") (auto simp: e moved_to_def parent_edges_iff)
qed

lemma acyclic_redirect_iff:
  assumes "acyclic R" "S = {(a, b) \<in> R. a \<noteq> n} \<union> {(n, p)}"
  shows "acyclic S \<longleftrightarrow> (p, n) \<notin> R\<^sup>*"
proof
  assume acyclic: "acyclic S"
  show "(p, n) \<notin> R\<^sup>*"
  proof
    assume "(p, n) \<in> R\<^sup>*"
    then have "(p, n) \<in> S\<^sup>*" using rtrancl_first [of p n R] rtrancl_mono [of "{(a, b) \<in> R. a \<noteq> n}" S] assms(2) by blast
    then have "(n, n) \<in> S\<^sup>+" using assms(2) by (auto intro: rtrancl_into_trancl2)
    then show False using acyclic by (simp add: acyclic_def)
  qed
next
  assume "(p, n) \<notin> R\<^sup>*"
  then show "acyclic S" using acyclic_redirect [OF assms(1)] assms(2) by blast
qed

text \<open>
  C11: What moving a child of the deleted root does. The child's record names the destination and
  its only \<open>child_of\<close> edge leads there, every other edge and every other record stay. The hierarchy
  stays without cycles exactly when the destination was not at or below the child; that is the case while the child lies below the root and the root below the
  destination, which the step does not check again after the job was stored.
\<close>

theorem moveChild_hierarchy:
  assumes "moveChild env cfg at m job child (db, cs) = Inr (True, db', cs')"
    and "readHierarchyNode db (sj_org job) childID = Inr child" "hn_found child"
    and "store_ok (env_lib env) db" "uuid_law (env_lib env)" "acyclic (parent_edges (env_lib env) db (sj_org job))"
  shows "moved_to (env_lib env) (sj_org job) childID (sj_root_parent job) db db' \<and>
    (acyclic (parent_edges (env_lib env) db' (sj_org job)) \<longleftrightarrow>
      (sj_root_parent job, childID) \<notin> (parent_edges (env_lib env) db (sj_org job))\<^sup>*) \<and>
    ((childID, sj_root job) \<in> parent_edges (env_lib env) db (sj_org job) \<and>
      (sj_root job, sj_root_parent job) \<in> parent_edges (env_lib env) db (sj_org job) \<longrightarrow>
      acyclic (parent_edges (env_lib env) db' (sj_org job)))"
proof -
  let ?R = "parent_edges (env_lib env) db (sj_org job)"
  note to = conjunct2 [OF moveChild_True [OF assms(1-5)]]
  have parent: "sj_root_parent job \<noteq> uuid_nil" using assms(1) by (auto simp: moveChild_def)
  note iff = acyclic_redirect_iff [OF assms(6) moved_parent_edges [OF to parent]]
  have "(sj_root_parent job, childID) \<notin> ?R\<^sup>*"
    if "(childID, sj_root job) \<in> ?R" "(sj_root job, sj_root_parent job) \<in> ?R"
  proof
    assume "(sj_root_parent job, childID) \<in> ?R\<^sup>*"
    then have "(childID, childID) \<in> ?R\<^sup>+" using that by (meson rtrancl_into_trancl2 trancl_into_trancl2)
    then show False using assms(6) by (simp add: acyclic_def)
  qed
  then show ?thesis using to iff by blast
qed

text \<open>The sample state with a second node, of a type that can contain the sample node.\<close>

definition move_db :: db where
  "move_db = demo_db\<lparr>
     db_resolves := fmupd 6 (json_object [] \<lparr>resolve_org = 1, resolve_kind = ''list''\<rparr>) (db_resolves demo_db),
     db_types := fmupd (1, 9) (json_object [] ((sample_type ''list'')\<lparr>can_contain := [''task'']\<rparr>)) (db_types demo_db),
     db_types_by_key := finsert (1, ''list'', 9) (db_types_by_key demo_db)\<rparr>"

definition move_job :: subtree_delete_job where
  "move_job = \<lparr>sj_id = 77, sj_org = 1, sj_root = 5, sj_root_parent = 6, sj_actor = 3, sj_operation = Enc [] None,
     sj_template = Enc [] None, sj_stack = [5], sj_deleted = 0, sj_moved = 0, sj_updated_at = 100, sj_finished_at = 0\<rparr>"

abbreviation move_child :: hierarchy_node where
  "move_child \<equiv> \<lparr>hn_id = 4, hn_type_key = ''task'', hn_kind = Some (sample_type ''task''), hn_found = True\<rparr>"

lemma move_db_ok: "store_ok lib move_db"
proof -
  note ok = store_okD [OF demo_db_ok [of lib]]
  have "nodes_ok move_db"
    by (rule nodes_okI)
      (use nodes_ok_node [OF ok(1)] nodes_ok_resolve [OF ok(1)] in \<open>auto simp: move_db_def split: if_splits\<close>)
  then show ?thesis
    using ok rels_ok_cong [of move_db demo_db] refs_ok_cong [of move_db demo_db lib] by (simp add: store_ok_def move_db_def)
qed

lemma move_db_hierarchy:
  "readHierarchyNode move_db 1 4 = Inr move_child"
  "readHierarchyNode move_db 1 6 = Inr \<lparr>hn_id = 6, hn_type_key = ''list'',
     hn_kind = Some ((sample_type ''list'')\<lparr>can_contain := [''task'']\<rparr>), hn_found = True\<rparr>"
  by (simp_all add: readHierarchyNode_def move_db_def demo_db_def empty_db_def kv_get_def cachedNodeTypeByKey_def indexedIDs_def
    maxIndexedMatches_def sample_type_def sorted_list_of_fset.rep_eq)

lemma move_db_acyclic: "acyclic (parent_edges demo_lib move_db 1)"
proof -
  have "parent_edges demo_lib move_db 1 = {}"
    by (auto simp: parent_edges_def readMutationSource_def absent_source_def move_db_def demo_db_def empty_db_def kv_get_def parent_in_def
      demo_node_def absentNode_def split: if_splits)
  then show ?thesis by (simp add: acyclic_def)
qed

lemma move_marshal: "\<exists>e. marshal_node body (moved_record demo_lib move_job 200 demo_node) = Inr e \<and> enc_text e \<noteq> []"
proof -
  have "fmpred (\<lambda>_. raw_ok) (node_props (moved_record demo_lib move_job 200 demo_node))"
    by (auto simp: fmpred_iff quoted_def raw_ok_def demo_node_def absentNode_def split: if_splits)
  moreover have "time_json_ok (created_at (moved_record demo_lib move_job 200 demo_node))"
    "time_json_ok (updated_at (moved_record demo_lib move_job 200 demo_node))"
    by (simp_all add: moved_record_def demo_node_def absentNode_def time_json_ok_def)
  ultimately show ?thesis by (simp add: marshal_node_def marshal_props_def Let_def)
qed

lemma sample_move:
  "\<exists>db' cs. moveChild sample_env sample_config sample_instants (demo_audit 1) move_job move_child (move_db, []) = Inr (True, db', cs)"
proof -
  let ?n = "moved_record demo_lib move_job 200 demo_node" and ?m = "demo_audit 1" and ?f = "fenced sample_config 1 4 move_db"
  let ?e = "\<lparr>rel_org = 1, rel_source = 4, rel_type = RelChildOf, rel_target = 6, rel_created_by = 3, rel_created_at = 200,
    rel_props = fmempty\<rparr>"
  have lib: "env_lib sample_env = demo_lib" "at_write sample_instants = 200" by (simp_all add: sample_env_def sample_instants_def)
  have job: "sj_org move_job = 1" "sj_root_parent move_job = 6" "sj_actor move_job = 3" by (simp_all add: move_job_def)
  have "isolated move_db 1 4" by (simp add: isolated_def move_db_def demo_db_def empty_db_def)
  then have edges: "readDeleteEdges move_db 1 4 RelChildOf False = []" by (simp add: readDeleteEdges_def isolated_ranges)
  have fence: "callFence sample_config 1 4 move_db = Inr (False, ?f)"
    by (rule sample_fence) (simp add: move_db_def demo_db_def empty_db_def)
  have view: "readNodeAndView move_db 1 move_child = Inr (Some (demo_node, None, [0x7B]))"
    by (simp add: readNodeAndView_def move_db_def demo_db_def empty_db_def kv_get_def json_object_def)
  obtain encoded dbW where w: "writeNodeRecords sample_env ?n None ?f = Inr (encoded, dbW)" "encoded \<noteq> []"
    using move_marshal [of "env_node_text sample_env"] by (auto simp: writeNodeRecords_def Let_def)
  have tgt: "validateTarget (nodeTarget ?n)" "validateTarget (rel_target_of ?e)"
    by (simp_all add: nodeTarget_def nodeIdentityTarget_def validateTarget_def rel_target_of_def relationshipTarget_def demo_node_def)
  obtain c where c: "record_change sample_env ?m (nodeTarget ?n) [0x7B] encoded [] = Inr c"
    using demo_record [OF tgt(1), of "[0x7B]" encoded ?m "[]"] by auto
  have m: "marshal_relationship sample_env ?e = Inr (json_object [] ?e)"
    by (simp add: marshal_relationship_def time_json_ok_def marshal_props_def sample_env_def)
  have "\<exists>c2. record_change sample_env ?m (rel_target_of ?e) stored (enc_text (json_object [] ?e)) c = Inr c2" for stored
    using demo_record [OF tgt(2), of stored "enc_text (json_object [] ?e)" ?m c] by auto
  then obtain c2 where c2: "record_change sample_env ?m (rel_target_of ?e) stored (enc_text (json_object [] ?e)) c = Inr (c2 stored)" for stored
    using choice [of "\<lambda>stored c2. record_change sample_env ?m (rel_target_of ?e) stored (enc_text (json_object [] ?e)) c = Inr c2"] by blast
  obtain dbR cs where r: "applyRelationshipChanges sample_env ?m (parentEdgeChanges move_job 4 [] 200)
      (moveParentIndexEntry ?n (prop_of (node_props demo_node) parentIDName) dbW, c) = Inr (dbR, cs)"
    by (simp add: applyRelationshipChanges_def apply_change_set_def parentEdgeChanges_def job removeRelationships_def
      addRelationships_def readRelationshipValues_def add_relationship_def m c2)
  have search: "\<not> cfg_search_work sample_config" by (simp add: sample_config_def)
  show ?thesis
    by (simp add: moveChild_def job move_db_hierarchy LivesUnder_def sample_type_def edges view [unfolded sample_type_def] fence w(1) c r lib
      Let_def checkStrictRecord_def checkStrictMutation_def schedule_move_def search)
qed

theorem moveChild_hierarchy_witness:
  "\<exists>db' cs. moveChild sample_env sample_config sample_instants (demo_audit 1) move_job move_child (move_db, []) = Inr (True, db', cs) \<and>
    moved_to demo_lib 1 4 6 move_db db'"
proof -
  obtain db' cs where run: "moveChild sample_env sample_config sample_instants (demo_audit 1) move_job move_child (move_db, []) =
      Inr (True, db', cs)"
    using sample_move by blast
  have "env_lib sample_env = demo_lib" "sj_org move_job = 1" "sj_root_parent move_job = 6" by (simp_all add: sample_env_def move_job_def)
  then show ?thesis
    using moveChild_hierarchy [OF run, of 4] run move_db_hierarchy(1) move_db_ok move_db_acyclic by auto
qed

section \<open>Cleared edges and the write fence\<close>

text \<open>
  C16: A page of cleared edges leaves the evidence of a scan as it was. Clearing edges in a step of a subtree
  deletion removes every listed edge, yet no epoch changes: evidence captured before the step still compares equal
  after it, and activating strict validation is not refused on account of the removed relationships.
\<close>

theorem clearDeleteEdges_unfenced:
  assumes "clearDeleteEdges env cfg at m orgID edges (db, cs) = Inr (db', cs')" "store_ok (env_lib env) db"
    and "CaptureStrictEvidence db = Inr evidence"
  shows "(\<forall>edge. edge \<in> set edges \<longrightarrow> \<not> has_edge db' (orgID, de_source edge, de_type edge, de_target edge)) \<and>
    CaptureStrictEvidence db' = Inr evidence \<and> change_empty (Compare evidence evidence)"
proof -
  let ?removed = "map (delete_edge_rel orgID) edges"
  obtain dbL csL where run: "removeRelationships env m ?removed (db, cs) = Inr (dbL, csL)"
    and rest: "(if \<not> cfg_search_work cfg \<or> ?removed = [] then Inr (dbL, csL)
      else bindE (schedule_related env (at_schedule at) [\<lparr>rels_add = [], rels_remove = ?removed\<rparr>] dbL) (\<lambda>db. Inr (db, csL))) =
      Inr (db', cs')"
    using assms(1) unfolding clearDeleteEdges_def Let_def by (auto elim!: bindE_InrE2)
  note frame = only_relsD [OF conjunct2 [OF removeRelationships_ok [OF run store_okD(2) [OF assms(2)]]]]
  have "db_fence db' = db_fence dbL \<and> db_epochs db' = db_epochs dbL"
    using rest by (auto simp: schedule_related_def split: if_splits elim!: bindE_InrE)
  then have "readStrictEvidence db' = readStrictEvidence db" using frame by (simp add: readStrictEvidence_def)
  moreover have "k \<in> edge_key orgID ` set edges \<Longrightarrow> \<not> has_edge db' k" for k
    using clearDeleteEdges_Inr [OF assms(1,2)] by blast
  ultimately show ?thesis using assms(3) by (auto simp: CaptureStrictEvidence_def edge_key_def change_empty_iff)
qed

lemma family_clear:
  "\<exists>db' cs. clearDeleteEdges sample_env sample_config sample_instants (demo_audit 1) 1
    [\<lparr>de_source = 6, de_type = RelChildOf, de_target = 7\<rparr>] (family_db, []) = Inr (db', cs)"
proof -
  let ?r = "delete_edge_rel 1 \<lparr>de_source = 6, de_type = RelChildOf, de_target = 7\<rparr>"
  have "validateTarget (rel_target_of ?r)"
    by (simp add: validateTarget_def rel_target_of_def relationshipTarget_def delete_edge_rel_def removed_edge_def)
  then obtain c where "record_change sample_env (demo_audit 1) (rel_target_of ?r) (enc_text (json_object [] (removed_edge 1 6 RelChildOf 7))) [] [] = Inr c"
    using demo_record [of "rel_target_of ?r" "enc_text (json_object [] (removed_edge 1 6 RelChildOf 7))" "[]" "demo_audit 1" "[]"] by auto
  moreover have "readRelationshipValues family_db [?r] = [enc_text (json_object [] (removed_edge 1 6 RelChildOf 7))]"
    by (simp add: readRelationshipValues_def family_db_def set_relationship_def rel_key_def delete_edge_rel_def removed_edge_def)
  ultimately show ?thesis
    by (simp add: clearDeleteEdges_def removeRelationships_def remove_relationship_def sample_config_def)
qed

theorem clearDeleteEdges_unfenced_witness:
  "\<exists>db' cs evidence. clearDeleteEdges sample_env sample_config sample_instants (demo_audit 1) 1
    [\<lparr>de_source = 6, de_type = RelChildOf, de_target = 7\<rparr>] (family_db, []) = Inr (db', cs) \<and>
    has_edge family_db (1, 6, RelChildOf, 7) \<and> \<not> has_edge db' (1, 6, RelChildOf, 7) \<and>
    CaptureStrictEvidence family_db = Inr evidence \<and> CaptureStrictEvidence db' = Inr evidence"
proof -
  obtain db' cs where run: "clearDeleteEdges sample_env sample_config sample_instants (demo_audit 1) 1
    [\<lparr>de_source = 6, de_type = RelChildOf, de_target = 7\<rparr>] (family_db, []) = Inr (db', cs)"
    using family_clear by blast
  have "readStrictEvidence family_db = readStrictEvidence empty_db"
    by (simp add: readStrictEvidence_def family_db_def demo_db_def set_relationship_def)
  then have capture: "CaptureStrictEvidence family_db = Inr \<lparr>se_buckets = replicate WriteFenceBuckets 0, se_epochs = fmempty\<rparr>"
    by (simp add: CaptureStrictEvidence_def empty_db_evidence)
  have edge: "has_edge family_db (1, 6, RelChildOf, 7)" by (simp add: has_edge_def family_db_def set_relationship_def)
  show ?thesis using clearDeleteEdges_unfenced [OF run _ capture] run capture edge family_ok by auto
qed

end
