(* ===== verification/Sequences.thy ===== *)
theory Sequences
  imports Node_Store
begin

text \<open>
  The counters that number nodes (\<open>node_sequence.go\<close>, \<open>node_sequence_audit.go\<close>) and the retry loops of a
  transaction (\<open>node_transaction.go\<close>, \<open>node_transaction_attempts.go\<close>, \<open>node_sequence_retry.go\<close>). A counter is
  eight bytes, little end first, in a key family of its own; every change of one is recorded with its old
  and new value in the transaction that makes it.
\<close>

section \<open>Counters\<close>

text \<open>The tuples of the two kinds of counters have different lengths, so their keys never collide.\<close>

datatype sequence_key = ScopeSequence uuid uuid string | KeySequence uuid string

type_synonym sequences = "(sequence_key, bytes) kv"

definition readEncodedSequence :: "bytes \<Rightarrow> int result" where
  "readEncodedSequence raw =
     (if length raw < 8 then Inr 0
      else let value = uint (le_word (take 8 raw)) in if max_int64 < value then Inl ErrOverflow else Inr value)"

definition writeSequence :: "sequence_key \<Rightarrow> int \<Rightarrow> sequences \<Rightarrow> sequences result" where
  "writeSequence key value seqs =
     (if value < 0 then Inl ErrInternal else Inr (fmupd key (le_bytes (word_of_int value)) seqs))"

fun decimal :: "nat \<Rightarrow> string" where
  "decimal n = (if n < 10 then [char_of (48 + n)] else decimal (n div 10) @ [char_of (48 + n mod 10)])"

declare decimal.simps [simp del]

text \<open>\<open>json.Marshal\<close> of a \<open>sequenceRecord\<close>: an object with the member \<open>value\<close>.\<close>

definition sequence_json :: "int \<Rightarrow> bytes" where
  "sequence_json value = [0x7B, 0x22] @ map of_char ''value'' @ [0x22, 0x3A] @ map of_char (decimal (nat value)) @ [0x7D]"

definition NameSpaceURL :: uuid where
  "NameSpaceURL = 0x6ba7b8119dad11d180b400c04fd430c8"

definition sequenceTarget :: "lib \<Rightarrow> string \<Rightarrow> string \<Rightarrow> audit_target" where
  "sequenceTarget lib uri name =
     \<lparr>tgt_kind = TargetKindResource, tgt_node_type = ''sequence'', tgt_reference = [], tgt_name = name, tgt_uri = uri,
      tgt_relation_type = [], tgt_id = lib_uuid_sha1 lib NameSpaceURL uri, tgt_source = uuid_nil, tgt_target = uuid_nil,
      tgt_owner = uuid_nil\<rparr>"

definition scopeSequenceTarget :: "lib \<Rightarrow> uuid \<Rightarrow> uuid \<Rightarrow> string \<Rightarrow> audit_target" where
  "scopeSequenceTarget lib orgID scopeNodeID nodeType =
     sequenceTarget lib (''tack:sequence/'' @ lib_uuid_string lib orgID @ ''/'' @ lib_uuid_string lib scopeNodeID @ ''/'' @ nodeType)
       nodeType"

definition keySequenceTarget :: "lib \<Rightarrow> uuid \<Rightarrow> string \<Rightarrow> audit_target" where
  "keySequenceTarget lib orgID counterKey =
     sequenceTarget lib (''tack:sequence/'' @ lib_uuid_string lib orgID @ ''/'' @ counterKey) counterKey"

text \<open>\<open>sequenceChange\<close>: the value to store for the current one, and whether it changes.\<close>

definition incrementSequence :: "int \<Rightarrow> (int \<times> bool) result" where
  "incrementSequence current = (if current = max_int64 then Inl ErrOverflow else Inr (current + 1, True))"

definition raiseSequence :: "int \<Rightarrow> int \<Rightarrow> (int \<times> bool) result" where
  "raiseSequence value current = (if value \<le> current then Inr (current, False) else Inr (value, True))"

definition recordMetadataChange ::
  "env \<Rightarrow> timestamp \<Rightarrow> mutation_audit \<Rightarrow> audit_target \<Rightarrow> bytes \<Rightarrow> bytes \<Rightarrow> txn \<Rightarrow> db result" where
  "recordMetadataChange env completedAt m target before after = (\<lambda>(db, changes).
     bindE (record_change env m target before after changes) (\<lambda>changes.
     append_changes env m completedAt (db, changes)))"

definition writeAuditedSequence ::
  "env \<Rightarrow> timestamp \<Rightarrow> mutation_audit \<Rightarrow> sequence_key \<Rightarrow> audit_target \<Rightarrow> (int \<Rightarrow> (int \<times> bool) result) \<Rightarrow>
    sequences \<times> db \<Rightarrow> (int \<times> bool \<times> sequences \<times> db) result" where
  "writeAuditedSequence env completedAt m key target change = (\<lambda>(seqs, db).
     let raw = fmlookup seqs key in
     bindE (readEncodedSequence (case raw of None \<Rightarrow> [] | Some bs \<Rightarrow> bs)) (\<lambda>current.
     bindE (change current) (\<lambda>(next, changed).
     if \<not> changed then Inr (current, False, seqs, db)
     else bindE (writeSequence key next seqs) (\<lambda>seqs.
       let before = (case raw of None \<Rightarrow> [] | Some _ \<Rightarrow> sequence_json current) in
       bindE (recordMetadataChange env completedAt m target before (sequence_json next) (db, [])) (\<lambda>db.
       Inr (next, True, seqs, db))))))"

definition writeSequenceWithAudit ::
  "env \<Rightarrow> timestamp \<Rightarrow> audit_event option \<Rightarrow> uuid \<Rightarrow> uuid \<Rightarrow> sequence_key \<Rightarrow> audit_target \<Rightarrow>
    (int \<Rightarrow> (int \<times> bool) result) \<Rightarrow> sequences \<times> db \<Rightarrow> (int \<times> bool \<times> sequences \<times> db) result" where
  "writeSequenceWithAudit env completedAt operation base orgID key target change s =
     bindE (beginMutationAudit operation base orgID) (\<lambda>m. writeAuditedSequence env completedAt m key target change s)"

definition AllocateSequence ::
  "env \<Rightarrow> timestamp \<Rightarrow> audit_event option \<Rightarrow> uuid \<Rightarrow> uuid \<Rightarrow> uuid \<Rightarrow> string \<Rightarrow> sequences \<times> db \<Rightarrow> (int \<times> sequences \<times> db) result" where
  "AllocateSequence env completedAt operation base orgID scopeNodeID nodeType s =
     bindE (writeSequenceWithAudit env completedAt operation base orgID (ScopeSequence orgID scopeNodeID nodeType)
       (scopeSequenceTarget (env_lib env) orgID scopeNodeID nodeType) incrementSequence s) (\<lambda>(seq, _, s). Inr (seq, s))"

definition AllocateSequenceByKey ::
  "env \<Rightarrow> timestamp \<Rightarrow> audit_event option \<Rightarrow> uuid \<Rightarrow> uuid \<Rightarrow> string \<Rightarrow> sequences \<times> db \<Rightarrow> (int \<times> sequences \<times> db) result" where
  "AllocateSequenceByKey env completedAt operation base orgID counterKey s =
     bindE (writeSequenceWithAudit env completedAt operation base orgID (KeySequence orgID counterKey)
       (keySequenceTarget (env_lib env) orgID counterKey) incrementSequence s) (\<lambda>(seq, _, s). Inr (seq, s))"

definition RaiseSequenceByKey ::
  "env \<Rightarrow> timestamp \<Rightarrow> audit_event option \<Rightarrow> uuid \<Rightarrow> uuid \<Rightarrow> string \<Rightarrow> int \<Rightarrow> sequences \<times> db \<Rightarrow> (bool \<times> sequences \<times> db) result" where
  "RaiseSequenceByKey env completedAt operation base orgID counterKey value s =
     bindE (writeSequenceWithAudit env completedAt operation base orgID (KeySequence orgID counterKey)
       (keySequenceTarget (env_lib env) orgID counterKey) (raiseSequence value) s) (\<lambda>(_, raised, s). Inr (raised, s))"

definition SeedSequenceByKey ::
  "env \<Rightarrow> timestamp \<Rightarrow> audit_event option \<Rightarrow> uuid \<Rightarrow> uuid \<Rightarrow> string \<Rightarrow> int \<Rightarrow> sequences \<times> db \<Rightarrow> (sequences \<times> db) result" where
  "SeedSequenceByKey env completedAt operation base orgID counterKey value s =
     bindE (writeSequenceWithAudit env completedAt operation base orgID (KeySequence orgID counterKey)
       (keySequenceTarget (env_lib env) orgID counterKey) (raiseSequence value) s) (\<lambda>(_, _, s). Inr s)"

definition PeekSequenceByKey :: "sequences \<Rightarrow> uuid \<Rightarrow> string \<Rightarrow> int result" where
  "PeekSequenceByKey seqs orgID counterKey =
     readEncodedSequence (case fmlookup seqs (KeySequence orgID counterKey) of None \<Rightarrow> [] | Some bs \<Rightarrow> bs)"

section \<open>Committed calls in order\<close>

text \<open>
  The calls that change counters, in the order in which their transactions commit. A call that fails
  changes nothing. The outcome of an allocation is the allocated number.
\<close>

datatype sequence_call =
    CallAllocate uuid uuid string
  | CallAllocateByKey uuid string
  | CallRaise uuid string int
  | CallSeed uuid string int

record sequence_request =
  rq_call :: sequence_call
  rq_operation :: "audit_event option"
  rq_base :: uuid
  rq_completed :: timestamp

fun call_key :: "sequence_call \<Rightarrow> sequence_key" where
  "call_key (CallAllocate orgID scopeNodeID nodeType) = ScopeSequence orgID scopeNodeID nodeType"
| "call_key (CallAllocateByKey orgID counterKey) = KeySequence orgID counterKey"
| "call_key (CallRaise orgID counterKey _) = KeySequence orgID counterKey"
| "call_key (CallSeed orgID counterKey _) = KeySequence orgID counterKey"

fun call_value :: "sequence_call \<Rightarrow> int option" where
  "call_value (CallRaise _ _ value) = Some value"
| "call_value (CallSeed _ _ value) = Some value"
| "call_value _ = None"

fun run_call :: "env \<Rightarrow> timestamp \<Rightarrow> audit_event option \<Rightarrow> uuid \<Rightarrow> sequence_call \<Rightarrow> sequences \<times> db \<Rightarrow> (int option \<times> sequences \<times> db) result" where
  "run_call env t op base (CallAllocate orgID scopeNodeID nodeType) s =
     bindE (AllocateSequence env t op base orgID scopeNodeID nodeType s) (\<lambda>(seq, s). Inr (Some seq, s))"
| "run_call env t op base (CallAllocateByKey orgID counterKey) s =
     bindE (AllocateSequenceByKey env t op base orgID counterKey s) (\<lambda>(seq, s). Inr (Some seq, s))"
| "run_call env t op base (CallRaise orgID counterKey value) s =
     bindE (RaiseSequenceByKey env t op base orgID counterKey value s) (\<lambda>(_, s). Inr (None, s))"
| "run_call env t op base (CallSeed orgID counterKey value) s =
     bindE (SeedSequenceByKey env t op base orgID counterKey value s) (\<lambda>s. Inr (None, s))"

definition run_request :: "env \<Rightarrow> sequence_request \<Rightarrow> sequences \<times> db \<Rightarrow> (int option \<times> sequences \<times> db) result" where
  "run_request env rq s = run_call env (rq_completed rq) (rq_operation rq) (rq_base rq) (rq_call rq) s"

fun run_requests :: "env \<Rightarrow> sequence_request list \<Rightarrow> sequences \<times> db \<Rightarrow> int option result list" where
  "run_requests env [] s = []"
| "run_requests env (rq # rqs) s =
     (case run_request env rq s of
        Inl e \<Rightarrow> Inl e # run_requests env rqs s
      | Inr (out, s') \<Rightarrow> Inr out # run_requests env rqs s')"

section \<open>What a call does to its counter\<close>

definition counter :: "sequences \<Rightarrow> sequence_key \<Rightarrow> int result" where
  "counter seqs key = readEncodedSequence (case fmlookup seqs key of None \<Rightarrow> [] | Some bs \<Rightarrow> bs)"

lemma counter_bounds: "counter seqs key = Inr c \<Longrightarrow> 0 \<le> c \<and> c \<le> max_int64"
  by (auto simp: counter_def readEncodedSequence_def Let_def max_int64_def split: if_splits)

lemma counter_write:
  assumes "writeSequence key v seqs = Inr seqs'" "v \<le> max_int64"
  shows "counter seqs' k = (if k = key then Inr v else counter seqs k)"
proof -
  have "0 \<le> v" and seqs': "seqs' = fmupd key (le_bytes (word_of_int v)) seqs"
    using assms(1) by (auto simp: writeSequence_def split: if_splits)
  then have "uint (word_of_int v :: 64 word) = v"
    using assms(2) by (simp add: uint_word_of_int max_int64_def)
  then show ?thesis using assms(2) by (simp add: counter_def seqs' readEncodedSequence_def)
qed

lemma writeSequenceWithAudit_Inr:
  assumes "writeSequenceWithAudit env t op base orgID key target change (seqs, db) = Inr (v, changed, seqs', db')"
  obtains current newv where "counter seqs key = Inr current" "change current = Inr (newv, changed)"
    "changed \<longrightarrow> v = newv \<and> writeSequence key newv seqs = Inr seqs'" "\<not> changed \<longrightarrow> v = current \<and> seqs' = seqs \<and> db' = db"
    "\<exists>w. db' = db\<lparr>db_outbox := db_outbox db @ w\<rparr>"
proof -
  obtain m where m: "beginMutationAudit op base orgID = Inr m"
    using assms by (auto simp: writeSequenceWithAudit_def elim!: bindE_InrE)
  note run = assms [unfolded writeSequenceWithAudit_def m bindE_Inr writeAuditedSequence_def prod.case Let_def]
  obtain current where 1: "readEncodedSequence (case fmlookup seqs key of None \<Rightarrow> [] | Some bs \<Rightarrow> bs) = Inr current"
    by (rule bindE_InrE [OF run]) (rule that)
  note run = run [unfolded 1 bindE_Inr]
  obtain newv ch where 2: "change current = Inr (newv, ch)" by (rule bindE_InrE2 [OF run]) (rule that)
  note run = run [unfolded 2 bindE_Inr prod.case]
  show thesis
  proof (cases ch)
    case False
    then have "changed = ch" "v = current" "seqs' = seqs" "db' = db" using run by auto
    then show thesis
      by (intro that [of current newv]) (use 1 2 False in \<open>auto simp: counter_def intro: exI [of _ "[]"]\<close>)
  next
    case True
    have changes: "\<not> \<not> ch" using True by simp
    note run = run [unfolded if_not_P [OF changes]]
    obtain seqs1 where 3: "writeSequence key newv seqs = Inr seqs1" by (rule bindE_InrE [OF run]) (rule that)
    note run = run [unfolded 3 bindE_Inr]
    obtain db1 where 4: "recordMetadataChange env t m target (case fmlookup seqs key of None \<Rightarrow> [] | Some _ \<Rightarrow> sequence_json current)
        (sequence_json newv) (db, []) = Inr db1"
      by (rule bindE_InrE [OF run]) (rule that)
    have eq: "v = newv" "changed" "seqs' = seqs1" "db' = db1" using run [unfolded 4 bindE_Inr] by auto
    obtain cs where "append_changes env m t (db, cs) = Inr db1"
      using 4 by (auto simp: recordMetadataChange_def elim!: bindE_InrE)
    then have "\<exists>w. db1 = db\<lparr>db_outbox := db_outbox db @ w\<rparr>" using append_changes_Inr by metis
    then show thesis by (intro that [of current newv]) (use 1 2 3 True eq in \<open>auto simp: counter_def\<close>)
  qed
qed

lemma allocate_counter:
  assumes "writeSequenceWithAudit env t op base orgID key target incrementSequence (seqs, db) = Inr (v, changed, seqs', db')"
  shows "counter seqs key = Inr (v - 1) \<and> 1 \<le> v \<and> v \<le> max_int64 \<and>
    (\<forall>k. counter seqs' k = (if k = key then Inr v else counter seqs k))"
proof -
  obtain current newv where c: "counter seqs key = Inr current" "incrementSequence current = Inr (newv, changed)"
    "changed \<longrightarrow> v = newv \<and> writeSequence key newv seqs = Inr seqs'"
    by (rule writeSequenceWithAudit_Inr [OF assms]) (rule that)
  have v: "v = current + 1" "writeSequence key v seqs = Inr seqs'" "current \<noteq> max_int64"
    using c(2,3) by (auto simp: incrementSequence_def split: if_splits)
  then show ?thesis using counter_bounds [OF c(1)] c(1) counter_write [OF v(2)] by auto
qed

lemma raise_counter:
  assumes "writeSequenceWithAudit env t op base orgID key target (raiseSequence value) (seqs, db) = Inr (v, changed, seqs', db')"
    and "value \<le> max_int64"
  shows "\<exists>current. counter seqs key = Inr current \<and> (changed \<longleftrightarrow> current < value) \<and>
    (\<forall>k. counter seqs' k = (if k = key then Inr (max current value) else counter seqs k))"
proof -
  obtain current newv where c: "counter seqs key = Inr current" "raiseSequence value current = Inr (newv, changed)"
    "changed \<longrightarrow> v = newv \<and> writeSequence key newv seqs = Inr seqs'" "\<not> changed \<longrightarrow> v = current \<and> seqs' = seqs \<and> db' = db"
    by (rule writeSequenceWithAudit_Inr [OF assms(1)]) (rule that)
  show ?thesis
  proof (cases "value \<le> current")
    case True
    then show ?thesis using c(1,2,4) by (auto simp: raiseSequence_def max_def)
  next
    case False
    then have "writeSequence key value seqs = Inr seqs'" "changed" using c(2,3) by (auto simp: raiseSequence_def)
    then show ?thesis using False c(1) counter_write [OF _ assms(2)] by (auto simp: max_def)
  qed
qed

lemma run_call_counter:
  assumes "run_call env t op base call s = Inr (out, s')" "\<And>x. call_value call = Some x \<Longrightarrow> x \<le> max_int64"
  obtains current current' where "counter (fst s) (call_key call) = Inr current" "counter (fst s') (call_key call) = Inr current'"
    "current \<le> current'" "\<forall>v. out = Some v \<longrightarrow> 1 \<le> v \<and> v \<le> max_int64 \<and> current < v \<and> current' = v"
    "\<forall>x. call_value call = Some x \<longrightarrow> x \<le> current'" "\<forall>k. k \<noteq> call_key call \<longrightarrow> counter (fst s') k = counter (fst s) k"
proof (cases call)
  case (CallAllocate orgID scopeNodeID nodeType)
  then obtain v changed where run: "writeSequenceWithAudit env t op base orgID (ScopeSequence orgID scopeNodeID nodeType)
      (scopeSequenceTarget (env_lib env) orgID scopeNodeID nodeType) incrementSequence (fst s, snd s) = Inr (v, changed, fst s', snd s')"
    "out = Some v"
    using assms(1) by (auto simp: AllocateSequence_def elim!: bindE_InrE bindE_InrE2)
  show thesis using allocate_counter [OF run(1)] run(2) CallAllocate by (intro that [of "v - 1" v]) auto
next
  case (CallAllocateByKey orgID counterKey)
  then obtain v changed where run: "writeSequenceWithAudit env t op base orgID (KeySequence orgID counterKey)
      (keySequenceTarget (env_lib env) orgID counterKey) incrementSequence (fst s, snd s) = Inr (v, changed, fst s', snd s')"
    "out = Some v"
    using assms(1) by (auto simp: AllocateSequenceByKey_def elim!: bindE_InrE bindE_InrE2)
  show thesis using allocate_counter [OF run(1)] run(2) CallAllocateByKey by (intro that [of "v - 1" v]) auto
next
  case (CallRaise orgID counterKey x)
  then obtain v changed where run: "writeSequenceWithAudit env t op base orgID (KeySequence orgID counterKey)
      (keySequenceTarget (env_lib env) orgID counterKey) (raiseSequence x) (fst s, snd s) = Inr (v, changed, fst s', snd s')"
    "out = None"
    using assms(1) by (auto simp: RaiseSequenceByKey_def elim!: bindE_InrE bindE_InrE2)
  obtain current where "counter (fst s) (KeySequence orgID counterKey) = Inr current"
    "\<forall>k. counter (fst s') k = (if k = KeySequence orgID counterKey then Inr (max current x) else counter (fst s) k)"
    using raise_counter [OF run(1)] assms(2) CallRaise by auto
  then show thesis using run(2) CallRaise by (intro that [of current "max current x"]) auto
next
  case (CallSeed orgID counterKey x)
  then obtain v changed where run: "writeSequenceWithAudit env t op base orgID (KeySequence orgID counterKey)
      (keySequenceTarget (env_lib env) orgID counterKey) (raiseSequence x) (fst s, snd s) = Inr (v, changed, fst s', snd s')"
    "out = None"
    using assms(1) by (auto simp: SeedSequenceByKey_def elim!: bindE_InrE bindE_InrE2)
  obtain current where "counter (fst s) (KeySequence orgID counterKey) = Inr current"
    "\<forall>k. counter (fst s') k = (if k = KeySequence orgID counterKey then Inr (max current x) else counter (fst s) k)"
    using raise_counter [OF run(1)] assms(2) CallSeed by auto
  then show thesis using run(2) CallSeed by (intro that [of current "max current x"]) auto
qed

definition int64_request :: "sequence_request \<Rightarrow> bool" where
  "int64_request rq \<longleftrightarrow> (case call_value (rq_call rq) of None \<Rightarrow> True | Some x \<Rightarrow> x \<le> max_int64)"

lemma run_request_counter:
  assumes "run_request env rq s = Inr (out, s')" "int64_request rq"
  obtains current current' where "counter (fst s) (call_key (rq_call rq)) = Inr current"
    "counter (fst s') (call_key (rq_call rq)) = Inr current'"
    "current \<le> current'" "\<forall>v. out = Some v \<longrightarrow> 1 \<le> v \<and> v \<le> max_int64 \<and> current < v \<and> current' = v"
    "\<forall>x. call_value (rq_call rq) = Some x \<longrightarrow> x \<le> current'"
    "\<forall>k. k \<noteq> call_key (rq_call rq) \<longrightarrow> counter (fst s') k = counter (fst s) k"
  using assms(2) run_call_counter [OF assms(1) [unfolded run_request_def]]
  by (auto simp: int64_request_def split: option.splits)

text \<open>Every later allocation of a counter is above its present value.\<close>

lemma later_allocation:
  assumes "j < length rqs" "run_requests env rqs s ! j = Inr (Some w)" "counter (fst s) (call_key (rq_call (rqs ! j))) = Inr c"
    and "list_all int64_request rqs"
  shows "1 \<le> w \<and> c < w \<and> w \<le> max_int64"
  using assms
proof (induction rqs arbitrary: s j c)
  case (Cons rq rqs)
  show ?case
  proof (cases "run_request env rq s")
    case (Inl e)
    obtain i where j: "j = Suc i" using Cons.prems(2) Inl by (cases j) auto
    then show ?thesis using Cons.IH [of i s c] Cons.prems Inl by simp
  next
    case (Inr p)
    obtain out s' where p: "p = (out, s')" by (cases p)
    have "int64_request rq" using Cons.prems(4) by simp
    from run_request_counter [OF Inr [unfolded p] this]
    obtain current current' where r: "counter (fst s) (call_key (rq_call rq)) = Inr current"
      "counter (fst s') (call_key (rq_call rq)) = Inr current'" "current \<le> current'"
      "\<forall>v. out = Some v \<longrightarrow> 1 \<le> v \<and> v \<le> max_int64 \<and> current < v \<and> current' = v"
      "\<forall>k. k \<noteq> call_key (rq_call rq) \<longrightarrow> counter (fst s') k = counter (fst s) k"
      by metis
    show ?thesis
    proof (cases j)
      case 0
      then show ?thesis using Cons.prems(2,3) r(1,4) by (auto simp: Inr p)
    next
      case (Suc i)
      have "\<exists>c'. counter (fst s') (call_key (rq_call (rqs ! i))) = Inr c' \<and> c \<le> c'"
        using Cons.prems(3) Suc r by (cases "call_key (rq_call (rqs ! i)) = call_key (rq_call rq)") auto
      then obtain c' where c': "counter (fst s') (call_key (rq_call (rqs ! i))) = Inr c'" "c \<le> c'" by blast
      have "1 \<le> w \<and> c' < w \<and> w \<le> max_int64"
        by (rule Cons.IH [OF _ _ c'(1)]) (use Cons.prems Suc in \<open>auto simp: Inr p\<close>)
      then show ?thesis using c'(2) by simp
    qed
  qed
qed simp

lemma run_requests_nth_Suc:
  "run_requests env (rq # rqs) s ! Suc i = run_requests env rqs (case run_request env rq s of Inl _ \<Rightarrow> s | Inr (_, s') \<Rightarrow> s') ! i"
  by (auto split: sum.splits)

lemma allocation_bound:
  assumes "j < length rqs" "run_requests env rqs s ! j = Inr (Some w)" "list_all int64_request rqs"
  shows "w \<le> max_int64"
  using assms
proof (induction rqs arbitrary: s j)
  case (Cons rq rqs)
  show ?case
  proof (cases j)
    case 0
    then obtain s' where "run_request env rq s = Inr (Some w, s')"
      using Cons.prems(2) by (auto split: sum.splits)
    then show ?thesis
    proof (rule run_request_counter)
      show "int64_request rq" using Cons.prems(3) by simp
    qed simp
  next
    case (Suc i)
    show ?thesis
      by (rule Cons.IH [of i "case run_request env rq s of Inl _ \<Rightarrow> s | Inr (_, s') \<Rightarrow> s'"])
        (use Cons.prems in \<open>simp_all only: Suc run_requests_nth_Suc length_Cons Suc_less_eq list.pred_inject\<close>)
  qed
qed simp

text \<open>
  C13: Allocated numbers. In every order in which calls on counters commit, with failed calls changing
  nothing, an allocation from a counter returns a positive number that no later allocation from it
  repeats or falls below, all numbers fit in 63 bits, and an allocation after a committed raise or seed to
  a value is above that value.
\<close>

theorem allocations_increase:
  assumes "i < j" "j < length rqs" "call_key (rq_call (rqs ! i)) = call_key (rq_call (rqs ! j))" "list_all int64_request rqs"
    and "run_requests env rqs s ! j = Inr (Some w)"
  shows "w \<le> max_int64 \<and> (\<forall>v. run_requests env rqs s ! i = Inr (Some v) \<longrightarrow> 1 \<le> v \<and> v < w) \<and>
    (\<forall>x. run_requests env rqs s ! i = Inr None \<and> call_value (rq_call (rqs ! i)) = Some x \<longrightarrow> x < w)"
  using assms
proof (induction i arbitrary: j rqs s)
  case 0
  obtain rq rest where rqs: "rqs = rq # rest" using 0(2) by (cases rqs) auto
  obtain j' where j: "j = Suc j'" using 0(1) by (cases j) auto
  have int: "int64_request rq" "list_all int64_request rest" using 0(4) rqs by simp_all
  have key: "call_key (rq_call (rest ! j')) = call_key (rq_call rq)" using 0(3) by (simp add: rqs j)
  show ?case
  proof (cases "run_request env rq s")
    case (Inl e)
    have later: "run_requests env rest s ! j' = Inr (Some w)" using 0(5) by (simp add: rqs j Inl)
    have "w \<le> max_int64" by (rule allocation_bound [OF _ later int(2)]) (use 0(2) rqs j in simp)
    then show ?thesis by (simp add: rqs Inl)
  next
    case (Inr p)
    obtain out s' where p: "p = (out, s')" by (cases p)
    from run_request_counter [OF Inr [unfolded p] int(1)]
    obtain current current' where r: "counter (fst s') (call_key (rq_call rq)) = Inr current'"
      "\<forall>v. out = Some v \<longrightarrow> 1 \<le> v \<and> v \<le> max_int64 \<and> current < v \<and> current' = v"
      "\<forall>x. call_value (rq_call rq) = Some x \<longrightarrow> x \<le> current'"
      by metis
    have "1 \<le> w \<and> current' < w \<and> w \<le> max_int64"
      by (rule later_allocation [of j' rest env s']) (use 0 rqs j r(1) key int(2) in \<open>auto simp: Inr p\<close>)
    then show ?thesis using r(2,3) by (auto simp: rqs Inr p)
  qed
next
  case (Suc i)
  obtain rq rest where rqs: "rqs = rq # rest" using Suc.prems(2) by (cases rqs) auto
  obtain j' where j: "j = Suc j'" using Suc.prems(1) by (cases j) auto
  show ?case
    using Suc.IH [of j' rest "case run_request env rq s of Inl _ \<Rightarrow> s | Inr (_, s') \<Rightarrow> s'"] Suc.prems
    by (simp add: rqs j run_requests_nth_Suc del: run_requests.simps)
qed

lemma demo_sequence:
  assumes "counter seqs (KeySequence 1 ''k'') = Inr current" "change current = Inr (v, True)" "0 \<le> v"
  shows "\<exists>db'. writeSequenceWithAudit sample_env 200 (Some sample_operation) 77 1 (KeySequence 1 ''k'')
      (keySequenceTarget (env_lib sample_env) 1 ''k'') change (seqs, db) =
    Inr (v, True, fmupd (KeySequence 1 ''k'') (le_bytes (word_of_int v)) seqs, db')"
proof -
  let ?t = "keySequenceTarget (env_lib sample_env) 1 ''k''"
  let ?b = "case fmlookup seqs (KeySequence 1 ''k'') of None \<Rightarrow> [] | Some _ \<Rightarrow> sequence_json current"
  have "validateTarget ?t" by (simp add: validateTarget_def keySequenceTarget_def sequenceTarget_def)
  then obtain c where c: "record_change sample_env (demo_audit 1) ?t ?b (sequence_json v) [] = Inr c"
    "list_all (\<lambda>c. ValidateChange demo_lib c \<and> chg_protected c = []) c" "length c \<le> 1"
    using demo_record [of ?t ?b "sequence_json v" "demo_audit 1" "[]"] by (auto simp: sequence_json_def)
  obtain db' where "append_changes sample_env (demo_audit 1) 200 (db, c) = Inr db'"
    using demo_append [OF c(2), of 1 200 db] c(3) by auto
  then show ?thesis
    using assms c(1)
    by (simp add: writeSequenceWithAudit_def demo_begin writeAuditedSequence_def counter_def writeSequence_def recordMetadataChange_def)
qed

definition sample_request :: "sequence_call \<Rightarrow> sequence_request" where
  "sample_request call = \<lparr>rq_call = call, rq_operation = Some sample_operation, rq_base = 77, rq_completed = 200\<rparr>"

lemma rq_call_sample [simp]: "rq_call (sample_request call) = call"
  by (simp add: sample_request_def)

definition sample_requests :: "sequence_request list" where
  "sample_requests = map sample_request [CallAllocateByKey 1 ''k'', CallRaise 1 ''k'' 5, CallAllocateByKey 1 ''k'']"

lemma demo_requests:
  "run_requests sample_env sample_requests
    (fmempty, empty_db) = [Inr (Some 1), Inr None, Inr (Some 6)]"
proof -
  let ?k = "KeySequence 1 ''k''"
  have c0: "counter fmempty ?k = Inr 0" by (simp add: counter_def readEncodedSequence_def)
  have c: "counter (fmupd ?k (le_bytes (word_of_int v)) seqs) ?k = Inr v" if "0 \<le> v" "v \<le> max_int64" for v seqs
    using counter_write [of ?k v seqs] that by (simp add: writeSequence_def)
  have inc: "incrementSequence 0 = Inr (1, True)" "incrementSequence 5 = Inr (6, True)" "raiseSequence 5 1 = Inr (5, True)"
    by (simp_all add: incrementSequence_def raiseSequence_def max_int64_def)
  have small: "1 \<le> max_int64" "5 \<le> max_int64" by (simp_all add: max_int64_def)
  obtain d1 where d1: "writeSequenceWithAudit sample_env 200 (Some sample_operation) 77 1 ?k (keySequenceTarget (env_lib sample_env) 1 ''k'')
      incrementSequence (fmempty, empty_db) = Inr (1, True, fmupd ?k (le_bytes (word_of_int 1)) fmempty, d1)"
    using demo_sequence [where change = incrementSequence and v = 1, OF c0 inc(1)] by auto
  obtain d2 where d2: "writeSequenceWithAudit sample_env 200 (Some sample_operation) 77 1 ?k (keySequenceTarget (env_lib sample_env) 1 ''k'')
      (raiseSequence 5) (fmupd ?k (le_bytes (word_of_int 1)) fmempty, d1) =
      Inr (5, True, fmupd ?k (le_bytes (word_of_int 5)) (fmupd ?k (le_bytes (word_of_int 1)) fmempty), d2)"
    using demo_sequence [where change = "raiseSequence 5" and v = 5, OF c [OF _ small(1)] inc(3)] by auto
  obtain d3 where d3: "writeSequenceWithAudit sample_env 200 (Some sample_operation) 77 1 ?k (keySequenceTarget (env_lib sample_env) 1 ''k'')
      incrementSequence (fmupd ?k (le_bytes (word_of_int 5)) (fmupd ?k (le_bytes (word_of_int 1)) fmempty), d2) =
      Inr (6, True, fmupd ?k (le_bytes (word_of_int 6)) (fmupd ?k (le_bytes (word_of_int 5)) (fmupd ?k (le_bytes (word_of_int 1)) fmempty)), d3)"
    using demo_sequence [where change = incrementSequence and v = 6, OF c [OF _ small(2)] inc(2)] by auto
  show ?thesis
    by (simp only: sample_requests_def list.map sample_request_def run_requests.simps run_request_def sequence_request.simps run_call.simps
      AllocateSequenceByKey_def RaiseSequenceByKey_def d1 d2 d3 bindE_Inr prod.case sum.case)
qed

theorem allocations_increase_witness:
  "run_requests sample_env sample_requests (fmempty, empty_db) = [Inr (Some 1), Inr None, Inr (Some 6)] \<and>
   (1::int) < 6 \<and> (5::int) < 6"
proof -
  have "list_all int64_request sample_requests" by (simp add: sample_requests_def int64_request_def max_int64_def)
  moreover have "length sample_requests = 3" "rq_call (sample_requests ! 0) = CallAllocateByKey 1 ''k''"
    "rq_call (sample_requests ! 1) = CallRaise 1 ''k'' 5" "rq_call (sample_requests ! 2) = CallAllocateByKey 1 ''k''"
    by (simp_all add: sample_requests_def)
  ultimately show ?thesis
    using allocations_increase [of 0 2 sample_requests sample_env "(fmempty, empty_db)" 6]
      allocations_increase [of 1 2 sample_requests sample_env "(fmempty, empty_db)" 6] demo_requests
    by simp
qed

end
