(* ===== verification/Transactions.thy ===== *)
theory Transactions
  imports Sequences
begin

text \<open>
  The retry loops around a transaction (\<open>node_transaction.go\<close>, \<open>node_transaction_attempts.go\<close>,
  \<open>node_sequence_retry.go\<close>). What the database answers is an input: for each attempt the state it reads, the
  code with which a read or the commit fails, if one does, and the answer of \<open>OnError\<close>. A commit that is
  reported as failed is taken to have no effect.
\<close>

section \<open>Attempts\<close>

definition attemptErrorCodeLimit :: nat where
  "attemptErrorCodeLimit = 16"

definition transactionNotCommitted :: nat where
  "transactionNotCommitted = 1020"

definition transactionTimedOut :: nat where
  "transactionTimedOut = 1031"

record transaction_attempts =
  ta_count :: nat
  ta_codes :: "string list"
  ta_omitted :: nat
  ta_conflicted :: bool

definition newTransactionAttempts :: transaction_attempts where
  "newTransactionAttempts = \<lparr>ta_count = 0, ta_codes = [], ta_omitted = 0, ta_conflicted = False\<rparr>"

definition start_attempt :: "transaction_attempts \<Rightarrow> transaction_attempts" where
  "start_attempt attempts = attempts\<lparr>ta_count := ta_count attempts + 1\<rparr>"

definition recordError :: "nat \<Rightarrow> transaction_attempts \<Rightarrow> transaction_attempts" where
  "recordError code attempts =
     (let attempts = (if code = transactionNotCommitted then attempts\<lparr>ta_conflicted := True\<rparr> else attempts) in
      if length (ta_codes attempts) < attemptErrorCodeLimit
      then attempts\<lparr>ta_codes := ta_codes attempts @ [decimal code]\<rparr>
      else attempts\<lparr>ta_omitted := ta_omitted attempts + 1\<rparr>)"

fun codeList :: "string list \<Rightarrow> string" where
  "codeList [] = []"
| "codeList [c] = c"
| "codeList (c # cs) = c @ '','' @ codeList cs"

text \<open>One attempt as the database answers it; \<open>att_ended\<close> is a context that ended before it.\<close>

record 's attempt =
  att_ended :: bool
  att_state :: 's
  att_read_fails :: "nat option"
  att_commit_fails :: "nat option"
  att_refused :: "nat option"

record 's transaction_env =
  te_created :: bool
  te_attempts :: "'s attempt list"
  te_ended :: bool

datatype ('s, 'a) run_outcome =
    Committed 'a 's
  | FailedWith tack_error
  | Refused nat transaction_attempts

section \<open>The loops\<close>

text \<open>
  \<open>None\<close> is a loop that is still running when the listed answers are used up. \<open>failed_code\<close> is the
  database error of an attempt, and no code when the attempt commits or ends with another error.
\<close>

definition failed_code :: "('s \<Rightarrow> ('a \<times> 's) result) \<Rightarrow> 's attempt \<Rightarrow> nat option" where
  "failed_code body a =
     (case att_read_fails a of
        Some code \<Rightarrow> Some code
      | None \<Rightarrow> (case body (att_state a) of Inl _ \<Rightarrow> None | Inr _ \<Rightarrow> att_commit_fails a))"

fun attempt_loop :: "('s \<Rightarrow> ('a \<times> 's) result) \<Rightarrow> transaction_attempts \<Rightarrow> 's attempt list \<Rightarrow> ('s, 'a) run_outcome option" where
  "attempt_loop body attempts [] = None"
| "attempt_loop body attempts (a # rest) =
     (if att_ended a then Some (FailedWith ErrInternal)
      else
        let attempts = start_attempt attempts in
        case failed_code body a of
          None \<Rightarrow> Some (case body (att_state a) of Inl e \<Rightarrow> FailedWith e | Inr (x, s) \<Rightarrow> Committed x s)
        | Some code \<Rightarrow>
            let attempts = recordError code attempts in
            (case att_refused a of
               Some c \<Rightarrow> Some (Refused c attempts)
             | None \<Rightarrow> attempt_loop body attempts rest))"

definition runNodeAttempts :: "('s \<Rightarrow> ('a \<times> 's) result) \<Rightarrow> 's transaction_env \<Rightarrow> ('s, 'a) run_outcome option" where
  "runNodeAttempts body te =
     (if \<not> te_created te then Some (FailedWith ErrInternal)
      else attempt_loop body newTransactionAttempts (te_attempts te))"

definition retryFailure :: "nat \<Rightarrow> tack_error" where
  "retryFailure code = (if code = transactionTimedOut then ErrConflict else ErrInternal)"

definition runNodeMutation :: "('s \<Rightarrow> ('a \<times> 's) result) \<Rightarrow> 's transaction_env \<Rightarrow> ('s, 'a) run_outcome option" where
  "runNodeMutation body te =
     (case runNodeAttempts body te of
        Some (Refused code _) \<Rightarrow> Some (FailedWith (retryFailure code))
      | r \<Rightarrow> r)"

definition conflictTimedOut :: "nat \<Rightarrow> transaction_attempts \<Rightarrow> bool" where
  "conflictTimedOut code attempts \<longleftrightarrow> ta_conflicted attempts \<and> code = transactionTimedOut"

fun runSequenceTransactions :: "('s \<Rightarrow> ('a \<times> 's) result) \<Rightarrow> 's transaction_env list \<Rightarrow> ('s, 'a) run_outcome option" where
  "runSequenceTransactions body [] = None"
| "runSequenceTransactions body (te # rest) =
     (case runNodeAttempts body te of
        Some (Refused code attempts) \<Rightarrow>
          if \<not> conflictTimedOut code attempts \<or> te_ended te then Some (FailedWith (retryFailure code))
          else runSequenceTransactions body rest
      | r \<Rightarrow> r)"

section \<open>A change commits once\<close>

text \<open>An attempt commits when nothing fails in it.\<close>

definition commits :: "('s \<Rightarrow> ('a \<times> 's) result) \<Rightarrow> 's attempt \<Rightarrow> bool" where
  "commits body a \<longleftrightarrow> \<not> att_ended a \<and> failed_code body a = None \<and> (\<exists>x s. body (att_state a) = Inr (x, s))"

definition retried :: "('s \<Rightarrow> ('a \<times> 's) result) \<Rightarrow> 's attempt \<Rightarrow> bool" where
  "retried body a \<longleftrightarrow> \<not> att_ended a \<and> failed_code body a \<noteq> None \<and> att_refused a = None"

text \<open>The attempts that a loop runs: those it retries and the one that ends it.\<close>

fun executed :: "('s \<Rightarrow> ('a \<times> 's) result) \<Rightarrow> 's attempt list \<Rightarrow> 's attempt list" where
  "executed body [] = []"
| "executed body (a # rest) = (if retried body a then a # executed body rest else [a])"

lemma attempt_loop_commits:
  assumes "attempt_loop body attempts as = Some r"
  shows "length (filter (commits body) (executed body as)) = (case r of Committed _ _ \<Rightarrow> 1 | _ \<Rightarrow> 0) \<and>
    (\<forall>x s. r = Committed x s \<longrightarrow> (\<exists>a \<in> set (executed body as). commits body a \<and> body (att_state a) = Inr (x, s)))"
  using assms
proof (induction body attempts as rule: attempt_loop.induct)
  case (2 body attempts a rest)
  show ?case
  proof (cases "retried body a")
    case True
    then obtain code where code: "\<not> att_ended a" "failed_code body a = Some code" "att_refused a = None"
      by (auto simp: retried_def)
    have "\<not> commits body a" using code by (simp add: commits_def)
    moreover have "attempt_loop body (recordError code (start_attempt attempts)) rest = Some r"
      using 2(2) code by (simp add: Let_def)
    ultimately show ?thesis using 2(1) [OF code(1) refl code(2) refl code(3)] True by auto
  next
    case False
    then show ?thesis
      using 2(2) by (auto simp: commits_def retried_def Let_def split: if_splits option.splits sum.splits)
  qed
qed simp

lemma attempt_loop_conflict:
  assumes "attempt_loop body attempts as = Some (Refused code attempts')" "ta_conflicted attempts'"
  shows "ta_conflicted attempts \<or> (\<exists>a \<in> set (executed body as). failed_code body a = Some transactionNotCommitted)"
  using assms
proof (induction body attempts as rule: attempt_loop.induct)
  case (2 body attempts a rest)
  have rec: "ta_conflicted (recordError c (start_attempt attempts)) \<longleftrightarrow> c = transactionNotCommitted \<or> ta_conflicted attempts" for c
    by (auto simp: recordError_def start_attempt_def Let_def)
  show ?case
  proof (cases "retried body a")
    case True
    then obtain c where c: "\<not> att_ended a" "failed_code body a = Some c" "att_refused a = None"
      by (auto simp: retried_def)
    have "attempt_loop body (recordError c (start_attempt attempts)) rest = Some (Refused code attempts')"
      using 2(2) c by (simp add: Let_def)
    then show ?thesis using 2(1) [OF c(1) refl c(2) refl c(3)] 2(3) rec [of c] c(2) True by auto
  next
    case False
    then show ?thesis using 2(2,3) rec by (auto simp: retried_def Let_def split: if_splits option.splits sum.splits)
  qed
qed simp

definition run_attempts :: "('s \<Rightarrow> ('a \<times> 's) result) \<Rightarrow> 's transaction_env \<Rightarrow> 's attempt list" where
  "run_attempts body te = (if te_created te then executed body (te_attempts te) else [])"

text \<open>The transactions that the loop of a counter runs.\<close>

fun transactions_run :: "('s \<Rightarrow> ('a \<times> 's) result) \<Rightarrow> 's transaction_env list \<Rightarrow> 's transaction_env list" where
  "transactions_run body [] = []"
| "transactions_run body (te # rest) =
     te # (case runNodeAttempts body te of
        Some (Refused code attempts) \<Rightarrow> if conflictTimedOut code attempts \<and> \<not> te_ended te then transactions_run body rest else []
      | _ \<Rightarrow> [])"

lemma runNodeAttempts_commits:
  assumes "runNodeAttempts body te = Some r"
  shows "length (filter (commits body) (run_attempts body te)) = (case r of Committed _ _ \<Rightarrow> 1 | _ \<Rightarrow> 0) \<and>
    (\<forall>x s. r = Committed x s \<longrightarrow> (\<exists>a \<in> set (run_attempts body te). commits body a \<and> body (att_state a) = Inr (x, s)))"
  using assms attempt_loop_commits by (fastforce simp: runNodeAttempts_def run_attempts_def split: if_splits)

lemma runNodeAttempts_conflict:
  assumes "runNodeAttempts body te = Some (Refused code attempts)" "conflictTimedOut code attempts"
  shows "\<exists>a \<in> set (run_attempts body te). failed_code body a = Some transactionNotCommitted"
proof -
  have created: "te_created te" and loop: "attempt_loop body newTransactionAttempts (te_attempts te) = Some (Refused code attempts)"
    using assms(1) by (auto simp: runNodeAttempts_def split: if_splits)
  then show ?thesis
    using attempt_loop_conflict [OF loop] assms(2) by (auto simp: conflictTimedOut_def newTransactionAttempts_def run_attempts_def)
qed


definition sample_transactions :: "int transaction_env list" where
  "sample_transactions =
     [\<lparr>te_created = True, te_attempts = [\<lparr>att_ended = False, att_state = 3, att_read_fails = None,
        att_commit_fails = Some 1020, att_refused = Some 1031\<rparr>], te_ended = False\<rparr>,
      \<lparr>te_created = True, te_attempts = [\<lparr>att_ended = False, att_state = 4, att_read_fails = None,
        att_commit_fails = None, att_refused = None\<rparr>], te_ended = False\<rparr>]"

definition sample_body :: "int \<Rightarrow> (int \<times> int) result" where
  "sample_body current = bindE (incrementSequence current) (\<lambda>(value, _). Inr (value, value))"


end
