(* ===== verification/Graph_Steps.thy ===== *)
theory Graph_Steps
  imports Subtree_Deletion Transactions
begin

text \<open>
  The store as a transition system: one step is a committed transaction of any of the operations of the
  other theories. \<open>product_write\<close> holds the writes of the node and relationship stores with the node each
  of them writes; \<open>store_step\<close> adds replays, unplanned deletions, the steps of subtree deletions, counters and
  the activation of strict validation.
\<close>

section \<open>Steps\<close>

inductive product_write :: "env \<Rightarrow> store_config \<Rightarrow> uuid \<times> uuid \<Rightarrow> db \<Rightarrow> db \<Rightarrow> bool" for env cfg where
  write_set: "Set_node env cfg at operation base n view db = Inr db' \<Longrightarrow>
    product_write env cfg (node_org n, node_id n) db db'"
| write_create: "CreateAtomic env cfg at operation base n view rels names keys idempotency db = Inr db' \<Longrightarrow>
    distinct (map ref_template keys) \<Longrightarrow> product_write env cfg (node_org n, node_id n) db db'"
| write_update: "UpdateAtomic env cfg at operation base n view oldProps names keys changes db = Inr db' \<Longrightarrow>
    (\<And>ks. keys = Some ks \<Longrightarrow> distinct (map ref_template ks)) \<Longrightarrow> product_write env cfg (node_org n, node_id n) db db'"
| write_update_from: "UpdateAtomicFrom env cfg at operation base digest n view oldProps names keys db = Inr db' \<Longrightarrow>
    (\<And>ks. keys = Some ks \<Longrightarrow> distinct (map ref_template ks)) \<Longrightarrow> product_write env cfg (node_org n, node_id n) db db'"
| write_references: "SetReferenceKeys env cfg at operation base orgID nodeID keys db = Inr db' \<Longrightarrow>
    distinct (map ref_template keys) \<Longrightarrow> product_write env cfg (orgID, nodeID) db db'"
| write_index: "EnsurePropertyIndex cfg n names db = Inr db' \<Longrightarrow> product_write env cfg (node_org n, node_id n) db db'"
| write_mutation: "ApplyMutation env cfg at operation base plan db = Inr (receipt, db') \<Longrightarrow>
    readCreateIdempotency (env_lib env) db plan = Inr None \<Longrightarrow> distinct_templates plan \<Longrightarrow>
    product_write env cfg (mp_org plan, mp_node plan) db db'"
| write_deletion: "DeleteNode env cfg at operation base deletion db = Inr (receipt, db') \<Longrightarrow>
    product_write env cfg (dp_org deletion, dp_node deletion) db db'"
| write_add: "Add env cfg at operation base rel db = Inr db' \<Longrightarrow> product_write env cfg (rel_org rel, rel_source rel) db db'"
| write_add_member: "AddMemberTarget env cfg at operation base rel db = Inr db' \<Longrightarrow>
    product_write env cfg (rel_org rel, rel_source rel) db db'"
| write_remove: "Remove env cfg at operation base orgID sourceID relationType targetID db = Inr db' \<Longrightarrow>
    product_write env cfg (orgID, sourceID) db db'"

inductive store_step :: "env \<Rightarrow> store_config \<Rightarrow> db \<Rightarrow> db \<Rightarrow> bool" for env cfg where
  step_write: "product_write env cfg target db db' \<Longrightarrow> store_step env cfg db db'"
| step_mutation: "ApplyMutation env cfg at operation base plan db = Inr (receipt, db') \<Longrightarrow> distinct_templates plan \<Longrightarrow>
    store_step env cfg db db'"
| step_delete: "Delete env cfg at operation base orgID nodeID seen db = Inr db' \<Longrightarrow> store_step env cfg db db'"
| step_job: "DeleteSubtreeStep je cfg at now jobID (db, jobs) = Inr (progress, db', jobs') \<Longrightarrow> je_env je = env \<Longrightarrow>
    store_step env cfg db db'"
| step_counter: "writeSequenceWithAudit env completedAt operation base orgID key target change (seqs, db) =
    Inr (v, changed, seqs', db') \<Longrightarrow> store_step env cfg db db'"
| step_activate: "snd (ActivateStrict env evidence activation db) = Inr db' \<Longrightarrow> store_step env cfg db db'"

section \<open>Every step keeps the store well-formed\<close>

lemma DeleteNode_store_ok:
  assumes "DeleteNode env cfg at operation base plan db = Inr (receipt, db')" "store_ok (env_lib env) db" "uuid_law (env_lib env)"
  shows "store_ok (env_lib env) db' \<and> db_fence db' = db_fence (fenced cfg (dp_org plan) (dp_node plan) db)"
proof -
  let ?f = "fenced cfg (dp_org plan) (dp_node plan) db"
  obtain source m c dbL changes w where d: "readMutationSource db (dp_org plan) (dp_node plan) = Inr source" "ms_exists source"
    "clearNode env cfg at m (ms_node source) (?f\<lparr>db_checkpoints := c\<rparr>, []) = Inr (dbL, changes)"
    "db' = dbL\<lparr>db_outbox := db_outbox dbL @ w\<rparr>"
    by (rule DeleteNode_Inr [OF assms(1,2)]) (rule that)
  have ok: "store_ok (env_lib env) (?f\<lparr>db_checkpoints := c\<rparr>)" using assms(2) by simp
  note cleared = clearNode_Inr [OF d(3) store_okD(2) [OF ok]]
  show ?thesis using clearNode_store_ok [OF d(3) ok assms(3)] cleared by (simp add: d(4) cleared_frame_def)
qed

lemma ApplyMutation_store_ok:
  assumes "ApplyMutation env cfg at operation base plan db = Inr (receipt, db')" "store_ok (env_lib env) db"
    and "uuid_law (env_lib env)" "distinct_templates plan"
  shows "store_ok (env_lib env) db'"
    "readCreateIdempotency (env_lib env) db plan = Inr None \<Longrightarrow> db_fence db' = db_fence (fenced cfg (mp_org plan) (mp_node plan) db)"
proof -
  obtain m dbA changes w where run: "applyMutationAttempt env cfg at m plan db = Inr (receipt, dbA, changes)"
    "db' = dbA\<lparr>db_outbox := db_outbox dbA @ w\<rparr>"
    using ApplyMutation_Inr [OF assms(1)] by metis
  show "store_ok (env_lib env) db'" using attempt_store_ok [OF run(1) assms(2-4)] by (simp add: run(2))
  show "db_fence db' = db_fence (fenced cfg (mp_org plan) (mp_node plan) db)" if fresh: "readCreateIdempotency (env_lib env) db plan = Inr None"
    using attempt_written [OF run(1) fresh assms(2,3)] by (simp add: run(2)) metis
qed

lemma product_write_ok:
  assumes "product_write env cfg (orgID, nodeID) db db'" "store_ok (env_lib env) db" "uuid_law (env_lib env)"
  shows "store_ok (env_lib env) db' \<and> db_fence db' = db_fence (fenced cfg orgID nodeID db)"
  using assms(1)
proof (cases rule: product_write.cases)
  case (write_set at operation base n view)
  then show ?thesis using Set_node_wrote [OF _ assms(2)] by (simp add: wrote_def)
next
  case (write_create at operation base n view rels names keys idempotency)
  then show ?thesis using CreateAtomic_wrote [OF _ assms(2,3)] by (simp add: wrote_def)
next
  case (write_update at operation base n view oldProps names keys changes)
  then show ?thesis using updateAtomic_wrote [OF _ assms(2,3)] by (simp add: wrote_def UpdateAtomic_def)
next
  case (write_update_from at operation base digest n view oldProps names keys)
  then show ?thesis using updateAtomic_wrote [OF _ assms(2,3)] by (simp add: wrote_def UpdateAtomicFrom_def)
next
  case (write_references at operation base keys)
  then show ?thesis using SetReferenceKeys_store_ok [OF _ assms(2,3)] by simp
next
  case (write_index n names)
  then show ?thesis using EnsurePropertyIndex_store_ok [OF _ assms(2)] by simp
next
  case (write_mutation at operation base plan receipt)
  then show ?thesis using ApplyMutation_store_ok [OF _ assms(2,3)] by simp
next
  case (write_deletion at operation base deletion receipt)
  then show ?thesis using DeleteNode_store_ok [OF _ assms(2,3)] by simp
next
  case (write_add at operation base rel)
  then have run: "add env cfg at operation base rel False db = Inr db'" by (simp add: Add_def)
  show ?thesis using write_add add_store_ok [OF run assms(2)] by (rule_tac add_Inr [OF run]) (simp add: set_relationship_def)
next
  case (write_add_member at operation base rel)
  then have run: "add env cfg at operation base rel True db = Inr db'" by (simp add: AddMemberTarget_def)
  show ?thesis using write_add_member add_store_ok [OF run assms(2)] by (rule_tac add_Inr [OF run]) (simp add: set_relationship_def)
next
  case (write_remove at operation base relationType targetID)
  then show ?thesis
    using remove_store_ok [OF write_remove assms(2)] by (rule_tac remove_Inr [OF write_remove]) (simp add: clear_relationship_def)
qed

lemma advance_store_ok:
  assumes "advance env cfg at m job (db, cs) = Inr (job', db', cs')" "store_ok (env_lib env) db" "uuid_law (env_lib env)"
  shows "store_ok (env_lib env) db'"
  using assms(1,2)
proof (cases rule: advance_cases)
  case gone
  then show ?thesis using assms(2) by simp
next
  case (moved childID child dbM csM others)
  note to = moveChild_True [OF moved(6,1,2) assms(2,3)]
  show ?thesis using clearDeleteEdges_Inr [OF moved(7) conjunct1 [OF to]] by blast
next
  case (pushed childID others)
  show ?thesis using clearDeleteEdges_Inr [OF pushed(3) assms(2)] by blast
next
  case (page edges)
  show ?thesis using clearDeleteEdges_Inr [OF page(3) assms(2)] by blast
next
  case (deleted topNode)
  show ?thesis using deleteTop_Inr [OF deleted(3,1,2) assms(2,3)] by blast
qed

lemma DeleteSubtreeStep_store_ok:
  assumes "DeleteSubtreeStep je cfg at now jobID (db, jobs) = Inr (progress, db', jobs')"
    and "store_ok (je_lib je) db" "uuid_law (je_lib je)"
  shows "store_ok (je_lib je) db'"
proof -
  obtain stored where stored: "readDeleteJob jobs jobID = Inr stored"
    using assms(1) unfolding DeleteSubtreeStep_def prod.case by (rule bindE_InrE)
  consider "stored = None \<or> (\<exists>job. stored = Some job \<and> Finished job)" | job where "stored = Some job" "running job"
    | job where "stored = Some job" "\<not> Finished job" "sj_stack job = []"
    by (cases stored) (auto simp: running_def)
  then show ?thesis
  proof cases
    case 1
    then have "db' = db" using assms(1) by (auto simp: DeleteSubtreeStep_def stored)
    then show ?thesis using assms(2) by simp
  next
    case (2 job)
    obtain m job1 db1 cs w where "advance (je_env je) cfg at m job (db, []) = Inr (job1, db1, cs)"
      "writeDeleteJob je (if sj_stack job1 = [] then job1\<lparr>sj_finished_at := now\<rparr> else job1) now jobs =
        Inr ((if sj_stack job1 = [] then job1\<lparr>sj_finished_at := now\<rparr> else job1)\<lparr>sj_updated_at := now\<rparr>, jobs')"
      "db' = db1\<lparr>db_outbox := db_outbox db1 @ w\<rparr>"
      by (rule DeleteSubtreeStep_advance [OF assms(1) stored [unfolded 2(1)] 2(2)]) (rule that)
    then show ?thesis using advance_store_ok [OF _ assms(2,3)] by simp
  next
    case (3 job)
    have "db' = db"
      using assms(1) 3
      by (auto simp: DeleteSubtreeStep_def stored Let_def append_changes_def AppendChanges_def elim!: bindE_InrE bindE_InrE2)
    then show ?thesis using assms(2) by simp
  qed
qed

lemma store_step_ok:
  assumes "store_step env cfg db db'" "store_ok (env_lib env) db" "uuid_law (env_lib env)"
  shows "store_ok (env_lib env) db'"
  using assms(1)
proof (cases rule: store_step.cases)
  case (step_write target)
  then show ?thesis using product_write_ok [of env cfg "fst target" "snd target" db db'] assms(2,3) by simp
next
  case (step_mutation at operation base plan receipt)
  then show ?thesis using ApplyMutation_store_ok(1) assms(2,3) by blast
next
  case (step_delete at operation base orgID nodeID seen)
  then show ?thesis using Delete_store_ok assms(2,3) by blast
next
  case (step_job je at now jobID jobs progress jobs')
  then show ?thesis using DeleteSubtreeStep_store_ok [of je] assms(2,3) by blast
next
  case (step_counter completedAt operation base orgID key target change seqs v changed seqs')
  have "\<exists>w. db' = db\<lparr>db_outbox := db_outbox db @ w\<rparr>" by (rule writeSequenceWithAudit_Inr [OF step_counter])
  then show ?thesis using assms(2) by auto
next
  case (step_activate evidence activation)
  then obtain encoded where "db' = db\<lparr>db_activation := Some encoded\<rparr>" using ActivateStrict_Inr by metis
  then show ?thesis using assms(2) store_ok_cong [of db' db "env_lib env"] by simp
qed

lemma reachable_store_ok:
  assumes "(store_step env cfg)\<^sup>*\<^sup>* db db'" "store_ok (env_lib env) db" "uuid_law (env_lib env)"
  shows "store_ok (env_lib env) db'"
  using assms by (induction rule: rtranclp_induct) (auto intro: store_step_ok)

section \<open>Every product write increments the fence\<close>

definition write_path :: "env \<Rightarrow> store_config \<Rightarrow> nat \<Rightarrow> db \<Rightarrow> db \<Rightarrow> bool" where
  "write_path env cfg n = (\<lambda>db db'. \<exists>target. product_write env cfg target db db') ^^ n"

lemma bump_all_append: "bump_all (ws @ [(orgID, nodeID)]) db = bump_fence orgID nodeID (bump_all ws db)"
  by (simp add: bump_all_def)

lemma bump_fence_cong: "db_fence a = db_fence b \<Longrightarrow> db_fence (bump_fence orgID nodeID a) = db_fence (bump_fence orgID nodeID b)"
  by (simp add: bump_fence_def Let_def)

lemma write_path_bumps:
  assumes "write_path env cfg n db db'" "store_ok (env_lib env) db" "uuid_law (env_lib env)" "cfg_write_fence cfg"
  shows "store_ok (env_lib env) db' \<and> (\<exists>ws. length ws = n \<and> db_fence db' = db_fence (bump_all ws db))"
  using assms(1)
proof (induction n arbitrary: db')
  case 0
  then show ?case using assms(2) by (simp add: write_path_def bump_all_def)
next
  case (Suc n)
  then obtain mid target where mid: "write_path env cfg n db mid" "product_write env cfg target mid db'"
    by (auto simp: write_path_def)
  obtain ws where ws: "store_ok (env_lib env) mid" "length ws = n" "db_fence mid = db_fence (bump_all ws db)"
    using Suc.IH [OF mid(1)] by blast
  obtain orgID nodeID where t: "target = (orgID, nodeID)" by (cases target)
  note ok = product_write_ok [OF mid(2) [unfolded t] ws(1) assms(3)]
  have "db_fence db' = db_fence (bump_all (ws @ [(orgID, nodeID)]) db)"
    using ok bump_fence_cong [OF ws(3), of orgID nodeID] assms(4) by (simp add: bump_all_append fenced_def)
  then show ?case using ok ws(2) by (intro conjI exI [of _ "ws @ [(orgID, nodeID)]"]) auto
qed

end
