(* ===== verification/Spec2Isabelle.thy ===== *)
theory Spec2Isabelle
  imports Search_Text Audit_Export Graph_Steps
begin

text \<open>
  \<^bold>\<open>tack: a verification of the node graph and its audit trail\<close>

  tack stores, for many organisations, a graph of typed nodes. A node has a type, a name and JSON
  properties that the organisation's schema describes; relationships connect nodes, and the
  relationship \<open>child_of\<close> together with the property \<open>parent_id\<close> makes them a hierarchy. Everything lives
  in FoundationDB. Each product write is one transaction: it checks what it was planned from, writes
  records, indexes, reference claims and relationships, schedules search work, increments a write fence
  and appends one audit event per changed record to an outbox. A relay sends the outbox to Kafka, where a
  consumer reassembles the events and appends them to a ledger of hash chains, one for each organisation
  and shard, from which signed bundles are exported and verified offline.

  \<^bold>\<open>Conventions.\<close> A transaction attempt is a function of the stored state that returns an error, and then
  changes nothing, or the new state. An error is a value of \<open>tack_error\<close>, the errors that callers test
  for; messages and log lines are not kept. A key family of FoundationDB is a finite map keyed by the
  elements of its tuple, and a family without values is a finite set; a range read lists it in key order.
  A stored JSON record is its text together with the value it decodes to, if it does. UUIDs are 128-bit
  words, digests 256-bit words, fence epochs 64-bit words, times nanoseconds as integers. The Go
  standard library is modelled where a claim depends on it (JSON compaction and escaping, little-endian
  counters, CRC-32, trimming). Code outside \<open>src/\<close> is a parameter: \<open>lib\<close> holds UUID printing and parsing,
  SHA-256, SHA-1 UUIDs and number parsing, \<open>wire\<close>, \<open>env\<close>, \<open>codec\<close> and \<open>bundle_lib\<close> the texts \<open>json.Marshal\<close>
  writes, the \<open>JSONB\<close> columns and the signatures. What the
  proofs need of them is a named hypothesis (\<open>uuid_law\<close>: parsing inverts printing; \<open>storable\<close> and
  \<open>export_law\<close>: stored values and exported rows decode to what was encoded), and each property
  with a hypothesis has a witness on a concrete instance. Retries of a transaction repeat the same
  function on a newer state (\<open>Transactions\<close>), so a property of one attempt holds for the attempt that commits.

  \<^bold>\<open>Theories.\<close>
  \<^item> \<open>Tack_Prelude\<close>: the types above, the error combinators, key families.
  \<^item> \<open>Reference_Template\<close> (\<open>domain/node/reference_*.go\<close>): human references such as ABC-12; a rendered
    reference parses back, and the counter key ignores the generated part.
  \<^item> \<open>Node_Types\<close> (\<open>domain/node\<close>): the records, feature sets and their old bit mask, the rule of the
    hierarchy parent, mutation plans, repair phases, fence buckets.
  \<^item> \<open>Property_Schema\<close> (\<open>domain/node/property_*.go\<close>): the validation of properties, shown to implement a
    declarative rule.
  \<^item> \<open>Search_Text\<close> (\<open>domain/node/search_*.go\<close>): the searchable text of a node; rendering is total and each
    property is either rendered or diagnosed.
  \<^item> \<open>Search_Schedule\<close> (\<open>adapters/foundationdb/search_schedule*.go\<close>): generations, pending work and its age
    index, an instance of the locale of mirrored indexes.
  \<^item> \<open>Audit_Event\<close>, \<open>Audit_Transport\<close> (\<open>internal/audit\<close>): the contract of change events, the change
    comparison, and the splitting and reassembly of events in any order of delivery.
  \<^item> \<open>Audit_Chain\<close> (\<open>chain_append.go\<close>, \<open>chain_head.go\<close>, \<open>canonical.go\<close>, \<open>legacy_row.go\<close>, \<open>row.go\<close>,
    \<open>export_rowhash.go\<close>): the tables of the ledger, the hash of a row, the appends and the check of a row
    that was read back. The locks and the isolation of the database appear as two states of an append, the
    one its chain head was read in and the one it commits in.
  \<^item> \<open>Audit_Ledger\<close>: the locale of a ledger writer, interpreted for the consumer, the direct recorder and the
    legacy row writer, and the histories they build; chains have no forks, whatever each writer read.
  \<^item> \<open>Audit_Export\<close> (\<open>export*.go\<close>, \<open>signers.go\<close>): bundles and their verification; an export of such a
    ledger verifies, and the walk over the links reports exactly the repeated and the unlinked rows.
  \<^item> \<open>Store\<close> (\<open>adapters/foundationdb\<close>): the stored state, node records, property indexes, references,
    relationships (the second instance of the locale) and change events, with the invariant \<open>store_ok\<close>.
  \<^item> \<open>Strict\<close>: the write fence, the evidence of a scan and the activation of strict validation.
  \<^item> \<open>Relationship_Store\<close>: adding and removing edges behind the guard of the last parent, and pages.
  \<^item> \<open>Node_Mutation\<close>: \<open>ApplyMutation\<close> from plan to committed state; the hierarchy stays acyclic, the
    parent edge agrees with \<open>parent_id\<close>, creates are idempotent, stale plans are refused.
  \<^item> \<open>Node_Deletion\<close> (\<open>node_delete.go\<close>, \<open>node_mutation_delete*.go\<close>): the deletion of one node; nothing of it
    stays, nothing else changes and no child is orphaned.
  \<^item> \<open>Node_Store\<close> (\<open>node.go\<close>, \<open>node_create.go\<close>, \<open>node_update*.go\<close>, \<open>node_properties.go\<close>): the unplanned writes
    and the reads of the node store; an update with the digest of what it was read from loses no other update.
  \<^item> \<open>Subtree_Deletion\<close> (\<open>node_delete_*.go\<close>, \<open>service/node_delete.go\<close>): the durable job that deletes a node
    with its descendants; the job ends, and a moved child keeps the hierarchy acyclic exactly when its
    destination is not below it.
  \<^item> \<open>Sequences\<close> (\<open>node_sequence*.go\<close>): the counters that number nodes; allocated numbers increase in commit order.
  \<^item> \<open>Transactions\<close> (\<open>node_transaction*.go\<close>, \<open>node_sequence_retry.go\<close>): the retry loops; a change commits once.
  \<^item> \<open>Graph_Steps\<close>: the store as a transition system of all these operations, for the properties at the end
    of this theory: every reachable state is well-formed, and every product write is seen by the
    activation of strict validation.

  \<^bold>\<open>Termination.\<close> All definitions are total without fuel except the scope walk of \<open>checkMoveScope\<close>, which
  has no set of visited nodes: it is a partial function whose \<open>None\<close> is not returning, and it is shown to
  return on all records that the preceding check accepts. The steps of a subtree deletion run with fuel, and
  enough fuel for every start is shown to exist by a lexicographic order on the stored nodes, the nodes
  off the stack, the edges at the stack and the stack.

  \<^bold>\<open>Not modelled.\<close> FoundationDB itself (its answers are inputs of the retry loops), Kafka, OpenSearch,
  PostgreSQL and YugabyteDB (services outside \<open>src/\<close>; the statements of the ledger append are modelled by
  their effect on the tables they name), the polling loop of the consumer, its offsets and dead letters, the
  rows of personal data, and the files of a bundle directory beyond their names and contents; the operator commands (\<open>internal/ops\<close>), whose steps
  are calls of external tools and services; configuration, telemetry, the command-line front ends, the
  generated protocol code and the test environment.
\<close>

section \<open>Properties of the whole store\<close>

text \<open>
  C5: Well-formedness. In every state that committed transactions reach from the empty store, whatever the operations,
  their order and their inputs, as long as the references written for a node have distinct templates, each node that resolves reads back as a node stored under its own
  organisation, type and ID, no read of a node and no lookup of a reference meets a record it cannot decode, the
  two directions of every relationship agree, and the work records of the search agree with their index.
\<close>

theorem reachable_well_formed:
  assumes "(store_step env cfg)\<^sup>*\<^sup>* empty_db db" "uuid_law (env_lib env)"
  shows "(\<forall>orgID nodeID. \<exists>s. readMutationSource db orgID nodeID = Inr s \<and>
      (ms_exists s \<longrightarrow> node_key (ms_node s) = (orgID, ms_kind s, nodeID))) \<and>
    (\<forall>orgID template encoded. \<exists>nodeID. LookupReference (env_lib env) db orgID template encoded = Inr nodeID) \<and>
    (\<forall>k. fmlookup (db_rels db) k \<noteq> None \<longleftrightarrow> reverse_key k |\<in>| db_rels_rev db) \<and> search_ok (env_lib env) (db_search db)"
proof -
  have ok: "store_ok (env_lib env) db" by (rule reachable_store_ok [OF assms(1) empty_db_ok assms(2)])
  have nodes: "\<exists>s. readMutationSource db orgID nodeID = Inr s \<and> (ms_exists s \<longrightarrow> node_key (ms_node s) = (orgID, ms_kind s, nodeID))"
    for orgID nodeID
    using readMutationSource_total [OF store_okD(1) [OF ok], of orgID nodeID]
      readMutationSource_exists(1) [OF _ _ store_okD(1) [OF ok], of orgID nodeID] by blast
  have "fmlookup (db_rels db) k \<noteq> None \<longleftrightarrow> reverse_key k |\<in>| db_rels_rev db" for k
    using rels_ok_reverse [OF store_okD(2) [OF ok], of "reverse_key k"] by simp
  then show ?thesis
    using nodes LookupReference_total [OF store_okD(3) [OF ok] assms(2)] store_okD(4) [OF ok]
    by blast
qed

theorem reachable_well_formed_witness:
  "\<exists>db. (store_step sample_env sample_config)\<^sup>*\<^sup>* empty_db db \<and> db \<noteq> empty_db \<and> (\<exists>s. readMutationSource db 1 4 = Inr s)"
proof -
  obtain db where run: "Set_node sample_env sample_config sample_instants (Some sample_operation) 77 demo_node None empty_db = Inr db"
    using demo_set by blast
  then have "product_write sample_env sample_config (node_org demo_node, node_id demo_node) empty_db db" by (rule write_set)
  then have step: "store_step sample_env sample_config empty_db db" by (rule step_write)
  have "wrote sample_config demo_node empty_db db" using Set_node_wrote [OF run] by simp
  then have "db \<noteq> empty_db" by (auto simp: wrote_def readMutationSource_def empty_db_def demo_node_def absent_source_def kv_get_def)
  moreover have "uuid_law (env_lib sample_env)" by (simp add: sample_env_def)
  moreover have path: "(store_step sample_env sample_config)\<^sup>*\<^sup>* empty_db db" using step by blast
  ultimately show ?thesis using reachable_well_formed [OF path] by blast
qed

text \<open>
  C14: Product writes and strict validation. Evidence that a scan captured is refused by every later activation once at
  least one and fewer than \<open>2 ^ 64\<close> product writes have committed, whichever of the operations of the
  node and relationship stores they are and whatever they write, with distinct templates for the references of a node: each of them increments the epoch of a bucket.
\<close>

theorem activation_after_product_writes:
  assumes "CaptureStrictEvidence db = Inr evidence" "write_path env cfg n db db'" "0 < n" "n < 2 ^ 64"
    and "store_ok (env_lib env) db" "uuid_law (env_lib env)" "cfg_write_fence cfg"
  shows "\<exists>e. snd (ActivateStrict env evidence activation db') = Inl e"
proof -
  obtain ws where "length ws = n" "db_fence db' = db_fence (bump_all ws db)"
    using write_path_bumps [OF assms(2,5,6,7)] by blast
  then show ?thesis
    using activation_refused_bumps [of db evidence ws db' env activation] assms(1,3,4) by (auto simp: CaptureStrictEvidence_def)
qed

theorem activation_after_product_writes_witness:
  "\<exists>db evidence e. CaptureStrictEvidence empty_db = Inr evidence \<and> write_path sample_env sample_config 1 empty_db db \<and>
    snd (ActivateStrict sample_env evidence inactive db) = Inl e"
proof -
  obtain db where run: "Set_node sample_env sample_config sample_instants (Some sample_operation) 77 demo_node None empty_db = Inr db"
    using demo_set by blast
  have path: "write_path sample_env sample_config 1 empty_db db"
    using write_set [OF run] by (auto simp: write_path_def)
  have capture: "CaptureStrictEvidence empty_db = Inr \<lparr>se_buckets = replicate WriteFenceBuckets 0, se_epochs = fmempty\<rparr>"
    by (simp add: CaptureStrictEvidence_def empty_db_evidence)
  have "uuid_law (env_lib sample_env)" "cfg_write_fence sample_config" by (simp_all add: sample_env_def sample_config_def)
  then obtain e where "snd (ActivateStrict sample_env \<lparr>se_buckets = replicate WriteFenceBuckets 0, se_epochs = fmempty\<rparr> inactive db) = Inl e"
    using activation_after_product_writes [OF capture path, of inactive] by auto
  then show ?thesis using path capture by blast
qed

end
